(* ===== verification/Prelude.thy ===== *)
theory Prelude
  imports Complex_Main "HOL-Library.Word"
begin

text \<open>
  Shared vocabulary of the development: Rust's fixed-width integers, the byte encodings of
  the wire formats, decimal printing and parsing, the operations on regular files the
  program performs (positioned writes, \<open>set_len\<close>, block-wise reads) and the lemmas about
  them that the component theories use.
\<close>

section \<open>Machine integers\<close>

type_synonym byte = "8 word"
type_synonym u16 = "16 word"
type_synonym u32 = "32 word"
type_synonym u64 = "64 word"
type_synonym usize = "64 word"

text \<open>
  \<open>u64\<close> arithmetic wraps, as in the release profile of the workspace (no
  \<open>overflow-checks\<close>); \<open>usize\<close> is 64 bits wide. An \<open>as i64\<close> cast reads the same
  bits as two's complement.
\<close>

named_theorems word_nat \<open>reading word arithmetic as arithmetic on naturals\<close>
named_theorems wire \<open>encoders, decoders and their round trips\<close>
named_theorems file_ops \<open>lengths and contents after file operations\<close>
named_theorems handler_defs \<open>definitions of handler phases\<close>

definition as_i64 :: "u64 \<Rightarrow> int" where
  "as_i64 w = sint w"

definition of_i64 :: "int \<Rightarrow> u64" where
  "of_i64 i = word_of_int i"

definition len64 :: "'a list \<Rightarrow> u64" where
  "len64 xs = word_of_nat (length xs)"

definition sat_sub :: "u64 \<Rightarrow> u64 \<Rightarrow> u64" where
  "sat_sub a b = (if a < b then 0 else a - b)"

definition clamp_u64 :: "u64 \<Rightarrow> u64 \<Rightarrow> u64 \<Rightarrow> u64" where
  "clamp_u64 lo hi x = (if x < lo then lo else if hi < x then hi else x)"

lemma unat_u64_bound: "unat (w::u64) < 18446744073709551616"
  using unsigned_less [of w] by simp

lemma unat_u32_bound: "unat (w::u32) < 4294967296"
  using unsigned_less [of w] by simp

lemma unat_div_word [word_nat]: "unat ((a::u64) div b) = unat a div unat b"
  by (rule unat_div)

lemma unat_mod_word [word_nat]: "unat ((a::u64) mod b) = unat a mod unat b"
  by (rule unat_mod)

lemma unat_add_u64: "unat (a::u64) + unat b < 2 ^ 64 \<Longrightarrow> unat (a + b) = unat a + unat b"
  by (simp add: unat_word_ariths)

lemma unat_mult_u64: "unat (a::u64) * unat b < 2 ^ 64 \<Longrightarrow> unat (a * b) = unat a * unat b"
  by (simp add: unat_word_ariths)

lemma unat_sat_sub [word_nat]: "unat (sat_sub a b) = unat a - unat b"
  by (auto simp: sat_sub_def word_less_nat_alt unat_sub_if')

lemma unat_min [word_nat]: "unat (min (a::u64) b) = min (unat a) (unat b)"
  by (simp add: min_def word_le_nat_alt)

lemma unat_len64 [word_nat]: "length xs < 2 ^ 64 \<Longrightarrow> unat (len64 xs) = length xs"
  by (simp add: len64_def unat_of_nat)

lemma clamp_u64_bounds:
  "lo \<le> hi \<Longrightarrow> lo \<le> clamp_u64 lo hi x \<and> clamp_u64 lo hi x \<le> hi"
  by (auto simp: clamp_u64_def)

lemma clamp_u64_id: "lo \<le> x \<Longrightarrow> x \<le> hi \<Longrightarrow> clamp_u64 lo hi x = x"
  by (auto simp: clamp_u64_def)

section \<open>Results\<close>

text \<open>
  \<open>Result<T, E>\<close> is \<open>'e + 'a\<close>, with \<open>Inl\<close> for \<open>Err\<close>; the operator \<open>?\<close> is
  \<open>res_bind\<close> and \<open>map_err\<close> is \<open>res_map_err\<close>.
\<close>

fun res_bind :: "'e + 'a \<Rightarrow> ('a \<Rightarrow> 'e + 'b) \<Rightarrow> 'e + 'b" where
  "res_bind (Inl e) f = Inl e"
| "res_bind (Inr a) f = f a"

fun res_map_err :: "('e \<Rightarrow> 'f) \<Rightarrow> 'e + 'a \<Rightarrow> 'f + 'a" where
  "res_map_err g (Inl e) = Inl (g e)"
| "res_map_err g (Inr a) = Inr a"

definition ok_or :: "'e \<Rightarrow> 'a option \<Rightarrow> 'e + 'a" where
  "ok_or e x = (case x of None \<Rightarrow> Inl e | Some a \<Rightarrow> Inr a)"

lemma ok_or_simps [simp]: "ok_or e None = Inl e" "ok_or e (Some a) = Inr a"
  by (simp_all add: ok_or_def)

lemma res_bind_Inr: "res_bind r f = Inr b \<longleftrightarrow> (\<exists>a. r = Inr a \<and> f a = Inr b)"
  by (cases r) auto

lemma res_bind_Inl: "res_bind r f = Inl e \<longleftrightarrow> r = Inl e \<or> (\<exists>a. r = Inr a \<and> f a = Inl e)"
  by (cases r) auto

section \<open>Byte encodings\<close>

text \<open>
  \<open>to_be_bytes\<close> and \<open>to_le_bytes\<close> of a \<open>k\<close>-byte unsigned integer, with the
  decoders \<open>from_be_bytes\<close> and \<open>from_le_bytes\<close>.
\<close>

primrec be_bytes :: "nat \<Rightarrow> nat \<Rightarrow> byte list" where
  "be_bytes 0 n = []"
| "be_bytes (Suc k) n = be_bytes k (n div 256) @ [word_of_nat n]"

definition nat_of_be :: "byte list \<Rightarrow> nat" where
  "nat_of_be bs = foldl (\<lambda>a b. a * 256 + unat b) 0 bs"

definition u64_to_be :: "u64 \<Rightarrow> byte list" where
  "u64_to_be w = be_bytes 8 (unat w)"

definition u64_from_be :: "byte list \<Rightarrow> u64" where
  "u64_from_be bs = word_of_nat (nat_of_be bs)"

definition u32_to_le :: "u32 \<Rightarrow> byte list" where
  "u32_to_le w = rev (be_bytes 4 (unat w))"

definition u32_from_le :: "byte list \<Rightarrow> u32" where
  "u32_from_le bs = word_of_nat (nat_of_be (rev bs))"

lemma length_be_bytes [simp]: "length (be_bytes k n) = k"
  by (induction k arbitrary: n) auto

lemma nat_of_be_snoc: "nat_of_be (xs @ [b]) = nat_of_be xs * 256 + unat b"
  by (simp add: nat_of_be_def)

lemma nat_of_be_bytes: "nat_of_be (be_bytes k n) = n mod 256 ^ k"
proof (induction k arbitrary: n)
  case 0
  then show ?case by (simp add: nat_of_be_def)
next
  case (Suc k)
  have "n mod (256 * 256 ^ k) = 256 * (n div 256 mod 256 ^ k) + n mod 256"
    by (rule mod_mult2_eq)
  then show ?case
    by (simp add: nat_of_be_snoc Suc.IH unat_of_nat)
qed

lemma length_u64_to_be [simp]: "length (u64_to_be w) = 8"
  by (simp add: u64_to_be_def)

lemma length_u32_to_le [simp]: "length (u32_to_le w) = 4"
  by (simp add: u32_to_le_def)

lemma u64_be_roundtrip [simp, wire]: "u64_from_be (u64_to_be w) = w"
  using unat_u64_bound [of w]
  by (simp add: u64_from_be_def u64_to_be_def nat_of_be_bytes)

lemma u32_le_roundtrip [simp, wire]: "u32_from_le (u32_to_le w) = w"
  using unat_u32_bound [of w]
  by (simp add: u32_from_le_def u32_to_le_def nat_of_be_bytes)

lemma u64_to_be_inj: "u64_to_be a = u64_to_be b \<longleftrightarrow> a = b"
  by (metis u64_be_roundtrip)

section \<open>Strings\<close>

definition bytes_of :: "string \<Rightarrow> byte list" where
  "bytes_of s = map (\<lambda>c. word_of_nat (of_char c)) s"

definition string_of :: "byte list \<Rightarrow> string" where
  "string_of bs = map (\<lambda>b. char_of (unat b)) bs"

lemma string_of_bytes_of [simp, wire]: "string_of (bytes_of s) = s"
proof -
  have "char_of (unat (word_of_nat (of_char c) :: byte)) = c" for c
    by (simp add: unat_of_nat flip: take_bit_eq_mod)
  then show ?thesis by (simp add: string_of_def bytes_of_def o_def)
qed

lemma length_bytes_of [simp]: "length (bytes_of s) = length s"
  by (simp add: bytes_of_def)

text \<open>\<open>str::contains\<close> and \<open>str::starts_with\<close>.\<close>

fun starts_with :: "'a list \<Rightarrow> 'a list \<Rightarrow> bool" where
  "starts_with s [] = True"
| "starts_with [] (p # ps) = False"
| "starts_with (c # cs) (p # ps) = (c = p \<and> starts_with cs ps)"

fun contains_str :: "string \<Rightarrow> string \<Rightarrow> bool" where
  "contains_str [] p = (p = [])"
| "contains_str (c # cs) p = (starts_with (c # cs) p \<or> contains_str cs p)"

lemma starts_with_iff: "starts_with s p \<longleftrightarrow> (\<exists>r. s = p @ r)"
  by (induction s p rule: starts_with.induct) auto

lemma contains_str_iff: "contains_str s p \<longleftrightarrow> (\<exists>l r. s = l @ p @ r)"
proof (induction s)
  case Nil
  then show ?case by simp
next
  case (Cons c cs)
  have "(\<exists>l r. c # cs = l @ p @ r) \<longleftrightarrow> (\<exists>r. c # cs = p @ r) \<or> (\<exists>l r. cs = l @ p @ r)"
    by (metis append_Cons append_Nil list.exhaust list.inject)
  then show ?case by (simp add: Cons.IH starts_with_iff)
qed

text \<open>Decimal printing (\<open>format!("{n}")\<close>) and \<open>str::parse::<u64>()\<close>.\<close>

definition digit_char :: "nat \<Rightarrow> char" where
  "digit_char d = char_of (48 + d)"

fun show_nat :: "nat \<Rightarrow> string" where
  "show_nat n = (if n < 10 then [digit_char n]
                 else show_nat (n div 10) @ [digit_char (n mod 10)])"

declare show_nat.simps [simp del]

definition digit_val :: "char \<Rightarrow> nat option" where
  "digit_val c = (let n = of_char c in if 48 \<le> n \<and> n \<le> 57 then Some (n - 48) else None)"

fun parse_digits :: "nat \<Rightarrow> string \<Rightarrow> nat option" where
  "parse_digits a [] = Some a"
| "parse_digits a (c # cs) =
     (case digit_val c of None \<Rightarrow> None | Some d \<Rightarrow> parse_digits (a * 10 + d) cs)"

text \<open>Rust accepts one leading plus sign, rejects the empty string and overflow.\<close>

definition parse_nat_below :: "nat \<Rightarrow> string \<Rightarrow> nat option" where
  "parse_nat_below limit s =
     (let ds = (case s of c # cs \<Rightarrow> if c = CHR ''+'' then cs else s | [] \<Rightarrow> []) in
      if ds = [] then None
      else case parse_digits 0 ds of
             None \<Rightarrow> None
           | Some n \<Rightarrow> if n < limit then Some n else None)"

definition parse_u64 :: "string \<Rightarrow> u64 option" where
  "parse_u64 s = map_option word_of_nat (parse_nat_below (2 ^ 64) s)"

lemma digit_val_digit_char [simp]: "d < 10 \<Longrightarrow> digit_val (digit_char d) = Some d"
  by (simp add: digit_val_def digit_char_def)

lemma digit_char_not_plus: "d < 10 \<Longrightarrow> digit_char d \<noteq> CHR ''+''"
proof
  assume "d < 10" "digit_char d = CHR ''+''"
  then have "digit_val (digit_char d) = digit_val (CHR ''+'')" by simp
  with \<open>d < 10\<close> show False by (simp add: digit_val_def digit_char_def)
qed

lemma parse_digits_append:
  "parse_digits a (xs @ ys) =
     (case parse_digits a xs of None \<Rightarrow> None | Some n \<Rightarrow> parse_digits n ys)"
  by (induction xs arbitrary: a) (auto split: option.splits)

lemma parse_digits_show_nat: "parse_digits 0 (show_nat n) = Some n"
proof (induction n rule: show_nat.induct)
  case (1 n)
  show ?case
  proof (cases "n < 10")
    case True
    then show ?thesis by (subst show_nat.simps) simp
  next
    case False
    with 1 show ?thesis by (subst show_nat.simps) (simp add: parse_digits_append)
  qed
qed

lemma show_nat_Cons: "\<exists>d cs. show_nat n = digit_char d # cs \<and> d < 10"
proof (induction n rule: show_nat.induct)
  case (1 n)
  show ?case
  proof (cases "n < 10")
    case True
    then show ?thesis by (subst show_nat.simps) auto
  next
    case False
    with 1 obtain d cs where "show_nat (n div 10) = digit_char d # cs" "d < 10" by blast
    with False show ?thesis by (subst show_nat.simps) auto
  qed
qed

lemma parse_nat_below_show: "n < limit \<Longrightarrow> parse_nat_below limit (show_nat n) = Some n"
proof -
  assume n: "n < limit"
  obtain d cs where s: "show_nat n = digit_char d # cs" "d < 10"
    using show_nat_Cons by blast
  then have "digit_char d \<noteq> CHR ''+''" by (simp add: digit_char_not_plus)
  with s n parse_digits_show_nat [of n] show ?thesis
    by (simp add: parse_nat_below_def)
qed

lemma parse_u64_show [wire]: "parse_u64 (show_nat (unat w)) = Some w"
  using unat_u64_bound [of w] by (simp add: parse_u64_def parse_nat_below_show)

section \<open>Regular files\<close>

text \<open>
  The content of a file is the list of its bytes. A write at an offset past the end fills
  the gap with zeros; a seek alone does not extend a file.
\<close>

type_synonym fdata = "byte list"

definition write_at :: "nat \<Rightarrow> byte list \<Rightarrow> fdata \<Rightarrow> fdata" where
  "write_at off d f =
     (if d = [] then f
      else take off (f @ replicate (off - length f) 0) @ d @ drop (off + length d) f)"

definition set_len :: "nat \<Rightarrow> fdata \<Rightarrow> fdata" where
  "set_len n f = take n f @ replicate (n - length f) 0"

lemma length_write_at [file_ops]:
  "length (write_at off d f) =
     (if d = [] then length f else max (length f) (off + length d))"
  by (auto simp: write_at_def)

lemma length_set_len [file_ops]: "length (set_len n f) = n"
  by (simp add: set_len_def)

lemma nth_write_at [file_ops]:
  assumes "i < length (write_at off d f)"
  shows "write_at off d f ! i =
    (if off \<le> i \<and> i < off + length d then d ! (i - off)
     else if i < length f then f ! i else 0)"
proof (cases "d = []")
  case True
  with assms show ?thesis by (auto simp: write_at_def)
next
  case False
  let ?pad = "take off (f @ replicate (off - length f) 0)"
  have lp: "length ?pad = off" by simp
  show ?thesis
  proof (cases "i < off")
    case True
    with False lp show ?thesis by (auto simp: write_at_def nth_append)
  next
    case i: False
    show ?thesis
    proof (cases "i < off + length d")
      case True
      with False i lp show ?thesis by (auto simp: write_at_def nth_append)
    next
      case j: False
      with assms False have "i < length f" by (simp add: length_write_at split: if_splits)
      with False i j show ?thesis by (auto simp: write_at_def nth_append)
    qed
  qed
qed

text \<open>
  A regular file read with a buffer of \<open>n\<close> bytes: every read but the last fills the
  buffer, and the read after the last byte returns 0 bytes and ends the loop.
\<close>

function read_blocks :: "nat \<Rightarrow> 'a list \<Rightarrow> 'a list list" where
  "read_blocks n xs = (if n = 0 \<or> xs = [] then [] else take n xs # read_blocks n (drop n xs))"
  by pat_completeness auto
termination
  by (relation "measure (\<lambda>(n, xs). length xs)") auto

declare read_blocks.simps [simp del]

lemma read_blocks_Nil [simp]: "read_blocks n [] = []"
  by (simp add: read_blocks.simps)

lemma concat_read_blocks [simp]: "0 < n \<Longrightarrow> concat (read_blocks n xs) = xs"
proof (induction n xs rule: read_blocks.induct)
  case (1 n xs)
  then show ?case by (cases "xs = []") (simp_all add: read_blocks.simps [of n xs])
qed

lemma read_blocks_bounds:
  "b \<in> set (read_blocks n xs) \<Longrightarrow> b \<noteq> [] \<and> length b \<le> n"
proof (induction n xs rule: read_blocks.induct)
  case (1 n xs)
  then show ?case
    by (cases "n = 0 \<or> xs = []") (auto simp: read_blocks.simps [of n xs])
qed

lemma length_read_blocks: "0 < n \<Longrightarrow> length (read_blocks n xs) = (length xs + n - 1) div n"
proof (induction n xs rule: read_blocks.induct)
  case (1 n xs)
  show ?case
  proof (cases "xs = []")
    case True
    with 1 show ?thesis by simp
  next
    case False
    with 1 have "length (read_blocks n xs) = Suc ((length (drop n xs) + n - 1) div n)"
      by (simp add: read_blocks.simps [of n xs])
    also have "\<dots> = (length xs + n - 1) div n"
    proof (cases "n \<le> length xs")
      case True
      with 1(2) show ?thesis by (simp add: le_div_geq)
    next
      case small: False
      from False obtain m where m: "length xs = Suc m" by (cases xs) auto
      with small have "m < n" by simp
      with small m 1(2) show ?thesis by simp
    qed
    finally show ?thesis .
  qed
qed

lemma length_read_blocks_drop: "0 < n \<Longrightarrow> length (read_blocks n (drop k xs)) \<le> length (read_blocks n xs)"
  by (simp only: length_read_blocks length_drop) (rule div_le_mono, linarith)

end
