(* ===== verification/Framing.thy ===== *)
theory Framing
  imports Prelude
begin

text \<open>
  The two message framings of the program. \<open>p2ptransfer-core/src/network/tcp.rs\<close> prefixes
  a message with its length as a big-endian \<open>u64\<close> and refuses more than 64 MB;
  \<open>network/alpn.rs\<close> prefixes a JSON text with its length as a little-endian \<open>u32\<close> and
  refuses more than 10 MB. A connection is the list of the bytes still to be read, closed
  after the last one. The locale \<open>message_transport\<close> is the contract both share; the
  protocol theories use it through its two interpretations.
\<close>

section \<open>The contract of a message transport\<close>

fun get_n :: "(byte list \<Rightarrow> string + 'm \<times> byte list) \<Rightarrow> nat \<Rightarrow> byte list
    \<Rightarrow> string + 'm list \<times> byte list" where
  "get_n get 0 s = Inr ([], s)"
| "get_n get (Suc n) s =
     res_bind (get s) (\<lambda>(m, s'). res_bind (get_n get n s') (\<lambda>(ms, r). Inr (m # ms, r)))"

locale message_transport =
  fixes put :: "'m \<Rightarrow> byte list"
    and get :: "byte list \<Rightarrow> string + 'm \<times> byte list"
    and fits :: "'m \<Rightarrow> bool"
  assumes get_put: "fits m \<Longrightarrow> get (put m @ rest) = Inr (m, rest)"
    and get_truncated: "fits m \<Longrightarrow> k < length (put m) \<Longrightarrow> \<exists>e. get (take k (put m)) = Inl e"
begin

lemma get_put_only: "fits m \<Longrightarrow> get (put m) = Inr (m, [])"
  using get_put [of m "[]"] by simp

lemma put_split:
  assumes "fits m" "fits m'" "put m @ r = put m' @ r'"
  shows "m = m' \<and> r = r'"
proof -
  have "get (put m @ r) = Inr (m, r)" by (rule get_put [OF assms(1)])
  moreover have "get (put m @ r) = Inr (m', r')"
    unfolding assms(3) by (rule get_put [OF assms(2)])
  ultimately show ?thesis by simp
qed

lemma get_messages:
  "\<forall>m \<in> set ms. fits m \<Longrightarrow>
   get_n get (length ms) (concat (map put ms) @ rest) = Inr (ms, rest)"
  by (induction ms) (simp_all add: get_put)

lemma put_not_prefix:
  assumes "fits m" "fits m'" "put m = put m' @ x # xs"
  shows False
proof -
  from assms(3) have "length (put m') < length (put m)" by simp
  moreover from assms(3) have "take (length (put m')) (put m) = put m'" by simp
  ultimately obtain e where "get (put m') = Inl e"
    using get_truncated [OF assms(1), of "length (put m')"] by auto
  with get_put_only [OF assms(2)] show False by simp
qed

end

section \<open>TCP messages (tcp.rs)\<close>

definition MAX_PAYLOAD_SIZE :: u64 where
  "MAX_PAYLOAD_SIZE = 64 * 1024 * 1024"

definition DEFAULT_TCP_PORT :: u16 where
  "DEFAULT_TCP_PORT = 9877"

definition send_message :: "byte list \<Rightarrow> byte list" where
  "send_message data = u64_to_be (len64 data) @ data"

definition oversized_text :: "u64 \<Rightarrow> string" where
  "oversized_text n = ''Oversized message: '' @ show_nat (unat n) @ '' bytes exceeds max ''
     @ show_nat (unat MAX_PAYLOAD_SIZE)"

definition receive_message :: "byte list \<Rightarrow> string + byte list \<times> byte list" where
  "receive_message s =
     (if length s < 8 then Inl ''Failed to read message length''
      else let msg_len = u64_from_be (take 8 s); rest = drop 8 s in
        if msg_len > MAX_PAYLOAD_SIZE then Inl (oversized_text msg_len)
        else if length rest < unat msg_len then Inl ''Failed to read message payload''
        else Inr (take (unat msg_len) rest, drop (unat msg_len) rest))"

definition fits_payload :: "byte list \<Rightarrow> bool" where
  "fits_payload data \<longleftrightarrow> length data \<le> 67108864"

lemma MAX_PAYLOAD_nat: "unat MAX_PAYLOAD_SIZE = 67108864"
  by (simp add: MAX_PAYLOAD_SIZE_def)

lemma length_send_message [wire]: "length (send_message d) = 8 + length d"
  by (simp add: send_message_def)

lemma unat_len64_fits: "fits_payload d \<Longrightarrow> unat (len64 d) = length d"
  by (simp add: unat_len64 fits_payload_def)

lemma len64_not_oversized: "fits_payload d \<Longrightarrow> \<not> MAX_PAYLOAD_SIZE < len64 d"
  by (simp add: word_less_nat_alt unat_len64_fits MAX_PAYLOAD_nat) (simp add: fits_payload_def)

lemma receive_send:
  "fits_payload d \<Longrightarrow> receive_message (send_message d @ rest) = Inr (d, rest)"
  by (simp add: receive_message_def send_message_def unat_len64_fits len64_not_oversized)

lemma receive_truncated:
  assumes "fits_payload d" "k < length (send_message d)"
  shows "\<exists>e. receive_message (take k (send_message d)) = Inl e"
proof (cases "k < 8")
  case True
  then show ?thesis by (simp add: receive_message_def length_send_message)
next
  case False
  with assms show ?thesis
    by (simp add: receive_message_def send_message_def Let_def unat_len64_fits
        len64_not_oversized)
qed

interpretation tcp: message_transport send_message receive_message fits_payload
  by unfold_locales (simp_all add: receive_send receive_truncated)

lemma receive_oversized:
  assumes "67108864 < length d" "length d < 2 ^ 64"
  shows "receive_message (send_message d @ rest) = Inl (oversized_text (len64 d))"
proof -
  have "MAX_PAYLOAD_SIZE < len64 d"
    using assms by (simp add: word_less_nat_alt unat_len64 MAX_PAYLOAD_nat)
  then show ?thesis by (simp add: receive_message_def send_message_def)
qed

lemma receive_message_bound:
  assumes "receive_message s = Inr (d, rest)"
  shows "length d \<le> 67108864 \<and> s = take 8 s @ d @ rest"
proof -
  let ?n = "u64_from_be (take 8 s)"
  from assms have l: "8 \<le> length s" and n: "?n \<le> MAX_PAYLOAD_SIZE"
    and d: "d = take (unat ?n) (drop 8 s)" "rest = drop (unat ?n) (drop 8 s)"
    by (auto simp: receive_message_def Let_def not_less split: if_splits)
  from n have "unat ?n \<le> 67108864"
    by (simp add: word_le_nat_alt MAX_PAYLOAD_nat)
  with d(1) have "length d \<le> 67108864" by simp
  moreover have "s = take 8 s @ d @ rest" unfolding d by (metis append_take_drop_id)
  ultimately show ?thesis by blast
qed

section \<open>The request/response server (tcp.rs)\<close>

type_synonym message_handler = "byte list \<Rightarrow> string \<Rightarrow> string + byte list"

record tcp_server =
  srv_port :: u16
  srv_buffer_size :: usize
  srv_listener :: "u16 option option"
  srv_handler :: "message_handler option"
  srv_running :: bool

text \<open>
  \<open>srv_listener\<close> is the bound listener, if any, with the port \<open>local_addr\<close> reports, if
  that succeeds.
\<close>

definition server_new :: "u16 \<Rightarrow> tcp_server" where
  "server_new p = \<lparr>srv_port = p, srv_buffer_size = 4 * 1024 * 1024, srv_listener = None,
     srv_handler = None, srv_running = False\<rparr>"

definition with_buffer_size :: "tcp_server \<Rightarrow> usize \<Rightarrow> tcp_server" where
  "with_buffer_size s n = s\<lparr>srv_buffer_size := n\<rparr>"

definition with_handler :: "tcp_server \<Rightarrow> message_handler \<Rightarrow> tcp_server" where
  "with_handler s h = s\<lparr>srv_handler := Some h\<rparr>"

definition server_port :: "tcp_server \<Rightarrow> u16" where
  "server_port s = (case srv_listener s of Some (Some p) \<Rightarrow> p | _ \<Rightarrow> srv_port s)"

text \<open>What the operating system answers to \<open>bind\<close> and \<open>listen\<close>.\<close>

datatype bind_outcome = BindFails | ListenFails | Bound "u16 option"

definition server_start :: "tcp_server \<Rightarrow> bind_outcome \<Rightarrow> (string + unit) \<times> tcp_server" where
  "server_start s os =
     (case os of
        BindFails \<Rightarrow> (Inl ''Failed to bind TCP listener'', s)
      | ListenFails \<Rightarrow> (Inl ''Failed to listen on TCP socket'', s)
      | Bound p \<Rightarrow> (Inr (), s\<lparr>srv_listener := Some p, srv_running := True\<rparr>))"

definition server_stop :: "tcp_server \<Rightarrow> tcp_server" where
  "server_stop s = s\<lparr>srv_running := False\<rparr>"

text \<open>
  One turn of the accept loop reads the flag and then a connection (or an accept error,
  which is logged); the accepted connections are handed to spawned tasks.
\<close>

fun accept_turns :: "(bool \<times> (string + 'conn)) list \<Rightarrow> 'conn list" where
  "accept_turns [] = []"
| "accept_turns ((False, _) # ts) = []"
| "accept_turns ((True, Inr c) # ts) = c # accept_turns ts"
| "accept_turns ((True, Inl e) # ts) = accept_turns ts"

definition accept_loop :: "tcp_server \<Rightarrow> (bool \<times> (string + 'conn)) list \<Rightarrow> string + 'conn list" where
  "accept_loop s turns =
     (case srv_listener s of
        None \<Rightarrow> Inl ''Server not started. Call start() first.''
      | Some _ \<Rightarrow> (case srv_handler s of
          None \<Rightarrow> Inl ''No message handler configured''
        | Some _ \<Rightarrow> Inr (accept_turns turns)))"

text \<open>
  \<open>handle_connection\<close>: one element of the first list per turn, the value of \<open>running\<close>
  then; \<open>reset\<close> says that the connection ends with an error other than end of file. The
  result is the bytes written and how the task ended.
\<close>

fun handle_connection :: "message_handler \<Rightarrow> string \<Rightarrow> bool \<Rightarrow> bool list \<Rightarrow> byte list
    \<Rightarrow> byte list \<times> (string + unit)" where
  "handle_connection h addr reset [] s = ([], Inr ())"
| "handle_connection h addr reset (run # runs) s =
     (if \<not> run then ([], Inr ())
      else if length s < 8 then
        ([], if reset then Inl ''Failed to read message length'' else Inr ())
      else let msg_len = u64_from_be (take 8 s); rest = drop 8 s in
        if msg_len > MAX_PAYLOAD_SIZE then ([], Inr ())
        else if length rest < unat msg_len then ([], Inl ''Failed to read message payload'')
        else case h (take (unat msg_len) rest) addr of
               Inl e \<Rightarrow> ([], Inl e)
             | Inr response \<Rightarrow>
                 let (out, r) = handle_connection h addr reset runs (drop (unat msg_len) rest)
                 in (send_message response @ out, r))"

lemma handle_connection_step:
  assumes "fits_payload d" "h d addr = Inr resp"
  shows "handle_connection h addr reset (True # runs) (send_message d @ rest) =
    (send_message resp @ fst (handle_connection h addr reset runs rest),
     snd (handle_connection h addr reset runs rest))"
  using assms len64_not_oversized [of d]
  by (simp add: send_message_def unat_len64_fits case_prod_beta)

lemma handle_connection_serves:
  assumes "\<forall>(q, a) \<in> set qas. fits_payload q \<and> h q addr = Inr a"
  shows "handle_connection h addr False (replicate (Suc (length qas)) True)
           (concat (map (send_message \<circ> fst) qas))
         = (concat (map (send_message \<circ> snd) qas), Inr ())"
  using assms
proof (induction qas)
  case Nil
  then show ?case by simp
next
  case (Cons qa qas)
  obtain q a where qa: "qa = (q, a)" by (cases qa)
  with Cons.prems have "fits_payload q" "h q addr = Inr a"
    and rest: "\<forall>(q, a) \<in> set qas. fits_payload q \<and> h q addr = Inr a" by auto
  then show ?case
    using handle_connection_step [of q h addr a False "True # replicate (length qas) True"
        "concat (map (send_message \<circ> fst) qas)"] Cons.IH [OF rest]
    by (simp only: qa list.map concat.simps o_def fst_conv snd_conv length_Cons replicate_Suc)
qed

section \<open>JSON messages over QUIC (alpn.rs)\<close>

text \<open>
  \<open>serde_json\<close> is third-party code: \<open>enc\<close> and \<open>dec\<close> stand for \<open>to_vec\<close> and
  \<open>from_slice\<close> at the message's type.
\<close>

definition json_frame :: "byte list \<Rightarrow> byte list" where
  "json_frame json = u32_to_le (word_of_nat (length json)) @ json"

definition read_json_frame :: "byte list \<Rightarrow> string + byte list \<times> byte list" where
  "read_json_frame s =
     (if length s < 4 then Inl ''early eof''
      else let len = unat (u32_from_le (take 4 s)); rest = drop 4 s in
        if len > 10 * 1024 * 1024 then
          Inl (''Message too large: '' @ show_nat len @ '' bytes'')
        else if length rest < len then Inl ''early eof''
        else Inr (take len rest, drop len rest))"

definition fits_json :: "byte list \<Rightarrow> bool" where
  "fits_json json \<longleftrightarrow> length json \<le> 10485760"

lemma unat_json_len: "fits_json j \<Longrightarrow> unat (word_of_nat (length j) :: u32) = length j"
  by (simp add: fits_json_def unat_of_nat)

lemma read_json_frame_put:
  "fits_json j \<Longrightarrow> read_json_frame (json_frame j @ rest) = Inr (j, rest)"
  by (simp add: read_json_frame_def json_frame_def unat_json_len) (simp add: fits_json_def)

lemma read_json_frame_truncated:
  assumes "fits_json j" "k < length (json_frame j)"
  shows "\<exists>e. read_json_frame (take k (json_frame j)) = Inl e"
proof (cases "k < 4")
  case True
  then show ?thesis by (simp add: read_json_frame_def json_frame_def)
next
  case False
  with assms show ?thesis
    by (auto simp add: read_json_frame_def json_frame_def Let_def unat_json_len)
qed

interpretation quic: message_transport json_frame read_json_frame fits_json
  by unfold_locales (simp_all add: read_json_frame_put read_json_frame_truncated)

definition write_json :: "('m \<Rightarrow> byte list option) \<Rightarrow> 'm \<Rightarrow> string + byte list" where
  "write_json enc msg =
     res_bind (ok_or ''serialization failed'' (enc msg)) (\<lambda>json. Inr (json_frame json))"

definition read_json :: "(byte list \<Rightarrow> 'm option) \<Rightarrow> byte list \<Rightarrow> string + 'm \<times> byte list" where
  "read_json dec s =
     res_bind (read_json_frame s) (\<lambda>(json, rest).
     res_bind (ok_or ''deserialization failed'' (dec json)) (\<lambda>m. Inr (m, rest)))"

text \<open>The law of \<open>serde_json\<close> at a derived type: parsing inverts printing.\<close>

definition codec_ok :: "('m \<Rightarrow> byte list option) \<Rightarrow> (byte list \<Rightarrow> 'm option) \<Rightarrow> bool" where
  "codec_ok enc dec \<longleftrightarrow> (\<forall>m j. enc m = Some j \<longrightarrow> dec j = Some m)"

lemma read_write_json:
  assumes "codec_ok enc dec" "enc m = Some j" "fits_json j"
  shows "\<exists>out. write_json enc m = Inr out \<and> read_json dec (out @ rest) = Inr (m, rest)"
  using assms by (simp add: write_json_def read_json_def quic.get_put codec_ok_def)

end
