(* ===== verification/Crypto.thy ===== *)
theory Crypto
  imports Prelude
begin

text \<open>
  \<open>p2ptransfer-core/src/crypto/ecdh.rs\<close> and \<open>aead.rs\<close>: the X25519 key exchange, the
  HKDF-SHA256 session key, the nonce layout and the ChaCha20-Poly1305 wrappers. The three
  algorithms are third-party code, the parameter \<open>crypto_lib\<close>; the program relies on
  Diffie-Hellman agreement (\<open>dh_agrees\<close>) and on decryption inverting encryption with a
  16-byte tag (\<open>aead_roundtrip\<close>).
\<close>

record crypto_lib =
  x25519_public :: "byte list \<Rightarrow> byte list"
  x25519_shared :: "byte list \<Rightarrow> byte list \<Rightarrow> byte list"
  hkdf_expand :: "byte list \<Rightarrow> byte list \<Rightarrow> byte list \<Rightarrow> byte list option"
  chacha_encrypt :: "byte list \<Rightarrow> byte list \<Rightarrow> byte list \<Rightarrow> byte list option"
  chacha_decrypt :: "byte list \<Rightarrow> byte list \<Rightarrow> byte list \<Rightarrow> byte list option"

definition dh_agrees :: "crypto_lib \<Rightarrow> bool" where
  "dh_agrees C \<longleftrightarrow> (\<forall>a b. x25519_shared C a (x25519_public C b) = x25519_shared C b (x25519_public C a))
     \<and> (\<forall>a. length (x25519_public C a) = 32)"

definition aead_roundtrip :: "crypto_lib \<Rightarrow> bool" where
  "aead_roundtrip C \<longleftrightarrow>
     (\<forall>k n p c. chacha_encrypt C k n p = Some c \<longrightarrow>
        chacha_decrypt C k n c = Some p \<and> length c = length p + 16)"

section \<open>Key exchange\<close>

record ecdh_key_exchange =
  kx_secret :: "byte list"
  kx_public :: "byte list"

text \<open>The secret is drawn from the operating system's generator: an argument.\<close>

definition ecdh_new :: "crypto_lib \<Rightarrow> byte list \<Rightarrow> ecdh_key_exchange" where
  "ecdh_new C secret = \<lparr>kx_secret = secret, kx_public = x25519_public C secret\<rparr>"

definition public_key_bytes :: "ecdh_key_exchange \<Rightarrow> byte list" where
  "public_key_bytes kx = kx_public kx"

definition derive_shared_secret ::
  "crypto_lib \<Rightarrow> ecdh_key_exchange \<Rightarrow> byte list \<Rightarrow> string + byte list" where
  "derive_shared_secret C kx peer_public = Inr (x25519_shared C (kx_secret kx) peer_public)"

section \<open>Session key, nonces, encryption\<close>

definition NONCE_LEN :: nat where "NONCE_LEN = 12"
definition KEY_LEN :: nat where "KEY_LEN = 32"
definition TAG_LEN :: nat where "TAG_LEN = 16"

definition derive_encryption_key ::
  "crypto_lib \<Rightarrow> byte list \<Rightarrow> byte list \<Rightarrow> byte list \<Rightarrow> string + byte list" where
  "derive_encryption_key C shared_secret salt info =
     ok_or ''HKDF expand failed'' (hkdf_expand C salt shared_secret info)"

text \<open>Four draws of 32 random bits, each cut to its low byte.\<close>

definition generate_nonce_prefix :: "(nat \<Rightarrow> u32) \<Rightarrow> byte list" where
  "generate_nonce_prefix rng = map (\<lambda>i. ucast (rng i)) [0..<4]"

definition build_nonce :: "byte list \<Rightarrow> u64 \<Rightarrow> byte list" where
  "build_nonce prefix counter = prefix @ u64_to_be counter"

definition encrypt ::
  "crypto_lib \<Rightarrow> byte list \<Rightarrow> byte list \<Rightarrow> byte list \<Rightarrow> string + byte list" where
  "encrypt C key nonce plaintext =
     ok_or ''Encryption failed'' (chacha_encrypt C key nonce plaintext)"

definition decrypt ::
  "crypto_lib \<Rightarrow> byte list \<Rightarrow> byte list \<Rightarrow> byte list \<Rightarrow> string + byte list" where
  "decrypt C key nonce ciphertext =
     ok_or ''Decryption failed'' (chacha_decrypt C key nonce ciphertext)"

lemma encrypt_Inr [simp]: "encrypt C k n p = Inr c \<longleftrightarrow> chacha_encrypt C k n p = Some c"
  by (auto simp: encrypt_def ok_or_def split: option.splits)

lemma decrypt_encrypt:
  "aead_roundtrip C \<Longrightarrow> encrypt C k n p = Inr c \<Longrightarrow> decrypt C k n c = Inr p"
  by (simp add: aead_roundtrip_def decrypt_def)

lemma length_encrypt:
  "aead_roundtrip C \<Longrightarrow> encrypt C k n p = Inr c \<Longrightarrow> length c = length p + TAG_LEN"
  by (simp add: aead_roundtrip_def TAG_LEN_def)

lemma length_generate_nonce_prefix [simp]: "length (generate_nonce_prefix rng) = 4"
  by (simp add: generate_nonce_prefix_def)

lemma length_build_nonce: "length p = 4 \<Longrightarrow> length (build_nonce p c) = NONCE_LEN"
  by (simp add: build_nonce_def NONCE_LEN_def)

lemma build_nonce_inj:
  "length p = length q \<Longrightarrow> build_nonce p c = build_nonce q d \<longleftrightarrow> p = q \<and> c = d"
  by (auto simp: build_nonce_def u64_to_be_inj)

section \<open>The session key both ends derive\<close>

definition SALT :: "byte list" where "SALT = bytes_of ''P2PTRANSFER_SALT_v1''"
definition INFO :: "byte list" where "INFO = bytes_of ''p2ptransfer-v1-encryption''"

definition session_key ::
  "crypto_lib \<Rightarrow> ecdh_key_exchange \<Rightarrow> byte list \<Rightarrow> string + byte list" where
  "session_key C kx peer_public =
     res_bind (derive_shared_secret C kx peer_public)
       (\<lambda>shared. derive_encryption_key C shared SALT INFO)"

lemma session_key_agrees:
  "dh_agrees C \<Longrightarrow>
   session_key C (ecdh_new C a) (public_key_bytes (ecdh_new C b))
     = session_key C (ecdh_new C b) (public_key_bytes (ecdh_new C a))"
  by (simp add: session_key_def derive_shared_secret_def public_key_bytes_def ecdh_new_def
      dh_agrees_def)

text \<open>
  A concrete instance for the witnesses: a commutative combination of the secrets, and an
  encryption that appends a tag made of the key's and the nonce's first bytes.
\<close>

definition demo_tag :: "byte list \<Rightarrow> byte list \<Rightarrow> byte list" where
  "demo_tag k n = take 16 (take 4 k @ n @ replicate 16 7)"

definition demo_crypto :: crypto_lib where
  "demo_crypto =
     \<lparr>x25519_public = (\<lambda>s. take 32 (s @ replicate 32 0)),
      x25519_shared = (\<lambda>s p. map2 (+) (take 32 (s @ replicate 32 0)) p),
      hkdf_expand = (\<lambda>salt ikm info. Some ikm),
      chacha_encrypt = (\<lambda>k n p. Some (p @ demo_tag k n)),
      chacha_decrypt = (\<lambda>k n c. if length c < 16 then None
         else if drop (length c - 16) c = demo_tag k n then Some (take (length c - 16) c)
         else None)\<rparr>"

lemma map2_add_commute: "map2 (+) (xs :: byte list) ys = map2 (+) ys xs"
proof (induction xs arbitrary: ys)
  case Nil
  then show ?case by simp
next
  case (Cons x xs)
  then show ?case by (cases ys) (simp_all add: add.commute)
qed

lemma demo_crypto_dh: "dh_agrees demo_crypto"
  by (auto simp: dh_agrees_def demo_crypto_def intro: map2_add_commute)

lemma length_demo_tag [simp]: "length (demo_tag k n) = 16"
  by (simp add: demo_tag_def)

lemma demo_crypto_aead: "aead_roundtrip demo_crypto"
  by (auto simp: aead_roundtrip_def demo_crypto_def)

end
