(* ===== verification/Hashing.thy ===== *)
theory Hashing
  imports Prelude
begin

text \<open>
  \<open>p2ptransfer-core/src/transfer/hasher.rs\<close>: one-shot and streaming hashes. BLAKE3 and
  XXH64 are third-party code: their incremental states and functions are parameters
  (\<open>hash_lib\<close>, \<open>xx_lib\<close>). What the program relies on is the documented law of a
  streaming hash, \<open>streaming_hash\<close>: feeding data in pieces gives the digest of the
  concatenation.
\<close>

record 'h hash_lib =
  hl_new :: "'h"
  hl_update :: "'h \<Rightarrow> byte list \<Rightarrow> 'h"
  hl_finalize :: "'h \<Rightarrow> byte list"

record 'x xx_lib =
  xx_new :: "u64 \<Rightarrow> 'x"
  xx_update :: "'x \<Rightarrow> byte list \<Rightarrow> 'x"
  xx_digest :: "'x \<Rightarrow> u64"

definition streaming_hash :: "'h hash_lib \<Rightarrow> bool" where
  "streaming_hash L \<longleftrightarrow>
     (\<forall>segs. hl_finalize L (foldl (hl_update L) (hl_new L) segs)
             = hl_finalize L (hl_update L (hl_new L) (concat segs)))"

text \<open>A BLAKE3 digest has 32 bytes.\<close>

definition digest_32 :: "'h hash_lib \<Rightarrow> bool" where
  "digest_32 L \<longleftrightarrow> (\<forall>h. length (hl_finalize L h) = 32)"

definition xxhash64 :: "'x xx_lib \<Rightarrow> byte list \<Rightarrow> u64" where
  "xxhash64 X data = (let h = xx_new X 0; h = xx_update X h data in xx_digest X h)"

definition blake3_hash :: "'h hash_lib \<Rightarrow> byte list \<Rightarrow> byte list" where
  "blake3_hash L data = hl_finalize L (hl_update L (hl_new L) data)"

text \<open>
  A reader is the script of results its \<open>read\<close> calls return; a read of 0 bytes is the end
  of the input, as is the end of the script.
\<close>

datatype read_result = ReadErr string | ReadBytes "byte list"

fun hash_read_loop :: "'h hash_lib \<Rightarrow> 'h \<Rightarrow> read_result list \<Rightarrow> string + 'h" where
  "hash_read_loop L h [] = Inr h"
| "hash_read_loop L h (ReadErr e # rs) = Inl ''Failed to read data for hashing''"
| "hash_read_loop L h (ReadBytes bs # rs) =
     (if bs = [] then Inr h else hash_read_loop L (hl_update L h bs) rs)"

definition blake3_hash_reader :: "'h hash_lib \<Rightarrow> read_result list \<Rightarrow> string + byte list" where
  "blake3_hash_reader L rs =
     res_bind (hash_read_loop L (hl_new L) rs) (\<lambda>h. Inr (hl_finalize L h))"

text \<open>The lower-case hexadecimal text of a digest.\<close>

definition hex_digit :: "nat \<Rightarrow> char" where
  "hex_digit d = (if d < 10 then char_of (48 + d) else char_of (87 + d))"

definition hex_byte :: "byte \<Rightarrow> string" where
  "hex_byte b = [hex_digit (unat b div 16), hex_digit (unat b mod 16)]"

definition to_hex :: "byte list \<Rightarrow> string" where
  "to_hex bs = concat (map hex_byte bs)"

lemma length_to_hex [simp]: "length (to_hex bs) = 2 * length bs"
  by (induction bs) (auto simp: to_hex_def hex_byte_def)

lemma hex_digit_inj: "a < 16 \<Longrightarrow> b < 16 \<Longrightarrow> hex_digit a = hex_digit b \<Longrightarrow> a = b"
proof -
  assume ab: "a < 16" "b < 16" and eq: "hex_digit a = hex_digit b"
  have v: "of_char (hex_digit d) = (if d < 10 then 48 + d else 87 + d)" if "d < 16" for d :: nat
    using that by (simp add: hex_digit_def)
  from eq have "(of_char (hex_digit a) :: nat) = of_char (hex_digit b)" by simp
  with ab show "a = b" by (simp add: v split: if_splits)
qed

lemma hex_byte_inj: "hex_byte a = hex_byte b \<Longrightarrow> a = b"
proof -
  assume eq: "hex_byte a = hex_byte b"
  have bd: "unat (x::byte) < 256" for x using unsigned_less [of x] by simp
  have "unat a div 16 = unat b div 16" "unat a mod 16 = unat b mod 16"
    using eq bd [of a] bd [of b] hex_digit_inj [of "unat a div 16" "unat b div 16"]
      hex_digit_inj [of "unat a mod 16" "unat b mod 16"]
    by (auto simp: hex_byte_def)
  then have "unat a = unat b" by (metis div_mult_mod_eq)
  then show ?thesis by (simp add: word_unat_eq_iff)
qed

lemma to_hex_inj: "to_hex xs = to_hex ys \<Longrightarrow> xs = ys"
proof (induction xs arbitrary: ys)
  case Nil
  then show ?case by (cases ys) (auto simp: to_hex_def hex_byte_def)
next
  case (Cons x xs)
  then obtain y ys' where ys: "ys = y # ys'"
    by (cases ys) (auto simp: to_hex_def hex_byte_def)
  from Cons.prems have "hex_byte x = hex_byte y" "to_hex xs = to_hex ys'"
    by (auto simp: ys to_hex_def hex_byte_def)
  with Cons.IH hex_byte_inj show ?case by (simp add: ys)
qed

section \<open>Streaming equals one-shot\<close>

lemma hash_read_loop_segs:
  "\<forall>s \<in> set segs. s \<noteq> [] \<Longrightarrow>
   hash_read_loop L h (map ReadBytes segs @ ReadBytes [] # rest) = Inr (foldl (hl_update L) h segs)"
  by (induction segs arbitrary: h) auto

lemma streaming_hash_segs:
  "streaming_hash L \<Longrightarrow>
   hl_finalize L (foldl (hl_update L) (hl_new L) segs) = blake3_hash L (concat segs)"
  by (simp add: streaming_hash_def blake3_hash_def)

lemma hash_reader_segs:
  "streaming_hash L \<Longrightarrow> \<forall>s \<in> set segs. s \<noteq> [] \<Longrightarrow>
   blake3_hash_reader L (map ReadBytes segs @ ReadBytes [] # rest)
     = Inr (blake3_hash L (concat segs))"
  by (simp add: blake3_hash_reader_def hash_read_loop_segs streaming_hash_segs)

text \<open>The reads a regular file answers to a buffer of \<open>n\<close> bytes.\<close>

definition file_reader :: "nat \<Rightarrow> fdata \<Rightarrow> read_result list" where
  "file_reader n f = map ReadBytes (read_blocks n f) @ [ReadBytes []]"

lemma hash_file_reader:
  "streaming_hash L \<Longrightarrow> 0 < n \<Longrightarrow> blake3_hash_reader L (file_reader n f) = Inr (blake3_hash L f)"
  using read_blocks_bounds [of _ n f] hash_reader_segs [of L "read_blocks n f" "[]"]
  by (auto simp: file_reader_def)

text \<open>
  A concrete streaming digest for the witnesses: the data is collected, and the digest is
  its last 32 bytes, read as one big-endian number.
\<close>

definition demo_hash :: "byte list hash_lib" where
  "demo_hash = \<lparr>hl_new = [], hl_update = (\<lambda>h d. h @ d),
     hl_finalize = (\<lambda>h. be_bytes 32 (nat_of_be h))\<rparr>"

lemma demo_hash_update: "foldl (\<lambda>h d. h @ d) h segs = h @ concat segs"
  by (induction segs arbitrary: h) auto

lemma demo_hash_streaming: "streaming_hash demo_hash"
  by (simp add: streaming_hash_def demo_hash_def demo_hash_update)

lemma demo_hash_digest: "digest_32 demo_hash"
  by (simp add: digest_32_def demo_hash_def)

end
