(* ===== verification/Chunker.thy ===== *)
theory Chunker
  imports Prelude
begin

text \<open>
  \<open>p2ptransfer-core/src/transfer/chunker.rs\<close>: the chunk size is clamped between 512 KB
  and 64 MB, a file is cut into \<open>total_chunks\<close> chunks and chunk \<open>i\<close> starts at
  \<open>i * chunk_size\<close>. Offsets are 64-bit products that wrap; inside the file they do not.
\<close>

definition DEFAULT_CHUNK_SIZE :: usize where "DEFAULT_CHUNK_SIZE = 16 * 1024 * 1024"
definition MIN_CHUNK_SIZE :: usize where "MIN_CHUNK_SIZE = 512 * 1024"
definition MAX_CHUNK_SIZE :: usize where "MAX_CHUNK_SIZE = 64 * 1024 * 1024"

record chunker =
  ck_chunk_size :: usize
  ck_file_size :: u64

definition chunker_new :: "usize \<Rightarrow> u64 \<Rightarrow> chunker" where
  "chunker_new chunk_size file_size =
     \<lparr>ck_chunk_size = clamp_u64 MIN_CHUNK_SIZE MAX_CHUNK_SIZE chunk_size,
      ck_file_size = file_size\<rparr>"

definition div_ceil :: "u64 \<Rightarrow> u64 \<Rightarrow> u64" where
  "div_ceil a b = (if a mod b > 0 \<and> b > 0 then a div b + 1 else a div b)"

definition total_chunks :: "chunker \<Rightarrow> u64" where
  "total_chunks c =
     (if ck_file_size c = 0 then 1 else div_ceil (ck_file_size c) (ck_chunk_size c))"

definition chunk_offset :: "chunker \<Rightarrow> u64 \<Rightarrow> u64" where
  "chunk_offset c index = index * ck_chunk_size c"

definition chunk_length :: "chunker \<Rightarrow> u64 \<Rightarrow> usize" where
  "chunk_length c index =
     (let offset = chunk_offset c index;
          remaining = sat_sub (ck_file_size c) offset
      in min remaining (ck_chunk_size c))"

text \<open>The round-trip time is a float in the code; the comparisons read it as a rational.\<close>

definition adaptive_chunk_size :: "rat \<Rightarrow> usize" where
  "adaptive_chunk_size rtt_ms =
     (if rtt_ms > 100 then MAX_CHUNK_SIZE
      else if rtt_ms > 20 then 8 * 1024 * 1024
      else DEFAULT_CHUNK_SIZE)"

section \<open>Reading the chunker on naturals\<close>

definition wf_chunker :: "chunker \<Rightarrow> bool" where
  "wf_chunker c \<longleftrightarrow> MIN_CHUNK_SIZE \<le> ck_chunk_size c \<and> ck_chunk_size c \<le> MAX_CHUNK_SIZE"

abbreviation cs_nat :: "chunker \<Rightarrow> nat" where "cs_nat c \<equiv> unat (ck_chunk_size c)"
abbreviation fs_nat :: "chunker \<Rightarrow> nat" where "fs_nat c \<equiv> unat (ck_file_size c)"
abbreviation n_chunks :: "chunker \<Rightarrow> nat" where "n_chunks c \<equiv> unat (total_chunks c)"

lemma chunk_size_consts:
  "unat MIN_CHUNK_SIZE = 524288" "unat MAX_CHUNK_SIZE = 67108864"
  "unat DEFAULT_CHUNK_SIZE = 16777216"
  by (simp_all add: MIN_CHUNK_SIZE_def MAX_CHUNK_SIZE_def DEFAULT_CHUNK_SIZE_def)

lemma wf_chunker_nat: "wf_chunker c \<longleftrightarrow> 524288 \<le> cs_nat c \<and> cs_nat c \<le> 67108864"
  by (simp add: wf_chunker_def word_le_nat_alt chunk_size_consts)

lemma wf_chunker_new: "wf_chunker (chunker_new cs fs)"
  using clamp_u64_bounds [of MIN_CHUNK_SIZE MAX_CHUNK_SIZE cs]
  by (simp add: wf_chunker_def chunker_new_def word_le_nat_alt chunk_size_consts)

lemma ck_file_size_new [simp]: "ck_file_size (chunker_new cs fs) = fs"
  by (simp add: chunker_new_def)

lemma div_ceil_nat:
  assumes "1 < unat b"
  shows "unat (div_ceil a b) = (unat a + unat b - 1) div unat b"
proof -
  let ?a = "unat a" and ?b = "unat b"
  have b0: "b > 0" using assms by (simp add: word_less_nat_alt)
  have half: "?a div ?b + 1 < 2 ^ 64"
  proof -
    have "?a div ?b \<le> ?a div 2" using assms by (intro div_le_mono2) auto
    also have "\<dots> < 2 ^ 63" using unat_u64_bound [of a] by simp
    finally show ?thesis by simp
  qed
  show ?thesis
  proof (cases "?a mod ?b = 0")
    case True
    then have "a mod b = 0" by (simp add: word_unat_eq_iff unat_mod_word)
    moreover from True obtain q where q: "?a = ?b * q" by (metis mod_0_imp_dvd dvdE)
    have "(?a + ?b - 1) div ?b = q"
    proof -
      have "?a + ?b - 1 = ?b - 1 + q * ?b" using q assms by (simp add: mult.commute [of q])
      also have "\<dots> div ?b = q + (?b - 1) div ?b" using assms by (subst div_mult_self1) auto
      finally show ?thesis using assms by simp
    qed
    ultimately show ?thesis using q assms by (simp add: div_ceil_def unat_div_word)
  next
    case False
    then have "a mod b > 0" by (simp add: word_less_nat_alt unat_mod_word)
    then have "unat (div_ceil a b) = ?a div ?b + 1"
      using b0 half by (simp add: div_ceil_def unat_div_word unat_add_u64)
    moreover have "(?a + ?b - 1) div ?b = ?a div ?b + 1"
    proof -
      have "?a + ?b - 1 = (?a mod ?b - 1 + ?b) + ?a div ?b * ?b"
        using False assms div_mult_mod_eq [of ?a ?b] by linarith
      also have "\<dots> div ?b = ?a div ?b + (?a mod ?b - 1 + ?b) div ?b"
        using assms by (subst div_mult_self1) auto
      also have "(?a mod ?b - 1 + ?b) div ?b = 1"
        using assms less_imp_diff_less [OF mod_less_divisor [of ?b ?a], of 1]
        by (simp add: div_add_self2)
      finally show ?thesis .
    qed
    ultimately show ?thesis by simp
  qed
qed

lemma n_chunks_nat:
  "wf_chunker c \<Longrightarrow>
   n_chunks c = (if fs_nat c = 0 then 1 else (fs_nat c + cs_nat c - 1) div cs_nat c)"
  by (auto simp: total_chunks_def wf_chunker_nat div_ceil_nat word_unat_eq_iff)

lemma n_chunks_pos: "wf_chunker c \<Longrightarrow> 0 < n_chunks c"
  by (auto simp: n_chunks_nat wf_chunker_nat div_greater_zero_iff)

text \<open>The last chunk starts inside the file and reaches its end.\<close>

lemma chunk_in_file:
  assumes "wf_chunker c" "i < n_chunks c" "0 < fs_nat c"
  shows "i * cs_nat c < fs_nat c"
proof -
  from assms have "i < (fs_nat c + cs_nat c - 1) div cs_nat c"
    by (simp add: n_chunks_nat)
  then have "Suc i \<le> (fs_nat c + cs_nat c - 1) div cs_nat c" by simp
  moreover have pos: "0 < cs_nat c" using assms(1) by (simp add: wf_chunker_nat)
  ultimately have "Suc i * cs_nat c \<le> fs_nat c + cs_nat c - 1"
    by (simp add: less_eq_div_iff_mult_less_eq)
  then have "i * cs_nat c + cs_nat c \<le> fs_nat c + cs_nat c - 1" by simp
  with pos assms(3) show ?thesis by linarith
qed

lemma chunks_reach_end:
  assumes "wf_chunker c"
  shows "fs_nat c \<le> n_chunks c * cs_nat c"
proof (cases "fs_nat c = 0")
  case False
  let ?m = "fs_nat c + cs_nat c - 1"
  have pos: "0 < cs_nat c" using assms by (simp add: wf_chunker_nat)
  have "?m = ?m div cs_nat c * cs_nat c + ?m mod cs_nat c" by simp
  moreover have "?m mod cs_nat c < cs_nat c" using pos by simp
  ultimately have "fs_nat c \<le> ?m div cs_nat c * cs_nat c" using pos by linarith
  with False assms show ?thesis by (simp add: n_chunks_nat)
qed simp

lemma chunk_offset_nat:
  assumes "wf_chunker c" "i < n_chunks c"
  shows "unat (chunk_offset c (word_of_nat i)) = i * cs_nat c"
proof (cases "fs_nat c = 0")
  case True
  with assms have "i = 0" by (simp add: n_chunks_nat)
  then show ?thesis by (simp add: chunk_offset_def)
next
  case False
  have i: "unat (word_of_nat i :: u64) = i"
    using assms(2) unat_u64_bound [of "total_chunks c"] by (simp add: unat_of_nat)
  from False assms have "i * cs_nat c < fs_nat c" by (simp add: chunk_in_file)
  then have "i * cs_nat c < 2 ^ 64" using unat_u64_bound [of "ck_file_size c"] by simp
  then show ?thesis by (simp add: chunk_offset_def unat_mult_u64 i)
qed

lemma chunk_length_nat:
  assumes "wf_chunker c" "i < n_chunks c"
  shows "unat (chunk_length c (word_of_nat i)) = min (fs_nat c - i * cs_nat c) (cs_nat c)"
  using assms by (simp add: chunk_length_def Let_def unat_min unat_sat_sub chunk_offset_nat)

lemma chunk_last_ends:
  assumes "wf_chunker c" "0 < fs_nat c"
  shows "(n_chunks c - 1) * cs_nat c + unat (chunk_length c (word_of_nat (n_chunks c - 1)))
    = fs_nat c"
proof -
  let ?n = "n_chunks c"
  have n: "?n - 1 < ?n" using assms n_chunks_pos by simp
  have lt: "(?n - 1) * cs_nat c < fs_nat c" using assms n by (simp add: chunk_in_file)
  have "fs_nat c \<le> ?n * cs_nat c" using assms by (simp add: chunks_reach_end)
  also have "?n * cs_nat c = (?n - 1) * cs_nat c + cs_nat c"
    using n by (cases ?n) auto
  finally have "fs_nat c - (?n - 1) * cs_nat c \<le> cs_nat c" by linarith
  moreover have "unat (chunk_length c (word_of_nat (?n - 1)))
      = min (fs_nat c - (?n - 1) * cs_nat c) (cs_nat c)"
    by (rule chunk_length_nat [OF assms(1) n])
  ultimately show ?thesis using lt by linarith
qed

text \<open>Chunk \<open>i\<close> of a file, as a slice of its content.\<close>

definition chunk_slice :: "chunker \<Rightarrow> fdata \<Rightarrow> nat \<Rightarrow> byte list" where
  "chunk_slice c f i =
     take (unat (chunk_length c (word_of_nat i))) (drop (unat (chunk_offset c (word_of_nat i))) f)"

lemma chunk_slice_nat:
  assumes "wf_chunker c" "i < n_chunks c" "length f = fs_nat c"
  shows "chunk_slice c f i = take (cs_nat c) (drop (i * cs_nat c) f)"
  using assms by (simp add: chunk_slice_def chunk_offset_nat chunk_length_nat min_def)

lemma concat_slices:
  "concat (map (\<lambda>i. take k (drop (i * k) f)) [0..<n]) = take (n * k) f"
proof (induction n)
  case 0
  then show ?case by simp
next
  case (Suc n)
  have "take (n * k + k) f = take (n * k) f @ take k (drop (n * k) f)" by (rule take_add)
  with Suc show ?case by (simp add: add.commute)
qed

lemma chunks_partition:
  assumes "wf_chunker c" "length f = fs_nat c"
  shows "concat (map (chunk_slice c f) [0..<n_chunks c]) = f"
proof -
  have "map (chunk_slice c f) [0..<n_chunks c]
      = map (\<lambda>i. take (cs_nat c) (drop (i * cs_nat c) f)) [0..<n_chunks c]"
    using assms by (auto simp: chunk_slice_nat)
  then have "concat (map (chunk_slice c f) [0..<n_chunks c]) = take (n_chunks c * cs_nat c) f"
    by (simp only: concat_slices)
  with chunks_reach_end [OF assms(1)] assms(2) show ?thesis by simp
qed

end
