(* ===== verification/Paths.thy ===== *)
theory Paths
  imports Prelude "HOL-Library.List_Lexorder" "HOL-Library.Char_ord"
begin

text \<open>
  File paths as \<open>std::path\<close> sees them on Unix: a path is the sequence of components its
  text is split into. Two paths are equal, and are ordered, by their components; joining,
  \<open>file_name\<close>, \<open>file_stem\<close>, \<open>extension\<close> and \<open>parent\<close> work on the last component.
  The order is an instance of \<open>linorder\<close>, as \<open>PathBuf: Ord\<close>, so that directory listings
  are sorted by the library's \<open>sort\<close>.
\<close>

section \<open>Components\<close>

datatype component = RootDir | CurDir | ParentDir | Normal string

fun component_rank :: "component \<Rightarrow> nat" where
  "component_rank RootDir = 1"
| "component_rank CurDir = 2"
| "component_rank ParentDir = 3"
| "component_rank (Normal _) = 4"

fun component_name :: "component \<Rightarrow> string" where
  "component_name (Normal s) = s"
| "component_name _ = []"

lemma component_eqI:
  "component_rank a = component_rank b \<Longrightarrow> component_name a = component_name b \<Longrightarrow> a = b"
  by (cases a; cases b) auto

instantiation component :: linorder
begin

definition less_eq_component :: "component \<Rightarrow> component \<Rightarrow> bool" where
  "less_eq_component a b \<longleftrightarrow>
     component_rank a < component_rank b
     \<or> (component_rank a = component_rank b \<and> component_name a \<le> component_name b)"

definition less_component :: "component \<Rightarrow> component \<Rightarrow> bool" where
  "less_component a b \<longleftrightarrow>
     component_rank a < component_rank b
     \<or> (component_rank a = component_rank b \<and> component_name a < component_name b)"

instance
proof
  fix a b c :: component
  show "a < b \<longleftrightarrow> a \<le> b \<and> \<not> b \<le> a"
    by (auto simp: less_eq_component_def less_component_def)
  show "a \<le> a" by (simp add: less_eq_component_def)
  show "a \<le> b \<Longrightarrow> b \<le> c \<Longrightarrow> a \<le> c"
    by (auto simp: less_eq_component_def)
  show "a \<le> b \<Longrightarrow> b \<le> a \<Longrightarrow> a = b"
    by (auto simp: less_eq_component_def intro: component_eqI)
  show "a \<le> b \<or> b \<le> a"
    by (auto simp: less_eq_component_def)
qed

end

datatype path = Path (components: "component list")

instantiation path :: linorder
begin

definition less_eq_path :: "path \<Rightarrow> path \<Rightarrow> bool" where
  "less_eq_path p q \<longleftrightarrow> components p \<le> components q"

definition less_path :: "path \<Rightarrow> path \<Rightarrow> bool" where
  "less_path p q \<longleftrightarrow> components p < components q"

instance
  by standard
     (auto simp: less_eq_path_def less_path_def path.expand)

end

section \<open>Parsing and joining\<close>

fun split_on :: "char \<Rightarrow> string \<Rightarrow> string list" where
  "split_on c [] = [[]]"
| "split_on c (x # xs) =
     (if x = c then [] # split_on c xs
      else case split_on c xs of [] \<Rightarrow> [[x]] | w # ws \<Rightarrow> (x # w) # ws)"

fun component_of :: "string \<Rightarrow> component list" where
  "component_of s =
     (if s = [] \<or> s = ''.'' then []
      else if s = ''..'' then [ParentDir] else [Normal s])"

text \<open>Repeated slashes and inner dots disappear; a leading dot is kept.\<close>

definition path_of :: "string \<Rightarrow> path" where
  "path_of s =
     (let ws = split_on CHR ''/'' s;
          lead = (if starts_with s ''/'' then [RootDir]
                  else if hd ws = ''.'' then [CurDir] else [])
      in Path (lead @ concat (map component_of ws)))"

definition is_absolute :: "path \<Rightarrow> bool" where
  "is_absolute p = (case components p of RootDir # _ \<Rightarrow> True | _ \<Rightarrow> False)"

text \<open>\<open>Path::join\<close>: an absolute argument replaces the base.\<close>

definition path_join :: "path \<Rightarrow> path \<Rightarrow> path" where
  "path_join base p =
     (if is_absolute p then p
      else if components base = [] then p
      else Path (components base @ filter (\<lambda>c. c \<noteq> CurDir) (components p)))"

definition file_name :: "path \<Rightarrow> string option" where
  "file_name p = (case rev (components p) of Normal s # _ \<Rightarrow> Some s | _ \<Rightarrow> None)"

definition parent :: "path \<Rightarrow> path option" where
  "parent p =
     (case rev (components p) of
        [] \<Rightarrow> None | RootDir # _ \<Rightarrow> None | c # cs \<Rightarrow> Some (Path (rev cs)))"

text \<open>
  The name is cut at its last dot; a name that starts with its only dot has no extension.
\<close>

definition last_dot :: "string \<Rightarrow> (string \<times> string) option" where
  "last_dot s =
     (let after = rev (takeWhile (\<lambda>c. c \<noteq> CHR ''.'') (rev s));
          rest = dropWhile (\<lambda>c. c \<noteq> CHR ''.'') (rev s)
      in case rest of [] \<Rightarrow> None | _ # b \<Rightarrow> if b = [] then None else Some (rev b, after))"

definition file_stem :: "path \<Rightarrow> string option" where
  "file_stem p =
     (case file_name p of None \<Rightarrow> None
      | Some s \<Rightarrow> (case last_dot s of None \<Rightarrow> Some s | Some (b, _) \<Rightarrow> Some b))"

definition path_extension :: "path \<Rightarrow> string option" where
  "path_extension p =
     (case file_name p of None \<Rightarrow> None
      | Some s \<Rightarrow> (case last_dot s of None \<Rightarrow> None | Some (_, a) \<Rightarrow> Some a))"

fun component_text :: "component \<Rightarrow> string" where
  "component_text RootDir = []"
| "component_text CurDir = ''.''"
| "component_text ParentDir = ''..''"
| "component_text (Normal s) = s"

fun join_slash :: "string list \<Rightarrow> string" where
  "join_slash [] = []"
| "join_slash [w] = w"
| "join_slash (w # ws) = w @ ''/'' @ join_slash ws"

definition path_text :: "path \<Rightarrow> string" where
  "path_text p = (if components p = [RootDir] then ''/''
                  else join_slash (map component_text (components p)))"

definition opt_default :: "'a \<Rightarrow> 'a option \<Rightarrow> 'a" where
  "opt_default d x = (case x of None \<Rightarrow> d | Some v \<Rightarrow> v)"

lemma last_dot_Some: "last_dot s = Some (b, a) \<Longrightarrow> s = b @ CHR ''.'' # a"
proof -
  assume s: "last_dot s = Some (b, a)"
  let ?P = "\<lambda>c. c \<noteq> CHR ''.''"
  from s obtain d where d: "dropWhile ?P (rev s) = d # rev b"
    and a: "a = rev (takeWhile ?P (rev s))"
    by (auto simp: last_dot_def Let_def split: list.splits if_splits)
  have "d = CHR ''.''" using hd_dropWhile [of ?P "rev s"] d by auto
  with d a takeWhile_dropWhile_id [of ?P "rev s"] have "rev s = rev a @ CHR ''.'' # rev b"
    by simp
  then have "rev (rev s) = rev (rev a @ CHR ''.'' # rev b)" by (rule arg_cong)
  then show ?thesis by simp
qed

lemma file_name_join:
  "file_name q = Some n \<Longrightarrow> file_name (path_join p q) = Some n"
  by (cases "components q" rule: rev_cases)
     (auto simp: file_name_def path_join_def split: list.splits component.splits)

lemma parent_append_Normal: "parent (Path (cs @ [Normal s])) = Some (Path cs)"
  by (simp add: parent_def)

lemma join_absolute: "is_absolute p \<Longrightarrow> path_join base p = p"
  by (simp add: path_join_def)

end
