(* ===== verification/Engine.thy ===== *)
theory Engine
  imports Hashing Chunker Paths
begin

text \<open>
  \<open>p2ptransfer-core/src/transfer/engine.rs\<close>: the metadata of a transfer, reading a chunk
  of the source file, writing a received chunk into the target file, the final checksum
  and the table of progress records. The file system is a map from paths to contents;
  \<open>io_env\<close> says which paths the operating system lets the program open and which
  directories it can create. \<open>chunk_sink\<close> is the contract of a store of chunks, shared
  with the receiver of the command-line program.
\<close>

type_synonym filesystem = "path \<rightharpoonup> fdata"

record io_env =
  io_readable :: "path \<Rightarrow> bool"
  io_writable :: "path \<Rightarrow> bool"
  io_mkdir :: "path \<Rightarrow> bool"

definition io_all :: io_env where
  "io_all = \<lparr>io_readable = (\<lambda>_. True), io_writable = (\<lambda>_. True), io_mkdir = (\<lambda>_. True)\<rparr>"

definition file_at :: "path \<Rightarrow> filesystem \<Rightarrow> fdata" where
  "file_at p fs = opt_default [] (fs p)"

section \<open>Data\<close>

datatype transfer_state =
  StatePending | StateHandshaking | StateNegotiating | StateTransferring | StatePaused
  | StateCompleted | StateFailed string | StateCancelled

record transfer_metadata =
  md_session_id :: string
  md_file_name :: string
  md_file_path :: path
  md_file_size :: u64
  md_chunk_size :: usize
  md_total_chunks :: u64
  md_checksum :: "byte list"
  md_resume_offset :: u64
  md_is_resume :: bool
  md_nonce_prefix :: "byte list"
  md_force_restart :: bool

record transfer_progress =
  tp_session_id :: string
  tp_bytes_transferred :: u64
  tp_total_bytes :: u64
  tp_chunks_completed :: u64
  tp_total_chunks :: u64
  tp_speed_bps :: rat
  tp_state :: transfer_state

record 'rm transfer_engine =
  te_max_parallelism :: usize
  te_resume_manager :: "'rm option"
  te_active_transfers :: "transfer_progress list"

definition engine_new :: "usize \<Rightarrow> 'rm transfer_engine" where
  "engine_new n = \<lparr>te_max_parallelism = n, te_resume_manager = None, te_active_transfers = []\<rparr>"

definition with_resume_manager :: "'rm transfer_engine \<Rightarrow> 'rm \<Rightarrow> 'rm transfer_engine" where
  "with_resume_manager e m = e\<lparr>te_resume_manager := Some m\<rparr>"

section \<open>Metadata, chunks, checksum\<close>

text \<open>\<open>uuid\<close> is the random session id.\<close>

definition create_metadata ::
  "'h hash_lib \<Rightarrow> io_env \<Rightarrow> filesystem \<Rightarrow> path \<Rightarrow> usize \<Rightarrow> bool \<Rightarrow> string
     \<Rightarrow> string + transfer_metadata" where
  "create_metadata L io fs p chunk_size0 force_restart uuid =
     (case fs p of
        None \<Rightarrow> Inl ''Failed to read file metadata''
      | Some f \<Rightarrow>
          let file_size = len64 f;
              name = opt_default ''unknown'' (file_name p);
              chunk_size = max chunk_size0 MIN_CHUNK_SIZE;
              c = chunker_new chunk_size file_size
          in if \<not> io_readable io p then Inl ''Failed to open file for streaming checksum''
             else res_bind (blake3_hash_reader L (file_reader 65536 f))
               (\<lambda>checksum. Inr
                  \<lparr>md_session_id = uuid, md_file_name = name, md_file_path = p,
                   md_file_size = file_size, md_chunk_size = chunk_size,
                   md_total_chunks = total_chunks c, md_checksum = checksum,
                   md_resume_offset = 0, md_is_resume = False,
                   md_nonce_prefix = replicate 4 0, md_force_restart = force_restart\<rparr>))"

definition prepare_chunk ::
  "io_env \<Rightarrow> filesystem \<Rightarrow> path \<Rightarrow> transfer_metadata \<Rightarrow> u64 \<Rightarrow> string + byte list" where
  "prepare_chunk io fs p md chunk_index =
     (let c = chunker_new (md_chunk_size md) (md_file_size md);
          offset = chunk_offset c chunk_index;
          length = chunk_length c chunk_index
      in if length = 0 then Inr []
         else case fs p of
           None \<Rightarrow> Inl ''Failed to open file for chunk read''
         | Some f \<Rightarrow>
             if \<not> io_readable io p then Inl ''Failed to open file for chunk read''
             else if List.length (drop (unat offset) f) < unat length
                  then Inl ''failed to fill whole buffer''
             else Inr (take (unat length) (drop (unat offset) f)))"

definition process_received_chunk ::
  "io_env \<Rightarrow> filesystem \<Rightarrow> path \<Rightarrow> u64 \<Rightarrow> usize \<Rightarrow> byte list
     \<Rightarrow> (string + bool) \<times> filesystem" where
  "process_received_chunk io fs p chunk_index chunk_size data =
     (let offset = chunk_index * chunk_size in
      if (case parent p of Some d \<Rightarrow> \<not> io_mkdir io d | None \<Rightarrow> False) then
        (Inl ''Failed to create output directory'', fs)
      else if \<not> io_writable io p then (Inl ''Failed to open file for chunk write'', fs)
      else let f = file_at p fs in
        if 2 ^ 63 \<le> unat offset then (Inl ''Invalid argument'', fs(p \<mapsto> f))
        else (Inr True, fs(p \<mapsto> write_at (unat offset) data f)))"

definition verify_checksum ::
  "'h hash_lib \<Rightarrow> io_env \<Rightarrow> filesystem \<Rightarrow> path \<Rightarrow> byte list \<Rightarrow> string + bool" where
  "verify_checksum L io fs p expected =
     (case fs p of
        None \<Rightarrow> Inl ''No such file or directory''
      | Some f \<Rightarrow>
          if \<not> io_readable io p then Inl ''Permission denied''
          else res_bind (hash_read_loop L (hl_new L) (file_reader 65536 f))
                 (\<lambda>h. Inr (hl_finalize L h = expected)))"

section \<open>Progress table\<close>

fun update_session :: "string \<Rightarrow> u64 \<Rightarrow> u64 \<Rightarrow> rat \<Rightarrow> transfer_progress list
    \<Rightarrow> transfer_progress list option" where
  "update_session s b ch sp [] = None"
| "update_session s b ch sp (p # ps) =
     (if tp_session_id p = s then
        Some (p\<lparr>tp_bytes_transferred := b, tp_chunks_completed := ch, tp_speed_bps := sp\<rparr> # ps)
      else map_option ((#) p) (update_session s b ch sp ps))"

definition track_progress ::
  "'rm transfer_engine \<Rightarrow> string \<Rightarrow> u64 \<Rightarrow> u64 \<Rightarrow> u64 \<Rightarrow> u64 \<Rightarrow> rat
     \<Rightarrow> 'rm transfer_engine" where
  "track_progress e session_id bytes_transferred total_bytes chunks_completed chunk_count speed_bps =
     (case update_session session_id bytes_transferred chunks_completed speed_bps
             (te_active_transfers e) of
        Some ps \<Rightarrow> e\<lparr>te_active_transfers := ps\<rparr>
      | None \<Rightarrow> e\<lparr>te_active_transfers := te_active_transfers e @
          [\<lparr>tp_session_id = session_id, tp_bytes_transferred = bytes_transferred,
            tp_total_bytes = total_bytes, tp_chunks_completed = chunks_completed,
            tp_total_chunks = chunk_count, tp_speed_bps = speed_bps,
            tp_state = StateTransferring\<rparr>]\<rparr>)"

definition get_progress :: "'rm transfer_engine \<Rightarrow> string \<Rightarrow> transfer_progress option" where
  "get_progress e session_id =
     List.find (\<lambda>p. tp_session_id p = session_id) (te_active_transfers e)"

definition list_active_transfers :: "'rm transfer_engine \<Rightarrow> transfer_progress list" where
  "list_active_transfers e = te_active_transfers e"

definition progress_wf :: "'rm transfer_engine \<Rightarrow> bool" where
  "progress_wf e \<longleftrightarrow> distinct (map tp_session_id (te_active_transfers e))"

lemma update_session_None:
  "update_session s b ch sp ps = None \<longleftrightarrow> s \<notin> tp_session_id ` set ps"
  by (induction ps) auto

lemma update_session_ids:
  "update_session s b ch sp ps = Some qs \<Longrightarrow> map tp_session_id qs = map tp_session_id ps"
  by (induction ps arbitrary: qs) (auto split: if_splits)

lemma update_session_find:
  "update_session s b ch sp ps = Some qs \<Longrightarrow>
   List.find (\<lambda>p. tp_session_id p = t) qs =
     (if t = s then map_option (\<lambda>p. p\<lparr>tp_bytes_transferred := b, tp_chunks_completed := ch,
        tp_speed_bps := sp\<rparr>) (List.find (\<lambda>p. tp_session_id p = s) ps)
      else List.find (\<lambda>p. tp_session_id p = t) ps)"
  by (induction ps arbitrary: qs) (auto split: if_splits)

lemma find_append:
  "List.find P (xs @ ys) = (case List.find P xs of Some x \<Rightarrow> Some x | None \<Rightarrow> List.find P ys)"
  by (induction xs) auto

lemma find_session_None:
  "s \<notin> tp_session_id ` set ps \<Longrightarrow> List.find (\<lambda>p. tp_session_id p = s) ps = None"
  by (induction ps) auto

lemma track_progress_wf: "progress_wf e \<Longrightarrow> progress_wf (track_progress e s b t ch n sp)"
  by (auto simp: progress_wf_def track_progress_def update_session_None
      dest: update_session_ids split: option.splits)

lemma get_track_other:
  "t \<noteq> s \<Longrightarrow> get_progress (track_progress e s b tot ch n sp) t = get_progress e t"
  by (auto simp: get_progress_def track_progress_def update_session_find find_append
      split: option.splits)

lemma get_track_same:
  "get_progress (track_progress e s b tot ch n sp) s =
     Some (case get_progress e s of
       None \<Rightarrow> \<lparr>tp_session_id = s, tp_bytes_transferred = b, tp_total_bytes = tot,
          tp_chunks_completed = ch, tp_total_chunks = n, tp_speed_bps = sp,
          tp_state = StateTransferring\<rparr>
     | Some p \<Rightarrow> p\<lparr>tp_bytes_transferred := b, tp_chunks_completed := ch, tp_speed_bps := sp\<rparr>)"
proof (cases "update_session s b ch sp (te_active_transfers e)")
  case None
  then have "s \<notin> tp_session_id ` set (te_active_transfers e)"
    by (simp add: update_session_None)
  with None show ?thesis
    by (simp add: get_progress_def track_progress_def find_append find_session_None)
next
  case (Some qs)
  then have "s \<in> tp_session_id ` set (te_active_transfers e)"
    using update_session_None [of s b ch sp "te_active_transfers e"] by simp
  then obtain p where "List.find (\<lambda>p. tp_session_id p = s) (te_active_transfers e) = Some p"
    by (cases "List.find (\<lambda>p. tp_session_id p = s) (te_active_transfers e)")
       (auto simp: find_None_iff)
  with Some show ?thesis
    by (simp add: get_progress_def track_progress_def update_session_find)
qed

section \<open>The contract of a chunk store\<close>

text \<open>
  A store that writes chunk \<open>i\<close> at \<open>i * stride\<close>, for \<open>i\<close> below \<open>limit\<close>. Writing all
  chunks of a file, in any order and any number of times, rebuilds the file.
\<close>

definition chunk_at :: "nat \<Rightarrow> fdata \<Rightarrow> nat \<Rightarrow> byte list" where
  "chunk_at k src i = take k (drop (i * k) src)"

definition filled :: "nat \<Rightarrow> nat set \<Rightarrow> fdata \<Rightarrow> fdata \<Rightarrow> bool" where
  "filled k D src f \<longleftrightarrow> length f \<le> length src \<and>
     (\<forall>j < length src. j div k \<in> D \<longrightarrow> j < length f \<and> f ! j = src ! j)"

lemma filled_write:
  assumes "0 < k" "filled k D src f"
  shows "filled k (insert i D) src (write_at (i * k) (chunk_at k src i) f)"
proof (cases "length src \<le> i * k")
  case True
  have "j div k \<noteq> i" if "j < length src" for j
  proof -
    from that True have "j < i * k" by simp
    then show ?thesis using assms(1) div_less_iff_less_mult [of k j i] by auto
  qed
  with True assms(2) show ?thesis by (auto simp: filled_def chunk_at_def write_at_def)
next
  case False
  let ?d = "chunk_at k src i" and ?f = "write_at (i * k) (chunk_at k src i) f"
  have d: "?d \<noteq> []" "length ?d = min k (length src - i * k)"
    using False assms(1) by (auto simp: chunk_at_def)
  have len: "length ?f = max (length f) (i * k + length ?d)"
    using d(1) by (simp add: length_write_at)
  have "length ?f \<le> length src"
    using len d(2) assms(2) False by (auto simp: filled_def)
  moreover have "j < length ?f \<and> ?f ! j = src ! j"
    if j: "j < length src" "j div k \<in> insert i D" for j
  proof (cases "i * k \<le> j \<and> j < i * k + length ?d")
    case True
    then have "j < length ?f" using len by linarith
    with True show ?thesis by (simp add: nth_write_at) (auto simp: chunk_at_def)
  next
    case out: False
    have "j div k \<noteq> i"
    proof
      assume "j div k = i"
      then have "i * k \<le> j" "j < i * k + k"
        using assms(1) div_mult_mod_eq [of j k] mod_less_divisor [of k j] by (auto, linarith)
      with out d(2) j(1) False show False by auto
    qed
    with j assms(2) have "j < length f" "f ! j = src ! j" by (auto simp: filled_def)
    moreover from this len have "j < length ?f" by linarith
    ultimately show ?thesis using out by (auto simp: nth_write_at)
  qed
  ultimately show ?thesis by (simp add: filled_def)
qed

lemma filled_all:
  assumes "0 < k" "length src \<le> n * k" "filled k {0..<n} src f"
  shows "f = src"
proof -
  have "j div k \<in> {0..<n}" if "j < length src" for j
    using that assms(1,2) by (simp add: div_less_iff_less_mult)
  with assms(3) have all: "j < length f \<and> f ! j = src ! j" if "j < length src" for j
    using that by (auto simp: filled_def)
  have "length f = length src"
    using all [of "length src - 1"] assms(3) by (cases "src = []") (auto simp: filled_def)
  with all show ?thesis by (auto intro: nth_equalityI)
qed

locale chunk_sink =
  fixes put_chunk :: "nat \<Rightarrow> byte list \<Rightarrow> 's \<Rightarrow> 's"
    and contents :: "'s \<Rightarrow> fdata"
    and stride :: nat
    and limit :: nat
  assumes contents_put:
    "i < limit \<Longrightarrow> contents (put_chunk i d s) = write_at (i * stride) d (contents s)"
begin

lemma filled_fold:
  "0 < stride \<Longrightarrow> \<forall>i \<in> set is. i < limit \<Longrightarrow> filled stride D src (contents s) \<Longrightarrow>
   filled stride (D \<union> set is) src
     (contents (fold (\<lambda>i. put_chunk i (chunk_at stride src i)) is s))"
proof (induction "is" arbitrary: s D)
  case Nil
  then show ?case by simp
next
  case (Cons i "is")
  then have "filled stride (insert i D) src (contents (put_chunk i (chunk_at stride src i) s))"
    by (simp add: contents_put filled_write)
  with Cons.IH [of "insert i D"] Cons.prems show ?case by simp
qed

lemma reassembles:
  assumes "0 < stride" "length src \<le> n * stride" "set is = {0..<n}" "n \<le> limit"
    and "length (contents s) \<le> length src"
  shows "contents (fold (\<lambda>i. put_chunk i (chunk_at stride src i)) is s) = src"
proof -
  have "filled stride {} src (contents s)" using assms(5) by (simp add: filled_def)
  then have "filled stride ({} \<union> set is) src
      (contents (fold (\<lambda>i. put_chunk i (chunk_at stride src i)) is s))"
    using assms(1,3,4) by (intro filled_fold) auto
  with assms(1-3) show ?thesis by (auto intro: filled_all)
qed

end

definition engine_put :: "path \<Rightarrow> usize \<Rightarrow> nat \<Rightarrow> byte list \<Rightarrow> filesystem \<Rightarrow> filesystem" where
  "engine_put p cs i d fs = snd (process_received_chunk io_all fs p (word_of_nat i) cs d)"

lemma engine_offset:
  assumes "i < 2 ^ 63 div Suc (unat (cs::u64))"
  shows "unat (word_of_nat i * cs) = i * unat cs \<and> i * unat cs < 2 ^ 63"
proof -
  have "i * Suc (unat cs) < 2 ^ 63"
  proof -
    from assms have "Suc i * Suc (unat cs) \<le> 2 ^ 63 div Suc (unat cs) * Suc (unat cs)"
      by (intro mult_le_mono1) simp
    also have "\<dots> \<le> 2 ^ 63" by (rule div_times_less_eq_dividend)
    finally show ?thesis by simp
  qed
  then have b: "i + i * unat cs < 2 ^ 63" by simp
  then have "i < 2 ^ 64" by simp
  then have "unat (word_of_nat i :: u64) = i" by (simp add: unat_of_nat)
  with b show ?thesis by (simp add: unat_mult_u64)
qed

interpretation eng: chunk_sink "engine_put p cs" "file_at p" "unat cs" "2 ^ 63 div Suc (unat cs)"
  for p cs
proof
  fix i d s
  assume "i < 2 ^ 63 div Suc (unat cs)"
  then have "unat (word_of_nat i * cs) = i * unat cs" "i * unat cs < 2 ^ 63"
    using engine_offset [of i cs] by auto
  then show "file_at p (engine_put p cs i d s) = write_at (i * unat cs) d (file_at p s)"
    by (simp add: engine_put_def process_received_chunk_def io_all_def file_at_def Let_def
        opt_default_def split: option.splits)
qed

section \<open>Copying a file chunk by chunk\<close>

text \<open>
  The loop every sender and receiver of the program performs with these operations: chunk
  \<open>i\<close> is read with \<open>prepare_chunk\<close> and stored with \<open>process_received_chunk\<close> under the
  chunk size of the metadata.
\<close>

fun copy_chunks :: "io_env \<Rightarrow> filesystem \<Rightarrow> path \<Rightarrow> transfer_metadata \<Rightarrow> io_env
    \<Rightarrow> filesystem \<Rightarrow> path \<Rightarrow> nat list \<Rightarrow> string + filesystem" where
  "copy_chunks sio sfs src md dio dfs dst [] = Inr dfs"
| "copy_chunks sio sfs src md dio dfs dst (i # is) =
     res_bind (prepare_chunk sio sfs src md (word_of_nat i)) (\<lambda>d.
       case process_received_chunk dio dfs dst (word_of_nat i) (md_chunk_size md) d of
         (Inl e, _) \<Rightarrow> Inl e
       | (Inr _, dfs') \<Rightarrow> copy_chunks sio sfs src md dio dfs' dst is)"

definition can_store :: "io_env \<Rightarrow> path \<Rightarrow> bool" where
  "can_store io p \<longleftrightarrow> io_writable io p \<and> (\<forall>d. parent p = Some d \<longrightarrow> io_mkdir io d)"

lemma clamp_below_max:
  assumes "cs \<le> MAX_CHUNK_SIZE"
  shows "clamp_u64 MIN_CHUNK_SIZE MAX_CHUNK_SIZE cs = max cs MIN_CHUNK_SIZE"
    and "clamp_u64 MIN_CHUNK_SIZE MAX_CHUNK_SIZE (max cs MIN_CHUNK_SIZE) = max cs MIN_CHUNK_SIZE"
proof -
  have "MIN_CHUNK_SIZE \<le> MAX_CHUNK_SIZE" by (simp add: word_le_nat_alt chunk_size_consts)
  with assms show "clamp_u64 MIN_CHUNK_SIZE MAX_CHUNK_SIZE cs = max cs MIN_CHUNK_SIZE"
    and "clamp_u64 MIN_CHUNK_SIZE MAX_CHUNK_SIZE (max cs MIN_CHUNK_SIZE) = max cs MIN_CHUNK_SIZE"
    by (auto simp: clamp_u64_def max_def)
qed

lemma create_metadata_ok:
  assumes "fs p = Some f" "io_readable io p"
  shows "\<exists>md. create_metadata L io fs p cs force uuid = Inr md
     \<and> md_file_size md = len64 f \<and> md_chunk_size md = max cs MIN_CHUNK_SIZE
     \<and> md_total_chunks md = total_chunks (chunker_new (max cs MIN_CHUNK_SIZE) (len64 f))
     \<and> verify_checksum L io fs p (md_checksum md) = Inr True"
  using assms read_blocks_bounds [of _ 65536 f]
    hash_read_loop_segs [of "read_blocks 65536 f" L "hl_new L" "[]"]
  by (auto simp: create_metadata_def verify_checksum_def blake3_hash_reader_def
      file_reader_def Let_def)

lemma prepare_chunk_ok:
  assumes "fs p = Some f" "io_readable io p" "length f < 2 ^ 64" "md_file_size md = len64 f"
    and c: "c = chunker_new (md_chunk_size md) (md_file_size md)" and i: "i < n_chunks c"
  shows "prepare_chunk io fs p md (word_of_nat i) = Inr (chunk_at (cs_nat c) f i)"
proof -
  have wf: "wf_chunker c" by (simp add: c wf_chunker_new)
  have fl: "fs_nat c = length f" using assms(3,4) by (simp add: c unat_len64)
  have sl: "chunk_slice c f i = chunk_at (cs_nat c) f i"
    using chunk_slice_nat [OF wf i] fl by (simp add: chunk_at_def)
  have off: "unat (chunk_offset c (word_of_nat i)) = i * cs_nat c"
    by (rule chunk_offset_nat [OF wf i])
  have len: "unat (chunk_length c (word_of_nat i)) = min (length f - i * cs_nat c) (cs_nat c)"
    using chunk_length_nat [OF wf i] fl by simp
  show ?thesis
  proof (cases "chunk_length c (word_of_nat i) = 0")
    case True
    then have "chunk_slice c f i = []" by (simp add: chunk_slice_def)
    with True sl show ?thesis by (simp add: prepare_chunk_def Let_def flip: c)
  next
    case False
    have "\<not> length (drop (i * cs_nat c) f) < min (length f - i * cs_nat c) (cs_nat c)"
      by simp
    with False assms(1,2) off len sl show ?thesis
      by (simp add: prepare_chunk_def Let_def chunk_slice_def flip: c)
  qed
qed

lemma process_chunk_ok:
  assumes "can_store io p" "unat (word_of_nat i * cs :: u64) < 2 ^ 63"
  shows "process_received_chunk io fs p (word_of_nat i) cs d = (Inr True, engine_put p cs i d fs)"
  using assms
  by (auto simp: process_received_chunk_def engine_put_def can_store_def io_all_def Let_def
      split: option.splits)

lemma engine_put_other: "q \<noteq> p \<Longrightarrow> engine_put p cs i d fs q = fs q"
  by (auto simp: engine_put_def process_received_chunk_def Let_def)

lemma fold_engine_put_other:
  "q \<noteq> p \<Longrightarrow> fold (\<lambda>i. engine_put p cs i (g i)) is fs q = fs q"
  by (induction "is" arbitrary: fs) (auto simp: engine_put_other)

lemma copy_chunks_fold:
  assumes "\<And>i. i \<in> set is \<Longrightarrow> prepare_chunk sio sfs src md (word_of_nat i) = Inr (g i)"
    and "\<And>i. i \<in> set is \<Longrightarrow> i < 2 ^ 63 div Suc (unat (md_chunk_size md))"
    and "can_store dio dst"
  shows "copy_chunks sio sfs src md dio dfs dst is
    = Inr (fold (\<lambda>i. engine_put dst (md_chunk_size md) i (g i)) is dfs)"
  using assms
proof (induction "is" arbitrary: dfs)
  case Nil
  then show ?case by simp
next
  case (Cons i "is")
  have "unat (word_of_nat i * md_chunk_size md) < 2 ^ 63"
    using engine_offset [of i "md_chunk_size md"] Cons.prems(2) by simp
  with Cons show ?case by (simp add: process_chunk_ok)
qed

lemma engine_put_Some: "\<exists>f. engine_put p cs i d fs p = Some f"
  by (auto simp: engine_put_def process_received_chunk_def io_all_def Let_def
      split: option.splits)

lemma fold_engine_put_Some:
  "is \<noteq> [] \<Longrightarrow> \<exists>f. fold (\<lambda>i. engine_put p cs i (g i)) is fs p = Some f"
proof (induction "is" rule: rev_induct)
  case (snoc i "is")
  then show ?case by (simp add: engine_put_Some)
qed simp

lemma engine_limit:
  assumes "wf_chunker c" "i < n_chunks c" "fs_nat c < 2 ^ 62"
  shows "i < 2 ^ 63 div Suc (cs_nat c)"
proof -
  have "i * cs_nat c \<le> fs_nat c"
    using assms chunk_in_file [of c i] n_chunks_nat [of c] by (cases "fs_nat c = 0") auto
  moreover have "524288 * i \<le> i * cs_nat c" using assms(1) by (simp add: wf_chunker_nat)
  moreover have "Suc i * Suc (cs_nat c) = 1 + cs_nat c + i + i * cs_nat c" by simp
  moreover have "cs_nat c \<le> 67108864" using assms(1) by (simp add: wf_chunker_nat)
  moreover have "fs_nat c < 4611686018427387904" using assms(3) by simp
  ultimately have "Suc i * Suc (cs_nat c) \<le> 9223372036854775808" by linarith
  then have "Suc i * Suc (cs_nat c) \<le> 2 ^ 63" by simp
  then have "Suc i \<le> 2 ^ 63 div Suc (cs_nat c)" by (simp add: less_eq_div_iff_mult_less_eq)
  then show ?thesis by simp
qed

text \<open>
  C4. Chunked copying is correct in any order: for a chunk size up to the maximum, after
  \<open>create_metadata\<close> the chunks of a file can be read and stored in any order and with any
  repetitions; the target then holds exactly the source file, every other file is as it
  was, and \<open>verify_checksum\<close> accepts the target.
\<close>

theorem engine_copy_any_order:
  assumes "sfs src = Some f" "io_readable sio src" "length f < 2 ^ 62"
    and "cs \<le> MAX_CHUNK_SIZE"
    and "set is = {0..<n_chunks (chunker_new cs (len64 f))}"
    and "can_store dio dst" "io_readable dio dst" "length (file_at dst dfs) \<le> length f"
  shows "\<exists>md dfs'. create_metadata L sio sfs src cs force uuid = Inr md
    \<and> copy_chunks sio sfs src md dio dfs dst is = Inr dfs'
    \<and> dfs' dst = Some f \<and> (\<forall>q. q \<noteq> dst \<longrightarrow> dfs' q = dfs q)
    \<and> verify_checksum L dio dfs' dst (md_checksum md) = Inr True"
proof -
  obtain md where md: "create_metadata L sio sfs src cs force uuid = Inr md"
    "md_file_size md = len64 f" "md_chunk_size md = max cs MIN_CHUNK_SIZE"
    "verify_checksum L sio sfs src (md_checksum md) = Inr True"
    using create_metadata_ok [of sfs src f sio L cs force uuid] assms(1,2) by blast
  define c where "c = chunker_new cs (len64 f)"
  have wf: "wf_chunker c" and fl: "fs_nat c = length f"
    using assms(3) by (simp_all add: c_def wf_chunker_new unat_len64)
  have mc: "chunker_new (md_chunk_size md) (md_file_size md) = c"
    and mcs: "md_chunk_size md = ck_chunk_size c"
    using clamp_below_max [OF assms(4)] by (simp_all add: md c_def chunker_new_def)
  have prep: "prepare_chunk sio sfs src md (word_of_nat i) = Inr (chunk_at (cs_nat c) f i)"
    if "i \<in> set is" for i
    using that assms(1-3,5) md(2) mc by (intro prepare_chunk_ok) (auto simp: c_def)
  have lim: "i < 2 ^ 63 div Suc (cs_nat c)" if "i \<in> set is" for i
    using that engine_limit [OF wf, of i] assms(3,5) fl by (auto simp: c_def)
  let ?fs = "fold (\<lambda>i. engine_put dst (ck_chunk_size c) i (chunk_at (cs_nat c) f i)) is dfs"
  have copy: "copy_chunks sio sfs src md dio dfs dst is = Inr ?fs"
    using copy_chunks_fold [of "is" sio sfs src md "chunk_at (cs_nat c) f" dio dst dfs]
      prep lim assms(6) by (simp add: mcs)
  have n: "n_chunks c \<le> 2 ^ 63 div Suc (cs_nat c)"
    using lim [of "n_chunks c - 1"] assms(5) n_chunks_pos [OF wf] by (simp flip: c_def)
  have "file_at dst ?fs = f"
    using wf chunks_reach_end [OF wf] fl assms(5,8) n
    by (intro eng.reassembles [where n = "n_chunks c"]) (auto simp: wf_chunker_nat c_def)
  moreover have "is \<noteq> []" using assms(5) n_chunks_pos [OF wf] by (auto simp: c_def)
  then obtain g where "?fs dst = Some g"
    using fold_engine_put_Some by blast
  ultimately have dst: "?fs dst = Some f" by (simp add: file_at_def opt_default_def)
  with md(4) assms(1,2,7) have "verify_checksum L dio ?fs dst (md_checksum md) = Inr True"
    by (simp add: verify_checksum_def)
  with md(1) copy dst show ?thesis by (auto simp: fold_engine_put_other)
qed

lemma engine_copy_any_order_witness:
  "\<exists>md dfs'. create_metadata demo_hash io_all [path_of ''a'' \<mapsto> [1, 2, 3]] (path_of ''a'') 0 False ''id''
      = Inr md
    \<and> copy_chunks io_all [path_of ''a'' \<mapsto> [1, 2, 3]] (path_of ''a'') md io_all
        Map.empty (path_of ''b'') [0, 0] = Inr dfs'
    \<and> dfs' (path_of ''b'') = Some [1, 2, 3]
    \<and> (\<forall>q. q \<noteq> path_of ''b'' \<longrightarrow> dfs' q = Map.empty q)
    \<and> verify_checksum demo_hash io_all dfs' (path_of ''b'') (md_checksum md) = Inr True"
  by (rule engine_copy_any_order)
     (auto simp: io_all_def can_store_def file_at_def opt_default_def chunker_new_def
       clamp_u64_def total_chunks_def div_ceil_def len64_def MIN_CHUNK_SIZE_def
       MAX_CHUNK_SIZE_def word_less_nat_alt)

section \<open>Chunk sizes above the maximum\<close>

text \<open>
  \<open>create_metadata\<close> bounds the chunk size it records only from below, while the chunker
  that reads the file bounds it from both sides.
\<close>

lemma engine_put_length_mono:
  "i < 2 ^ 63 div Suc (unat cs) \<Longrightarrow>
   length (file_at p fs) \<le> length (file_at p (engine_put p cs i d fs))"
  by (simp add: eng.contents_put length_write_at)

lemma fold_engine_put_length:
  assumes "\<forall>i \<in> set is. i < 2 ^ 63 div Suc (unat cs)" "j \<in> set is" "g j \<noteq> []"
  shows "j * unat cs + length (g j)
    \<le> length (file_at p (fold (\<lambda>i. engine_put p cs i (g i)) is fs))"
  using assms
proof (induction "is" rule: rev_induct)
  case Nil
  then show ?case by simp
next
  case (snoc i "is")
  show ?case
  proof (cases "j = i")
    case True
    with snoc.prems show ?thesis by (simp add: eng.contents_put length_write_at)
  next
    case False
    with snoc have "j * unat cs + length (g j)
      \<le> length (file_at p (fold (\<lambda>i. engine_put p cs i (g i)) is fs))" by auto
    with snoc.prems engine_put_length_mono [of i cs p] show ?thesis
      by (auto intro: order_trans)
  qed
qed

lemma small_index_limit:
  assumes "n * unat (cs::u64) < 2 ^ 62" "n < 2 ^ 62" "unat cs < 2 ^ 62" "i < n"
  shows "i < 2 ^ 63 div Suc (unat cs)"
proof -
  have "Suc i * Suc (unat cs) \<le> n * Suc (unat cs)" using assms(4) by (intro mult_le_mono1) simp
  also have "\<dots> = n + n * unat cs" by simp
  also have "\<dots> \<le> 2 ^ 63"
    using assms(1,2) by simp
  finally have "Suc i \<le> 2 ^ 63 div Suc (unat cs)" by (simp add: less_eq_div_iff_mult_less_eq)
  then show ?thesis by simp
qed

text \<open>
  A chunk size above 64 MB corrupts every file of more than one chunk: the source is
  read in 64 MB chunks but chunk \<open>i\<close> is stored at \<open>i\<close> times the unclamped size, so the
  target never equals the source, although every operation reports success.
\<close>

theorem engine_oversize_chunk_corrupts:
  assumes "sfs src = Some f" "io_readable sio src" "67108864 < length f" "length f < 2 ^ 62"
    and "MAX_CHUNK_SIZE < cs"
    and n: "n = n_chunks (chunker_new cs (len64 f))"
    and "n * unat cs < 2 ^ 62"
    and "set is = {0..<n}" "can_store dio dst"
  shows "\<exists>md dfs'. create_metadata L sio sfs src cs force uuid = Inr md
    \<and> copy_chunks sio sfs src md dio dfs dst is = Inr dfs'
    \<and> dfs' dst \<noteq> Some f"
proof -
  obtain md where md: "create_metadata L sio sfs src cs force uuid = Inr md"
    "md_file_size md = len64 f" "md_chunk_size md = max cs MIN_CHUNK_SIZE"
    using create_metadata_ok [of sfs src f sio L cs force uuid] assms(1,2) by blast
  define c where "c = chunker_new cs (len64 f)"
  have mcs: "md_chunk_size md = cs"
    using assms(5) by (simp add: md max_def word_le_nat_alt word_less_nat_alt chunk_size_consts)
  have csn: "67108864 < unat cs" using assms(5) by (simp add: word_less_nat_alt chunk_size_consts)
  have "wf_chunker c" by (simp add: c_def wf_chunker_new)
  moreover have "cs_nat c = 67108864" "fs_nat c = length f"
    using assms(4) csn
    by (simp_all add: c_def unat_len64 chunker_new_def clamp_u64_def
        word_less_nat_alt chunk_size_consts)
  ultimately have c: "cs_nat c = 67108864" "fs_nat c = length f" "wf_chunker c" by auto
  have nc: "n = n_chunks c" by (simp add: n c_def)
  have lo: "length f \<le> n * 67108864" using chunks_reach_end [of c] c by (simp add: nc)
  then have n2: "2 \<le> n" using assms(3) by (cases n; cases "n - 1") auto
  have last: "(n - 1) * 67108864 < length f"
    using chunk_in_file [of c "n - 1"] c n2 assms(3) by (cases "f = []") (auto simp: nc)
  have prep: "prepare_chunk sio sfs src md (word_of_nat i) = Inr (chunk_at (cs_nat c) f i)"
    if "i \<in> set is" for i
    using that assms(1,2,4,8) md(2)
    by (intro prepare_chunk_ok) (auto simp: c_def mcs n)
  have "n < 2 ^ 62" "unat cs < 2 ^ 62"
  proof -
    have "n * 1 \<le> n * unat cs" using csn by (intro mult_le_mono2) simp
    with assms(7) show "n < 2 ^ 62" by linarith
    have "1 * unat cs \<le> n * unat cs" using n2 by (intro mult_le_mono1) simp
    with assms(7) show "unat cs < 2 ^ 62" by linarith
  qed
  then have lim: "i < 2 ^ 63 div Suc (unat cs)" if "i \<in> set is" for i
    using that assms(7,8) small_index_limit [of n cs i] by simp
  let ?fs = "fold (\<lambda>i. engine_put dst cs i (chunk_at (cs_nat c) f i)) is dfs"
  have copy: "copy_chunks sio sfs src md dio dfs dst is = Inr ?fs"
    using copy_chunks_fold [of "is" sio sfs src md "chunk_at (cs_nat c) f" dio dst dfs]
      prep lim assms(9) by (simp add: mcs)
  have l: "length (chunk_at (cs_nat c) f (n - 1)) = length f - (n - 1) * 67108864"
    using lo c n2 last by (cases n) (auto simp: chunk_at_def)
  with last have "chunk_at (cs_nat c) f (n - 1) \<noteq> []" by fastforce
  then have "(n - 1) * unat cs + length (chunk_at (cs_nat c) f (n - 1)) \<le> length (file_at dst ?fs)"
    using lim assms(8) n2 by (intro fold_engine_put_length) auto
  moreover have "(n - 1) * 67108864 < (n - 1) * unat cs"
    using csn n2 by (intro mult_less_mono2) auto
  ultimately have "length f < length (file_at dst ?fs)" using l last by linarith
  then have "?fs dst \<noteq> Some f" by (auto simp: file_at_def opt_default_def)
  with md(1) copy show ?thesis by blast
qed

lemma engine_oversize_chunk_corrupts_witness:
  "\<exists>md dfs'. create_metadata demo_hash io_all [path_of ''a'' \<mapsto> replicate 67108865 0] (path_of ''a'')
      134217728 False ''id'' = Inr md
    \<and> copy_chunks io_all [path_of ''a'' \<mapsto> replicate 67108865 0] (path_of ''a'') md io_all
        Map.empty (path_of ''b'') [0, 1] = Inr dfs'
    \<and> dfs' (path_of ''b'') \<noteq> Some (replicate 67108865 0)"
proof (rule engine_oversize_chunk_corrupts)
  have n: "n_chunks (chunker_new 134217728 (len64 (replicate 67108865 (0::byte)))) = 2"
    by (simp add: chunker_new_def clamp_u64_def total_chunks_def div_ceil_def len64_def
        MIN_CHUNK_SIZE_def MAX_CHUNK_SIZE_def word_less_nat_alt unat_div_word unat_mod_word)
  show "2 = n_chunks (chunker_new 134217728 (len64 (replicate 67108865 (0::byte))))"
    by (simp only: n)
  show "set [0, 1] = {0..<2::nat}" by auto
qed (auto simp: io_all_def can_store_def MAX_CHUNK_SIZE_def word_less_nat_alt)

end
