(* ===== verification/Pause_Flag.thy ===== *)
theory Pause_Flag
  imports Prelude
begin

text \<open>
  The pause/cancel flag of \<open>p2ptransfer-core/src/network/alpn.rs\<close>, at the level of the two
  watch channels it is made of. A watch channel holds its latest value and a version that
  every send increases; a receiver remembers the version it has seen and \<open>changed\<close>
  completes when the two differ. \<open>wait_if_paused\<close> and \<open>wait_for_cancel\<close> are step machines
  that run interleaved with the calls of \<open>pause\<close>, \<open>resume\<close> and \<open>cancel\<close>.
\<close>

section \<open>Watch channels and the flag\<close>

record watch =
  wt_value :: bool
  wt_version :: nat

definition watch_channel :: "bool \<Rightarrow> watch" where
  "watch_channel v = \<lparr>wt_value = v, wt_version = 0\<rparr>"

definition watch_send :: "bool \<Rightarrow> watch \<Rightarrow> watch" where
  "watch_send v c = \<lparr>wt_value = v, wt_version = Suc (wt_version c)\<rparr>"

record pause_flag =
  pf_pause :: watch
  pf_cancel :: watch

definition flag_new :: pause_flag where
  "flag_new = \<lparr>pf_pause = watch_channel False, pf_cancel = watch_channel False\<rparr>"

definition flag_pause :: "pause_flag \<Rightarrow> pause_flag" where
  "flag_pause f = f\<lparr>pf_pause := watch_send True (pf_pause f)\<rparr>"

definition flag_resume :: "pause_flag \<Rightarrow> pause_flag" where
  "flag_resume f = f\<lparr>pf_pause := watch_send False (pf_pause f)\<rparr>"

definition flag_cancel :: "pause_flag \<Rightarrow> pause_flag" where
  "flag_cancel f = f\<lparr>pf_cancel := watch_send True (pf_cancel f)\<rparr>"

abbreviation is_paused :: "pause_flag \<Rightarrow> bool" where
  "is_paused f \<equiv> wt_value (pf_pause f)"

abbreviation is_cancelled :: "pause_flag \<Rightarrow> bool" where
  "is_cancelled f \<equiv> wt_value (pf_cancel f)"

lemma flag_op_values [simp]:
  "is_paused flag_new = False" "is_cancelled flag_new = False"
  "is_paused (flag_pause f) = True" "is_cancelled (flag_pause f) = is_cancelled f"
  "is_paused (flag_resume f) = False" "is_cancelled (flag_resume f) = is_cancelled f"
  "is_paused (flag_cancel f) = is_paused f" "is_cancelled (flag_cancel f) = True"
  by (simp_all add: flag_new_def watch_channel_def flag_pause_def flag_resume_def
      flag_cancel_def watch_send_def)

section \<open>The two waiting loops\<close>

datatype wait_pc =
  SubscribePause | SubscribeCancel | CheckCancel | CheckPause | SelectChange | Returned bool

record waiter =
  wp_pc :: wait_pc
  wp_pause_seen :: nat
  wp_cancel_seen :: nat

definition wait_start :: waiter where
  "wait_start = \<lparr>wp_pc = SubscribePause, wp_pause_seen = 0, wp_cancel_seen = 0\<rparr>"

text \<open>
  One step of \<open>wait_if_paused\<close>; \<open>None\<close> when it has returned, or when neither branch of the
  \<open>select!\<close> is ready. The select is biased: the cancel branch is polled first.
\<close>

definition wait_step :: "pause_flag \<Rightarrow> waiter \<Rightarrow> waiter option" where
  "wait_step f w =
     (case wp_pc w of
        SubscribePause \<Rightarrow>
          Some (w\<lparr>wp_pause_seen := wt_version (pf_pause f), wp_pc := SubscribeCancel\<rparr>)
      | SubscribeCancel \<Rightarrow>
          Some (w\<lparr>wp_cancel_seen := wt_version (pf_cancel f), wp_pc := CheckCancel\<rparr>)
      | CheckCancel \<Rightarrow>
          Some (w\<lparr>wp_pc := (if wt_value (pf_cancel f) then Returned True else CheckPause)\<rparr>)
      | CheckPause \<Rightarrow>
          Some (w\<lparr>wp_pc := (if \<not> wt_value (pf_pause f) then Returned False else SelectChange)\<rparr>)
      | SelectChange \<Rightarrow>
          if wt_version (pf_cancel f) \<noteq> wp_cancel_seen w then
            Some (w\<lparr>wp_cancel_seen := wt_version (pf_cancel f),
                    wp_pc := (if wt_value (pf_cancel f) then Returned True else CheckCancel)\<rparr>)
          else if wt_version (pf_pause f) \<noteq> wp_pause_seen w then
            Some (w\<lparr>wp_pause_seen := wt_version (pf_pause f), wp_pc := CheckCancel\<rparr>)
          else None
      | Returned b \<Rightarrow> None)"

datatype cancel_pc = CSubscribe | CCheck | CWait | CReturned

record cancel_waiter =
  cw_pc :: cancel_pc
  cw_seen :: nat

definition cancel_start :: cancel_waiter where
  "cancel_start = \<lparr>cw_pc = CSubscribe, cw_seen = 0\<rparr>"

definition cancel_step :: "pause_flag \<Rightarrow> cancel_waiter \<Rightarrow> cancel_waiter option" where
  "cancel_step f w =
     (case cw_pc w of
        CSubscribe \<Rightarrow> Some (w\<lparr>cw_seen := wt_version (pf_cancel f), cw_pc := CCheck\<rparr>)
      | CCheck \<Rightarrow> Some (w\<lparr>cw_pc := (if wt_value (pf_cancel f) then CReturned else CWait)\<rparr>)
      | CWait \<Rightarrow>
          if wt_version (pf_cancel f) \<noteq> cw_seen w then
            Some (w\<lparr>cw_seen := wt_version (pf_cancel f),
                    cw_pc := (if wt_value (pf_cancel f) then CReturned else CWait)\<rparr>)
          else None
      | CReturned \<Rightarrow> None)"

section \<open>The interleaved system\<close>

datatype flag_op = OpPauseFlag | OpResumeFlag | OpCancelFlag

fun apply_flag_op :: "flag_op \<Rightarrow> pause_flag \<Rightarrow> pause_flag" where
  "apply_flag_op OpPauseFlag f = flag_pause f"
| "apply_flag_op OpResumeFlag f = flag_resume f"
| "apply_flag_op OpCancelFlag f = flag_cancel f"

inductive flag_system :: "pause_flag \<times> waiter \<times> cancel_waiter
    \<Rightarrow> pause_flag \<times> waiter \<times> cancel_waiter \<Rightarrow> bool" where
  flag_user: "flag_system (f, w, c) (apply_flag_op x f, w, c)"
| flag_wait: "wait_step f w = Some w' \<Longrightarrow> flag_system (f, w, c) (f, w', c)"
| flag_cancel_wait: "cancel_step f c = Some c' \<Longrightarrow> flag_system (f, w, c) (f, w, c')"

inductive_cases flag_systemE: "flag_system (f, w, c) s"

inductive flag_reachable :: "pause_flag \<Rightarrow> pause_flag \<times> waiter \<times> cancel_waiter \<Rightarrow> bool"
  for f0 where
  flag_reach_start: "flag_reachable f0 (f0, wait_start, cancel_start)"
| flag_reach_step: "flag_reachable f0 s \<Longrightarrow> flag_system s s' \<Longrightarrow> flag_reachable f0 s'"

text \<open>
  A version that has been seen carries the value seen: at the \<open>select!\<close>, an unchanged
  pause channel still says paused and an unchanged cancel channel still says running.
\<close>

definition wait_inv :: "pause_flag \<Rightarrow> waiter \<Rightarrow> bool" where
  "wait_inv f w \<longleftrightarrow>
     (wp_pc w \<noteq> SubscribePause \<longrightarrow> wp_pause_seen w \<le> wt_version (pf_pause f))
   \<and> (wp_pc w \<notin> {SubscribePause, SubscribeCancel} \<longrightarrow> wp_cancel_seen w \<le> wt_version (pf_cancel f))
   \<and> (wp_pc w \<in> {CheckPause, SelectChange} \<longrightarrow>
        wp_cancel_seen w = wt_version (pf_cancel f) \<longrightarrow> \<not> is_cancelled f)
   \<and> (wp_pc w = SelectChange \<longrightarrow>
        wp_pause_seen w = wt_version (pf_pause f) \<longrightarrow> is_paused f)"

definition cancel_inv :: "pause_flag \<Rightarrow> cancel_waiter \<Rightarrow> bool" where
  "cancel_inv f c \<longleftrightarrow>
     (cw_pc c \<noteq> CSubscribe \<longrightarrow> cw_seen c \<le> wt_version (pf_cancel f))
   \<and> (cw_pc c = CWait \<longrightarrow> cw_seen c = wt_version (pf_cancel f) \<longrightarrow> \<not> is_cancelled f)
   \<and> (cw_pc c = CReturned \<longrightarrow> is_cancelled f)"

lemma wait_inv_user: "wait_inv f w \<Longrightarrow> wait_inv (apply_flag_op x f) w"
  by (cases x)
     (auto simp: wait_inv_def flag_pause_def flag_resume_def flag_cancel_def watch_send_def)

lemma wait_inv_step: "wait_inv f w \<Longrightarrow> wait_step f w = Some w' \<Longrightarrow> wait_inv f w'"
  by (auto simp: wait_inv_def wait_step_def split: wait_pc.splits if_splits)

lemma cancel_inv_user: "cancel_inv f c \<Longrightarrow> cancel_inv (apply_flag_op x f) c"
  by (cases x)
     (auto simp: cancel_inv_def flag_pause_def flag_resume_def flag_cancel_def watch_send_def)

lemma cancel_inv_step: "cancel_inv f c \<Longrightarrow> cancel_step f c = Some c' \<Longrightarrow> cancel_inv f c'"
  by (auto simp: cancel_inv_def cancel_step_def split: cancel_pc.splits if_splits)

lemma flag_system_step_inv:
  "flag_system (f, w, c) (f', w', c') \<Longrightarrow> wait_inv f w \<and> cancel_inv f c \<Longrightarrow>
   wait_inv f' w' \<and> cancel_inv f' c'"
  by (erule flag_systemE)
     (auto simp: wait_inv_user cancel_inv_user dest: wait_inv_step cancel_inv_step)

lemma flag_system_inv:
  "flag_reachable f0 s \<Longrightarrow> case s of (f, w, c) \<Rightarrow> wait_inv f w \<and> cancel_inv f c"
proof (induction rule: flag_reachable.induct)
  case flag_reach_start
  then show ?case by (simp add: wait_inv_def cancel_inv_def wait_start_def cancel_start_def)
next
  case (flag_reach_step s s')
  obtain f w c f' w' c' where "s = (f, w, c)" "s' = (f', w', c')" by (metis prod_cases3)
  with flag_reach_step flag_system_step_inv show ?case by simp
qed

lemma wait_blocked:
  "wait_inv f w \<Longrightarrow> wait_step f w = None \<Longrightarrow>
   (\<exists>b. wp_pc w = Returned b) \<or> (is_paused f \<and> \<not> is_cancelled f)"
  by (cases "wp_pc w") (simp_all add: wait_step_def wait_inv_def split: if_splits)

lemma cancel_blocked:
  "cancel_inv f c \<Longrightarrow> cancel_step f c = None \<Longrightarrow> cw_pc c = CReturned \<or> \<not> is_cancelled f"
  by (cases "cw_pc c") (simp_all add: cancel_step_def cancel_inv_def split: if_splits)

text \<open>
  C8. No wake-up is lost: whatever calls of \<open>pause\<close>, \<open>resume\<close> and \<open>cancel\<close> run between its
  steps, \<open>wait_if_paused\<close> can be blocked only while the flag is paused and not cancelled,
  \<open>wait_for_cancel\<close> only while it is not cancelled, and the latter returns only once the
  flag is cancelled.
\<close>

theorem no_lost_wakeup:
  assumes "flag_reachable f0 (f, w, c)"
  shows "(wait_step f w = None \<longrightarrow> (\<exists>b. wp_pc w = Returned b) \<or> (is_paused f \<and> \<not> is_cancelled f))
    \<and> (cancel_step f c = None \<longrightarrow> cw_pc c = CReturned \<or> \<not> is_cancelled f)
    \<and> (cw_pc c = CReturned \<longrightarrow> is_cancelled f)"
proof -
  have "wait_inv f w" "cancel_inv f c" using flag_system_inv [OF assms] by simp_all
  moreover from this have "cw_pc c = CReturned \<longrightarrow> is_cancelled f"
    by (simp add: cancel_inv_def)
  ultimately show ?thesis using wait_blocked cancel_blocked by blast
qed

section \<open>Waiting alone\<close>

text \<open>With no user action in between, the steps run to the end or to the \<open>select!\<close>.\<close>

fun run_wait :: "nat \<Rightarrow> pause_flag \<Rightarrow> waiter \<Rightarrow> waiter" where
  "run_wait 0 f w = w"
| "run_wait (Suc n) f w = (case wait_step f w of None \<Rightarrow> w | Some w' \<Rightarrow> run_wait n f w')"

text \<open>
  What a call of \<open>wait_if_paused\<close> comes to when the flag no longer changes: the value it
  returns, or \<open>None\<close> while it waits.
\<close>

definition wait_result :: "pause_flag \<Rightarrow> bool option" where
  "wait_result f = (if is_cancelled f then Some True else if is_paused f then None else Some False)"

text \<open>
  \<open>wait_if_paused\<close> implements \<open>wait_result\<close>: started on a flag that does not change, it
  returns within four steps true when the flag is cancelled and false when it is neither
  cancelled nor paused; otherwise it waits at the \<open>select!\<close>, and from there a resume makes
  it return false and a cancel makes it return true.
\<close>

theorem wait_if_paused_result:
  "(case wait_result f of
      Some b \<Rightarrow> wp_pc (run_wait 4 f wait_start) = Returned b
    | None \<Rightarrow> wp_pc (run_wait 4 f wait_start) = SelectChange
        \<and> wait_step f (run_wait 4 f wait_start) = None
        \<and> wp_pc (run_wait 3 (flag_resume f) (run_wait 4 f wait_start)) = Returned False
        \<and> wp_pc (run_wait 1 (flag_cancel f) (run_wait 4 f wait_start)) = Returned True)"
  by (simp add: wait_result_def eval_nat_numeral wait_start_def wait_step_def flag_resume_def
      flag_cancel_def watch_send_def)

text \<open>A reachable state in which the waiter sleeps: the flag is paused before it starts.\<close>

lemma flag_reachable_run:
  "flag_reachable f0 (f, w, c) \<Longrightarrow> flag_reachable f0 (f, run_wait n f w, c)"
proof (induction n arbitrary: w)
  case 0
  then show ?case by simp
next
  case (Suc n)
  then show ?case
    by (cases "wait_step f w") (auto intro: flag_reach_step flag_wait)
qed

lemma no_lost_wakeup_witness:
  "flag_reachable flag_new (flag_pause flag_new, run_wait 4 (flag_pause flag_new) wait_start, cancel_start)
    \<and> wait_step (flag_pause flag_new) (run_wait 4 (flag_pause flag_new) wait_start) = None
    \<and> is_paused (flag_pause flag_new) \<and> \<not> is_cancelled (flag_pause flag_new)"
proof -
  let ?f = "flag_pause flag_new"
  have "flag_reachable flag_new (apply_flag_op OpPauseFlag flag_new, wait_start, cancel_start)"
    by (rule flag_reach_step [OF flag_reach_start flag_user])
  then have r: "flag_reachable flag_new (?f, run_wait 4 ?f wait_start, cancel_start)"
    using flag_reachable_run by simp
  have "wait_step ?f (run_wait 4 ?f wait_start) = None"
      "wp_pc (run_wait 4 ?f wait_start) = SelectChange"
    by (simp_all add: eval_nat_numeral wait_start_def wait_step_def flag_pause_def flag_new_def
        watch_channel_def watch_send_def)
  with r no_lost_wakeup [OF r] show ?thesis by simp
qed

end
