(* ===== verification/Registry.thy ===== *)
theory Registry
  imports Pause_Flag Paths
begin

text \<open>
  The process-wide registries of \<open>p2ptransfer-core/src/network/alpn.rs\<close>: the table of
  active transfers, the table of pause flags, the pending requests waiting for the user,
  and the events sent to the user interface. Flags and one-shot channels are shared
  (\<open>Arc<PauseFlag>\<close>, sender and receiver of a channel), so they live in stores and the
  tables hold references: a transfer that keeps its flag sees a cancel after the table
  entry is gone, one that looks the flag up again does not.
\<close>

section \<open>Data\<close>

record active_transfer =
  at_request_id :: string
  at_role :: string
  at_status :: string
  at_file_name :: string
  at_total_bytes :: u64
  at_bytes_transferred :: u64

datatype transfer_event =
  SendStatus string string
| Rejected string
| TransferError string string
| Incoming string string string string u64
| Progress string u64 u64 rat
| Complete string string string rat
| Cancelled string

datatype oneshot = OneshotOpen | OneshotSent bool | OneshotClosed

text \<open>
  \<open>w_events\<close> is the list of events offered to the event channel, oldest first; the
  speeds and elapsed times in them come from the clock.
\<close>

record world =
  w_active :: "string \<rightharpoonup> active_transfer"
  w_flag_store :: "pause_flag list"
  w_flags :: "string \<rightharpoonup> nat"
  w_oneshots :: "oneshot list"
  w_pending :: "string \<rightharpoonup> nat"
  w_events :: "transfer_event list"

definition world_new :: world where
  "world_new = \<lparr>w_active = Map.empty, w_flag_store = [], w_flags = Map.empty, w_oneshots = [],
     w_pending = Map.empty, w_events = []\<rparr>"

section \<open>Active transfers and events\<close>

definition emit :: "transfer_event \<Rightarrow> world \<Rightarrow> world" where
  "emit e w = w\<lparr>w_events := w_events w @ [e]\<rparr>"

definition insert_active :: "active_transfer \<Rightarrow> world \<Rightarrow> world" where
  "insert_active a w = w\<lparr>w_active := (w_active w)(at_request_id a \<mapsto> a)\<rparr>"

definition remove_active :: "string \<Rightarrow> world \<Rightarrow> world" where
  "remove_active i w = w\<lparr>w_active := (w_active w)(i := None)\<rparr>"

definition update_active :: "string \<Rightarrow> (active_transfer \<Rightarrow> active_transfer) \<Rightarrow> world \<Rightarrow> world" where
  "update_active i g w =
     (case w_active w i of None \<Rightarrow> w
      | Some a \<Rightarrow> w\<lparr>w_active := (w_active w)(i \<mapsto> g a)\<rparr>)"

definition set_status :: "string \<Rightarrow> string \<Rightarrow> world \<Rightarrow> world" where
  "set_status i s = update_active i (\<lambda>a. a\<lparr>at_status := s\<rparr>)"

definition set_bytes :: "string \<Rightarrow> u64 \<Rightarrow> world \<Rightarrow> world" where
  "set_bytes i n = update_active i (\<lambda>a. a\<lparr>at_bytes_transferred := n\<rparr>)"

definition emit_send_status :: "string \<Rightarrow> string \<Rightarrow> world \<Rightarrow> world" where
  "emit_send_status request_id status w =
     emit (SendStatus request_id status) (set_status request_id status w)"

definition emit_transfer_error :: "string \<Rightarrow> string \<Rightarrow> world \<Rightarrow> world" where
  "emit_transfer_error request_id msg w =
     emit (TransferError request_id msg) (set_status request_id ''error'' w)"

section \<open>Pause flags\<close>

text \<open>\<open>PauseFlag::new\<close> and its insertion into the table; the result is the reference.\<close>

definition insert_flag :: "string \<Rightarrow> world \<Rightarrow> nat \<times> world" where
  "insert_flag i w =
     (let r = length (w_flag_store w)
      in (r, w\<lparr>w_flag_store := w_flag_store w @ [flag_new], w_flags := (w_flags w)(i \<mapsto> r)\<rparr>))"

definition remove_flag :: "string \<Rightarrow> world \<Rightarrow> world" where
  "remove_flag i w = w\<lparr>w_flags := (w_flags w)(i := None)\<rparr>"

definition flag_at :: "nat \<Rightarrow> world \<Rightarrow> pause_flag" where
  "flag_at r w = (if r < length (w_flag_store w) then w_flag_store w ! r else flag_new)"

definition signal_flag :: "string \<Rightarrow> (pause_flag \<Rightarrow> pause_flag) \<Rightarrow> world \<Rightarrow> world" where
  "signal_flag i g w =
     (case w_flags w i of None \<Rightarrow> w
      | Some r \<Rightarrow> w\<lparr>w_flag_store := (w_flag_store w)[r := g (flag_at r w)]\<rparr>)"

section \<open>Pending requests\<close>

text \<open>
  \<open>PendingRequests::register\<close> replaces an entry of the same id, and dropping the old
  sender closes its channel.
\<close>

definition pending_register :: "string \<Rightarrow> world \<Rightarrow> nat \<times> world" where
  "pending_register i w =
     (let r = length (w_oneshots w);
          shots = (case w_pending w i of None \<Rightarrow> w_oneshots w
                   | Some q \<Rightarrow> (w_oneshots w)[q := OneshotClosed])
      in (r, w\<lparr>w_oneshots := shots @ [OneshotOpen], w_pending := (w_pending w)(i \<mapsto> r)\<rparr>))"

definition pending_respond :: "string \<Rightarrow> bool \<Rightarrow> world \<Rightarrow> bool \<times> world" where
  "pending_respond i accepted w =
     (case w_pending w i of
        None \<Rightarrow> (False, w)
      | Some r \<Rightarrow> (True, w\<lparr>w_pending := (w_pending w)(i := None),
                          w_oneshots := (w_oneshots w)[r := OneshotSent accepted]\<rparr>))"

definition pending_ids :: "world \<Rightarrow> string set" where
  "pending_ids w = dom (w_pending w)"

text \<open>
  \<open>timeout(60 s, rx)\<close> with both fallbacks to false: an open channel means that the
  sixty seconds have passed.
\<close>

definition pending_answer :: "nat \<Rightarrow> world \<Rightarrow> bool" where
  "pending_answer r w = (r < length (w_oneshots w) \<and> w_oneshots w ! r = OneshotSent True)"

section \<open>User commands\<close>

text \<open>
  What other tasks do to the registries while a transfer runs: the commands of the mobile
  application (\<open>api.rs\<close>), which only signal the flag, and those of the desktop application
  (\<open>main.rs\<close> of the GUI), which also update the tables.
\<close>

datatype user_cmd =
  PauseCmd string | ResumeCmd string | CancelCmd string | RespondCmd string bool
| GuiPauseCmd string | GuiResumeCmd string | GuiCancelCmd string | GuiDeleteCmd string

fun apply_cmd :: "user_cmd \<Rightarrow> world \<Rightarrow> world" where
  "apply_cmd (PauseCmd i) w = signal_flag i flag_pause w"
| "apply_cmd (ResumeCmd i) w = signal_flag i flag_resume w"
| "apply_cmd (CancelCmd i) w = signal_flag i flag_cancel w"
| "apply_cmd (RespondCmd i b) w = snd (pending_respond i b w)"
| "apply_cmd (GuiPauseCmd i) w = set_status i ''paused'' (signal_flag i flag_pause w)"
| "apply_cmd (GuiResumeCmd i) w = set_status i ''transferring'' (signal_flag i flag_resume w)"
| "apply_cmd (GuiCancelCmd i) w = remove_flag i (remove_active i (signal_flag i flag_cancel w))"
| "apply_cmd (GuiDeleteCmd i) w = remove_flag i (remove_active i w)"

definition apply_cmds :: "user_cmd list \<Rightarrow> world \<Rightarrow> world" where
  "apply_cmds cs w = fold apply_cmd cs w"

fun cmd_id :: "user_cmd \<Rightarrow> string" where
  "cmd_id (PauseCmd i) = i" | "cmd_id (ResumeCmd i) = i" | "cmd_id (CancelCmd i) = i"
| "cmd_id (RespondCmd i b) = i" | "cmd_id (GuiPauseCmd i) = i" | "cmd_id (GuiResumeCmd i) = i"
| "cmd_id (GuiCancelCmd i) = i" | "cmd_id (GuiDeleteCmd i) = i"

section \<open>Well-formed registries\<close>

text \<open>The references of a table point into a store of \<open>n\<close> cells, no two at the same one.\<close>

definition refs_ok :: "(string \<rightharpoonup> nat) \<Rightarrow> nat \<Rightarrow> bool" where
  "refs_ok m n \<longleftrightarrow> (\<forall>i r. m i = Some r \<longrightarrow> r < n)
     \<and> (\<forall>i j r. m i = Some r \<longrightarrow> m j = Some r \<longrightarrow> i = j)"

definition world_wf :: "world \<Rightarrow> bool" where
  "world_wf w \<longleftrightarrow>
     (\<forall>i a. w_active w i = Some a \<longrightarrow> at_request_id a = i)
   \<and> refs_ok (w_flags w) (length (w_flag_store w))
   \<and> refs_ok (w_pending w) (length (w_oneshots w))
   \<and> (\<forall>i r. w_pending w i = Some r \<longrightarrow> w_oneshots w ! r = OneshotOpen)"

lemma refs_ok_empty [simp]: "refs_ok Map.empty n"
  by (simp add: refs_ok_def)

lemma refs_ok_remove: "refs_ok m n \<Longrightarrow> refs_ok (m(i := None)) n"
  unfolding refs_ok_def by (metis fun_upd_apply option.distinct(1))

lemma refs_ok_insert: "refs_ok m n \<Longrightarrow> refs_ok (m(i \<mapsto> n)) (Suc n)"
  unfolding refs_ok_def by (auto, fastforce+)

lemma world_wf_new: "world_wf world_new"
  by (simp add: world_wf_def world_new_def)

lemma update_active_fields [simp]:
  "w_flag_store (update_active i g w) = w_flag_store w"
  "w_flags (update_active i g w) = w_flags w"
  "w_oneshots (update_active i g w) = w_oneshots w"
  "w_pending (update_active i g w) = w_pending w"
  "w_events (update_active i g w) = w_events w"
  by (simp_all add: update_active_def split: option.splits)

lemma update_active_lookup:
  "w_active (update_active i g w) j = (if j = i then map_option g (w_active w i) else w_active w j)"
  by (simp add: update_active_def split: option.splits)

lemma signal_flag_fields [simp]:
  "w_active (signal_flag i g w) = w_active w"
  "w_flags (signal_flag i g w) = w_flags w"
  "w_oneshots (signal_flag i g w) = w_oneshots w"
  "w_pending (signal_flag i g w) = w_pending w"
  "w_events (signal_flag i g w) = w_events w"
  "length (w_flag_store (signal_flag i g w)) = length (w_flag_store w)"
  by (simp_all add: signal_flag_def split: option.splits)

lemma emit_fields [simp]:
  "w_active (emit e w) = w_active w" "w_flags (emit e w) = w_flags w"
  "w_flag_store (emit e w) = w_flag_store w" "w_oneshots (emit e w) = w_oneshots w"
  "w_pending (emit e w) = w_pending w" "w_events (emit e w) = w_events w @ [e]"
  by (simp_all add: emit_def)

lemma remove_active_fields [simp]:
  "w_flags (remove_active i w) = w_flags w" "w_flag_store (remove_active i w) = w_flag_store w"
  "w_oneshots (remove_active i w) = w_oneshots w" "w_pending (remove_active i w) = w_pending w"
  "w_events (remove_active i w) = w_events w"
  "w_active (remove_active i w) = (w_active w)(i := None)"
  by (simp_all add: remove_active_def)

lemma remove_flag_fields [simp]:
  "w_flags (remove_flag i w) = (w_flags w)(i := None)"
  "w_flag_store (remove_flag i w) = w_flag_store w"
  "w_oneshots (remove_flag i w) = w_oneshots w" "w_pending (remove_flag i w) = w_pending w"
  "w_events (remove_flag i w) = w_events w" "w_active (remove_flag i w) = w_active w"
  by (simp_all add: remove_flag_def)

lemma insert_active_fields [simp]:
  "w_flags (insert_active a w) = w_flags w" "w_flag_store (insert_active a w) = w_flag_store w"
  "w_oneshots (insert_active a w) = w_oneshots w" "w_pending (insert_active a w) = w_pending w"
  "w_events (insert_active a w) = w_events w"
  "w_active (insert_active a w) = (w_active w)(at_request_id a \<mapsto> a)"
  by (simp_all add: insert_active_def)

lemma set_fields [simp]:
  "w_flags (set_status i s w) = w_flags w" "w_flag_store (set_status i s w) = w_flag_store w"
  "w_oneshots (set_status i s w) = w_oneshots w" "w_pending (set_status i s w) = w_pending w"
  "w_events (set_status i s w) = w_events w"
  "w_flags (set_bytes i n w) = w_flags w" "w_flag_store (set_bytes i n w) = w_flag_store w"
  "w_oneshots (set_bytes i n w) = w_oneshots w" "w_pending (set_bytes i n w) = w_pending w"
  "w_events (set_bytes i n w) = w_events w"
  by (simp_all add: set_status_def set_bytes_def)

lemma world_wf_emit [simp]: "world_wf (emit e w) = world_wf w"
  by (simp add: world_wf_def emit_def)

lemma world_wf_insert_active: "world_wf w \<Longrightarrow> world_wf (insert_active a w)"
  by (simp add: world_wf_def)

lemma world_wf_remove_active: "world_wf w \<Longrightarrow> world_wf (remove_active i w)"
  by (auto simp: world_wf_def)

lemma world_wf_update_active:
  "world_wf w \<Longrightarrow> (\<And>a. at_request_id (g a) = at_request_id a) \<Longrightarrow> world_wf (update_active i g w)"
  by (auto simp: world_wf_def update_active_lookup)

lemma world_wf_set [simp]: "world_wf w \<Longrightarrow> world_wf (set_status i s w)"
    "world_wf w \<Longrightarrow> world_wf (set_bytes i n w)"
  by (simp_all add: set_status_def set_bytes_def world_wf_update_active)

lemma world_wf_remove_flag: "world_wf w \<Longrightarrow> world_wf (remove_flag i w)"
  by (simp add: world_wf_def refs_ok_remove)

lemma world_wf_insert_flag: "world_wf w \<Longrightarrow> world_wf (snd (insert_flag i w))"
  by (simp add: world_wf_def insert_flag_def Let_def refs_ok_insert)

lemma world_wf_signal: "world_wf w \<Longrightarrow> world_wf (signal_flag i g w)"
  by (simp add: world_wf_def)

lemma pending_register_wf: "world_wf w \<Longrightarrow> world_wf (snd (pending_register i w))"
proof -
  assume wf: "world_wf w"
  let ?w = "snd (pending_register i w)"
  have "refs_ok (w_pending ?w) (length (w_oneshots ?w))"
    using wf by (simp add: world_wf_def pending_register_def Let_def refs_ok_insert
        split: option.splits)
  moreover have "w_oneshots ?w ! r = OneshotOpen" if "w_pending ?w j = Some r" for j r
  proof (cases "j = i")
    case True
    with that show ?thesis
      by (auto simp: pending_register_def Let_def nth_append split: option.splits)
  next
    case False
    with that have j: "w_pending w j = Some r" by (simp add: pending_register_def Let_def)
    with wf False have "r < length (w_oneshots w)" "w_pending w i \<noteq> Some r"
      "w_oneshots w ! r = OneshotOpen"
      unfolding world_wf_def refs_ok_def by blast+
    then show ?thesis
      by (auto simp: pending_register_def Let_def nth_append nth_list_update
          split: option.splits)
  qed
  ultimately show ?thesis using wf
    by (simp add: world_wf_def pending_register_def Let_def)
qed

lemma pending_respond_wf: "world_wf w \<Longrightarrow> world_wf (snd (pending_respond i b w))"
proof (cases "w_pending w i")
  case (Some q)
  assume wf: "world_wf w"
  have "(w_oneshots w)[q := OneshotSent b] ! r = OneshotOpen"
    if "w_pending w j = Some r" "j \<noteq> i" for j r
  proof -
    have "r \<noteq> q" using wf Some that unfolding world_wf_def refs_ok_def by blast
    with wf that show ?thesis by (simp add: world_wf_def)
  qed
  with Some wf show ?thesis
    by (simp add: world_wf_def pending_respond_def refs_ok_remove)
qed (simp add: pending_respond_def)

lemma apply_cmd_wf: "world_wf w \<Longrightarrow> world_wf (apply_cmd c w)"
  by (cases c)
     (simp_all add: world_wf_signal pending_respond_wf world_wf_remove_flag world_wf_remove_active)

lemma world_wf_status [simp]:
  "world_wf w \<Longrightarrow> world_wf (emit_send_status i s w)" "world_wf w \<Longrightarrow> world_wf (emit_transfer_error i m w)"
  by (simp_all add: emit_send_status_def emit_transfer_error_def)

text \<open>No command creates an entry in the tables of transfers and flags.\<close>

lemma pending_respond_fields [simp]:
  "w_active (snd (pending_respond i b w)) = w_active w"
  "w_flags (snd (pending_respond i b w)) = w_flags w"
  "w_flag_store (snd (pending_respond i b w)) = w_flag_store w"
  by (simp_all add: pending_respond_def split: option.splits)

lemma set_no_entry:
  "w_active w i = None \<Longrightarrow> w_active (set_status j s w) i = None"
  "w_active w i = None \<Longrightarrow> w_active (set_bytes j n w) i = None"
  by (auto simp: set_status_def set_bytes_def update_active_lookup)

lemma apply_cmd_no_entry:
  "w_active w i = None \<Longrightarrow> w_active (apply_cmd c w) i = None"
  "w_flags w i = None \<Longrightarrow> w_flags (apply_cmd c w) i = None"
  by (cases c, simp_all add: set_no_entry) (cases c, simp_all)

lemma apply_cmds_no_entry:
  "w_active w i = None \<Longrightarrow> w_active (apply_cmds cs w) i = None"
  "w_flags w i = None \<Longrightarrow> w_flags (apply_cmds cs w) i = None"
  unfolding apply_cmds_def
  by (induction cs arbitrary: w) (simp_all add: apply_cmd_no_entry)

lemma apply_cmds_simps [simp]:
  "apply_cmds [] w = w" "apply_cmds (c # cs) w = apply_cmds cs (apply_cmd c w)"
  by (simp_all add: apply_cmds_def)

lemma pending_register_fields [simp]:
  "w_active (snd (pending_register i w)) = w_active w"
  "w_flags (snd (pending_register i w)) = w_flags w"
  "w_flag_store (snd (pending_register i w)) = w_flag_store w"
  by (simp_all add: pending_register_def Let_def)

lemma insert_flag_fields [simp]:
  "w_active (snd (insert_flag i w)) = w_active w"
  "w_flags (snd (insert_flag i w)) = (w_flags w)(i \<mapsto> length (w_flag_store w))"
  "w_flag_store (snd (insert_flag i w)) = w_flag_store w @ [flag_new]"
  "fst (insert_flag i w) = length (w_flag_store w)"
  by (simp_all add: insert_flag_def Let_def)

lemma flag_at_insert [simp]: "flag_at (length (w_flag_store w)) (snd (insert_flag i w)) = flag_new"
  by (simp add: flag_at_def)

text \<open>Commands that do not pause leave a running flag running.\<close>

fun cmd_pauses :: "user_cmd \<Rightarrow> bool" where
  "cmd_pauses (PauseCmd i) = True"
| "cmd_pauses (GuiPauseCmd i) = True"
| "cmd_pauses _ = False"

lemma flag_at_store: "w_flag_store w = w_flag_store v \<Longrightarrow> flag_at r w = flag_at r v"
  by (simp add: flag_at_def)

lemma flag_at_same [simp]:
  "flag_at r (emit e w) = flag_at r w" "flag_at r (remove_active i w) = flag_at r w"
  "flag_at r (remove_flag i w) = flag_at r w" "flag_at r (set_status i s w) = flag_at r w"
  "flag_at r (set_bytes i n w) = flag_at r w" "flag_at r (insert_active a w) = flag_at r w"
  "flag_at r (snd (pending_respond i b w)) = flag_at r w"
  by (simp_all add: flag_at_def)

lemma flag_at_signal:
  "flag_at r (signal_flag i g w) =
     (if w_flags w i = Some r \<and> r < length (w_flag_store w) then g (flag_at r w) else flag_at r w)"
  by (auto simp: signal_flag_def flag_at_def nth_list_update split: option.splits)

lemma apply_cmds_running:
  "\<forall>c \<in> set cs. \<not> cmd_pauses c \<Longrightarrow> \<not> is_paused (flag_at r w) \<Longrightarrow>
   \<not> is_paused (flag_at r (apply_cmds cs w))"
proof (induction cs arbitrary: w)
  case (Cons c cs)
  have "\<not> is_paused (flag_at r (apply_cmd c w))"
    using Cons.prems by (cases c) (simp_all add: flag_at_signal)
  with Cons show ?case by simp
qed simp

section \<open>What the registries are for\<close>

text \<open>Every operation on the registries that some part of the program performs.\<close>

datatype reg_op =
  RegInsertActive active_transfer | RegRemoveActive string | RegSetStatus string string
| RegSetBytes string u64 | RegEmit transfer_event | RegSendStatus string string
| RegTransferError string string | RegInsertFlag string | RegRemoveFlag string
| RegRegister string | RegCmd user_cmd

fun reg_perform :: "reg_op \<Rightarrow> world \<Rightarrow> world" where
  "reg_perform (RegInsertActive a) w = insert_active a w"
| "reg_perform (RegRemoveActive i) w = remove_active i w"
| "reg_perform (RegSetStatus i st) w = set_status i st w"
| "reg_perform (RegSetBytes i n) w = set_bytes i n w"
| "reg_perform (RegEmit e) w = emit e w"
| "reg_perform (RegSendStatus i st) w = emit_send_status i st w"
| "reg_perform (RegTransferError i m) w = emit_transfer_error i m w"
| "reg_perform (RegInsertFlag i) w = snd (insert_flag i w)"
| "reg_perform (RegRemoveFlag i) w = remove_flag i w"
| "reg_perform (RegRegister i) w = snd (pending_register i w)"
| "reg_perform (RegCmd c) w = apply_cmd c w"

definition reg_run :: "reg_op list \<Rightarrow> world \<Rightarrow> world" where
  "reg_run ops w = fold reg_perform ops w"

text \<open>
  What the holder of a flag sees: whether it is paused and whether it is cancelled. What the
  waiter for an answer sees: nothing yet, the answer, or that its request has been replaced.
\<close>

type_synonym signals = "bool \<times> bool"

definition signals_at :: "nat \<Rightarrow> world \<Rightarrow> signals" where
  "signals_at r w = (is_paused (flag_at r w), is_cancelled (flag_at r w))"

text \<open>The abstract registries have no references: each table is a map of values.\<close>

record registry_view =
  rv_active :: "string \<rightharpoonup> active_transfer"
  rv_flags :: "string \<rightharpoonup> signals"
  rv_pending :: "string set"
  rv_events :: "transfer_event list"

definition registry_view :: "world \<Rightarrow> registry_view" where
  "registry_view w = \<lparr>rv_active = w_active w,
     rv_flags = (\<lambda>i. map_option (\<lambda>r. signals_at r w) (w_flags w i)),
     rv_pending = pending_ids w, rv_events = w_events w\<rparr>"

definition change_active :: "string \<Rightarrow> (active_transfer \<Rightarrow> active_transfer) \<Rightarrow> registry_view \<Rightarrow> registry_view" where
  "change_active i g v = v\<lparr>rv_active := (rv_active v)(i := map_option g (rv_active v i))\<rparr>"

definition change_flag :: "string \<Rightarrow> (signals \<Rightarrow> signals) \<Rightarrow> registry_view \<Rightarrow> registry_view" where
  "change_flag i g v = v\<lparr>rv_flags := (rv_flags v)(i := map_option g (rv_flags v i))\<rparr>"

definition forget_transfer :: "string \<Rightarrow> registry_view \<Rightarrow> registry_view" where
  "forget_transfer i v = v\<lparr>rv_active := (rv_active v)(i := None), rv_flags := (rv_flags v)(i := None)\<rparr>"

fun spec_cmd :: "user_cmd \<Rightarrow> registry_view \<Rightarrow> registry_view" where
  "spec_cmd (PauseCmd i) v = change_flag i (\<lambda>(p, c). (True, c)) v"
| "spec_cmd (ResumeCmd i) v = change_flag i (\<lambda>(p, c). (False, c)) v"
| "spec_cmd (CancelCmd i) v = change_flag i (\<lambda>(p, c). (p, True)) v"
| "spec_cmd (RespondCmd i b) v = v\<lparr>rv_pending := rv_pending v - {i}\<rparr>"
| "spec_cmd (GuiPauseCmd i) v = change_active i (at_status_update (\<lambda>_. ''paused'')) (change_flag i (\<lambda>(p, c). (True, c)) v)"
| "spec_cmd (GuiResumeCmd i) v = change_active i (at_status_update (\<lambda>_. ''transferring'')) (change_flag i (\<lambda>(p, c). (False, c)) v)"
| "spec_cmd (GuiCancelCmd i) v = forget_transfer i v"
| "spec_cmd (GuiDeleteCmd i) v = forget_transfer i v"

fun spec_op :: "reg_op \<Rightarrow> registry_view \<Rightarrow> registry_view" where
  "spec_op (RegInsertActive a) v = v\<lparr>rv_active := (rv_active v)(at_request_id a \<mapsto> a)\<rparr>"
| "spec_op (RegRemoveActive i) v = v\<lparr>rv_active := (rv_active v)(i := None)\<rparr>"
| "spec_op (RegSetStatus i st) v = change_active i (at_status_update (\<lambda>_. st)) v"
| "spec_op (RegSetBytes i n) v = change_active i (at_bytes_transferred_update (\<lambda>_. n)) v"
| "spec_op (RegEmit e) v = v\<lparr>rv_events := rv_events v @ [e]\<rparr>"
| "spec_op (RegSendStatus i st) v =
     change_active i (at_status_update (\<lambda>_. st)) (v\<lparr>rv_events := rv_events v @ [SendStatus i st]\<rparr>)"
| "spec_op (RegTransferError i m) v =
     change_active i (at_status_update (\<lambda>_. ''error'')) (v\<lparr>rv_events := rv_events v @ [TransferError i m]\<rparr>)"
| "spec_op (RegInsertFlag i) v = v\<lparr>rv_flags := (rv_flags v)(i \<mapsto> (False, False))\<rparr>"
| "spec_op (RegRemoveFlag i) v = v\<lparr>rv_flags := (rv_flags v)(i := None)\<rparr>"
| "spec_op (RegRegister i) v = v\<lparr>rv_pending := insert i (rv_pending v)\<rparr>"
| "spec_op (RegCmd c) v = spec_cmd c v"

text \<open>
  What a task that keeps the flag of \<open>i\<close> sees after operations: pauses, resumes and cancels
  of \<open>i\<close>, up to the one that takes the flag out of the table. Of a cancel that removes the
  entry it still sees the cancel; later commands, and commands for others, do not reach it.
\<close>

fun held_signals :: "string \<Rightarrow> reg_op list \<Rightarrow> signals \<Rightarrow> signals" where
  "held_signals i [] s = s"
| "held_signals i (x # ops) (p, c) =
     (if x \<in> {RegCmd (PauseCmd i), RegCmd (GuiPauseCmd i)} then held_signals i ops (True, c)
      else if x \<in> {RegCmd (ResumeCmd i), RegCmd (GuiResumeCmd i)} then held_signals i ops (False, c)
      else if x = RegCmd (CancelCmd i) then held_signals i ops (p, True)
      else if x = RegCmd (GuiCancelCmd i) then (p, True)
      else if x \<in> {RegInsertFlag i, RegRemoveFlag i, RegCmd (GuiDeleteCmd i)} then (p, c)
      else held_signals i ops (p, c))"

text \<open>What the waiter for \<open>i\<close> is told: the first answer to \<open>i\<close>, unless \<open>i\<close> is registered again before.\<close>

fun first_answer :: "string \<Rightarrow> reg_op list \<Rightarrow> oneshot" where
  "first_answer i [] = OneshotOpen"
| "first_answer i (x # ops) =
     (case x of
        RegCmd (RespondCmd j b) \<Rightarrow> if j = i then OneshotSent b else first_answer i ops
      | RegRegister j \<Rightarrow> if j = i then OneshotClosed else first_answer i ops
      | _ \<Rightarrow> first_answer i ops)"

lemma reg_perform_wf: "world_wf w \<Longrightarrow> world_wf (reg_perform x w)"
  by (cases x)
     (simp_all add: apply_cmd_wf pending_register_wf world_wf_insert_flag world_wf_remove_flag
        world_wf_remove_active world_wf_insert_active)

lemma reg_run_simps [simp]: "reg_run [] w = w" "reg_run (x # ops) w = reg_run ops (reg_perform x w)"
  by (simp_all add: reg_run_def)

lemma world_wf_flagD:
  assumes "world_wf w" "w_flags w i = Some r"
  shows "r < length (w_flag_store w)" "w_flags w j = Some r \<Longrightarrow> j = i"
  using assms unfolding world_wf_def refs_ok_def by blast+

lemma world_wf_pendingD:
  assumes "world_wf w" "w_pending w i = Some q"
  shows "q < length (w_oneshots w)" "w_oneshots w ! q = OneshotOpen" "w_pending w j = Some q \<Longrightarrow> j = i"
  using assms unfolding world_wf_def refs_ok_def by blast+

text \<open>A reference in the table of flags sees its own signals only.\<close>

lemma signals_at_same [simp]:
  "signals_at r (emit e w) = signals_at r w" "signals_at r (remove_active i w) = signals_at r w"
  "signals_at r (remove_flag i w) = signals_at r w" "signals_at r (set_status i s w) = signals_at r w"
  "signals_at r (set_bytes i n w) = signals_at r w" "signals_at r (insert_active a w) = signals_at r w"
  "signals_at r (update_active i g w) = signals_at r w"
  "signals_at r (snd (pending_respond i b w)) = signals_at r w"
  "signals_at r (snd (pending_register i w)) = signals_at r w"
  by (simp_all add: signals_at_def flag_at_def)

lemma signals_at_signal:
  assumes "world_wf w" "w_flags w j = Some r"
  shows "flag_at r (signal_flag i g w) = (if i = j then g (flag_at r w) else flag_at r w)"
proof (cases "i = j")
  case True
  with assms(2) world_wf_flagD(1) [OF assms] show ?thesis by (simp add: flag_at_signal)
next
  case False
  then have "w_flags w i \<noteq> Some r" using world_wf_flagD(2) [OF assms] by blast
  with False show ?thesis by (simp add: flag_at_signal)
qed

lemma signals_at_insert:
  assumes "world_wf w" "w_flags w j = Some r"
  shows "signals_at r (snd (insert_flag i w)) = signals_at r w"
  using world_wf_flagD(1) [OF assms] by (simp add: signals_at_def flag_at_def nth_append)

lemma view_signal:
  assumes "world_wf w" "\<And>f. (is_paused (g f), is_cancelled (g f)) = h (is_paused f, is_cancelled f)"
  shows "registry_view (signal_flag i g w) = change_flag i h (registry_view w)"
proof -
  have sig: "signals_at r (signal_flag i g w) = (if j = i then h (signals_at r w) else signals_at r w)"
    if "w_flags w j = Some r" for j r
    using signals_at_signal [OF assms(1) that, of i g] assms(2) by (simp add: signals_at_def)
  have "(\<lambda>j. map_option (\<lambda>r. signals_at r (signal_flag i g w)) (w_flags w j))
      = (\<lambda>j. map_option (\<lambda>r. signals_at r w) (w_flags w j))
          (i := map_option h (map_option (\<lambda>r. signals_at r w) (w_flags w i)))" (is "?f = ?g")
  proof
    fix j
    show "?f j = ?g j" using sig [of j] by (cases "w_flags w j") auto
  qed
  then show ?thesis by (simp add: registry_view_def change_flag_def pending_ids_def)
qed

lemma view_active:
  "registry_view (update_active i g w) = change_active i g (registry_view w)"
  by (auto simp: registry_view_def change_active_def pending_ids_def fun_eq_iff update_active_lookup)

lemma view_respond: "registry_view (snd (pending_respond i b w)) = (registry_view w)\<lparr>rv_pending := rv_pending (registry_view w) - {i}\<rparr>"
proof -
  have "dom (w_pending (snd (pending_respond i b w))) = dom (w_pending w) - {i}"
    "w_events (snd (pending_respond i b w)) = w_events w"
    by (auto simp: pending_respond_def split: option.splits)
  then show ?thesis by (simp add: registry_view_def pending_ids_def)
qed

lemma view_cmd:
  assumes "world_wf w"
  shows "registry_view (apply_cmd c w) = spec_cmd c (registry_view w)"
proof -
  have p: "registry_view (signal_flag i flag_pause w) = change_flag i (\<lambda>(p, c). (True, c)) (registry_view w)"
    and r: "registry_view (signal_flag i flag_resume w) = change_flag i (\<lambda>(p, c). (False, c)) (registry_view w)"
    and c: "registry_view (signal_flag i flag_cancel w) = change_flag i (\<lambda>(p, c). (p, True)) (registry_view w)" for i
    by (rule view_signal [OF assms]; simp)+
  have forget: "registry_view (remove_flag i (remove_active i (signal_flag i g w))) = forget_transfer i (registry_view w)" for i g
  proof -
    have "signals_at r (signal_flag i g w) = signals_at r w" if "w_flags w j = Some r" "j \<noteq> i" for j r
      using signals_at_signal [OF assms that(1), of i g] that(2) by (simp add: signals_at_def)
    then show ?thesis
      by (auto simp: registry_view_def forget_transfer_def pending_ids_def fun_eq_iff map_option_case split: option.splits)
  qed
  have "registry_view (remove_flag i (remove_active i w)) = forget_transfer i (registry_view w)" for i
    by (auto simp: registry_view_def forget_transfer_def pending_ids_def)
  with forget show ?thesis
    by (cases c) (simp_all add: p r c view_respond view_active set_status_def)
qed

lemma view_op:
  assumes "world_wf w"
  shows "registry_view (reg_perform x w) = spec_op x (registry_view w)"
proof (cases x)
  case (RegInsertFlag i)
  have "signals_at (length (w_flag_store w)) (snd (insert_flag i w)) = (False, False)"
    by (simp add: signals_at_def)
  with signals_at_insert [OF assms] RegInsertFlag show ?thesis
    by (auto simp: registry_view_def pending_ids_def insert_flag_def Let_def fun_eq_iff map_option_case split: option.splits)
next
  case (RegRegister i)
  have "dom (w_pending (snd (pending_register i w))) = insert i (dom (w_pending w))"
    "w_events (snd (pending_register i w)) = w_events w"
    by (auto simp: pending_register_def Let_def)
  with RegRegister show ?thesis by (simp add: registry_view_def pending_ids_def)
next
  case (RegCmd c)
  then show ?thesis using view_cmd [OF assms] by simp
next
  case (RegSendStatus i st)
  then show ?thesis
    by (simp add: emit_send_status_def set_status_def registry_view_def change_active_def pending_ids_def
        fun_eq_iff update_active_lookup)
next
  case (RegTransferError i m)
  then show ?thesis
    by (simp add: emit_transfer_error_def set_status_def registry_view_def change_active_def pending_ids_def
        fun_eq_iff update_active_lookup)
qed (simp_all add: set_status_def set_bytes_def view_active,
     auto simp: registry_view_def pending_ids_def)

text \<open>A detached flag is out of reach of every operation.\<close>

lemma flag_detached:
  assumes "r < length (w_flag_store w)" "\<forall>j. w_flags w j \<noteq> Some r"
  shows "flag_at r (reg_run ops w) = flag_at r w"
  using assms
proof (induction ops arbitrary: w)
  case (Cons x ops)
  have signal: "flag_at r (signal_flag i g w) = flag_at r w" for i g
    using Cons.prems(2) by (simp add: flag_at_signal)
  have same: "flag_at r (reg_perform x w) = flag_at r w"
  proof (cases x)
    case (RegInsertFlag i)
    then show ?thesis using Cons.prems(1) by (simp add: flag_at_def nth_append)
  next
    case (RegCmd c)
    then show ?thesis using signal by (cases c) simp_all
  next
    case (RegRegister i)
    then show ?thesis by (simp add: flag_at_def)
  qed (simp_all add: emit_send_status_def emit_transfer_error_def)
  have "r < length (w_flag_store (reg_perform x w)) \<and> (\<forall>j. w_flags (reg_perform x w) j \<noteq> Some r)"
  proof (cases x)
    case (RegCmd c)
    then show ?thesis using Cons.prems by (cases c) auto
  next
    case (RegInsertFlag i)
    then show ?thesis using Cons.prems by auto
  qed (use Cons.prems in \<open>auto simp: emit_send_status_def emit_transfer_error_def\<close>)
  with Cons.IH [of "reg_perform x w"] same show ?case by simp
qed simp

lemma held_step_other:
  assumes "world_wf w" "w_flags w i = Some r"
    and "x \<notin> {RegCmd (PauseCmd i), RegCmd (GuiPauseCmd i), RegCmd (ResumeCmd i), RegCmd (GuiResumeCmd i),
      RegCmd (CancelCmd i), RegCmd (GuiCancelCmd i), RegInsertFlag i, RegRemoveFlag i, RegCmd (GuiDeleteCmd i)}"
  shows "w_flags (reg_perform x w) i = Some r \<and> signals_at r (reg_perform x w) = signals_at r w"
proof (cases x)
  case (RegCmd c)
  have "signals_at r (signal_flag j g w) = signals_at r w" if "j \<noteq> i" for j g
    using signals_at_signal [OF assms(1,2), of j g] that by (simp add: signals_at_def)
  with RegCmd assms(2,3) show ?thesis by (cases c) auto
next
  case (RegInsertFlag j)
  then show ?thesis using assms signals_at_insert [OF assms(1,2)] by simp
qed (use assms in \<open>auto simp: emit_send_status_def emit_transfer_error_def\<close>)

lemma held_run:
  assumes "world_wf w" "w_flags w i = Some r"
  shows "signals_at r (reg_run ops w) = held_signals i ops (signals_at r w)"
  using assms
proof (induction ops arbitrary: w)
  case (Cons x ops)
  have wf: "world_wf (reg_perform x w)" using Cons.prems(1) by (rule reg_perform_wf)
  obtain p c where pc: "signals_at r w = (p, c)" by fastforce
  note D = world_wf_flagD [OF Cons.prems]
  have signal: "flag_at r (signal_flag i g w) = g (flag_at r w)" for g
    using signals_at_signal [OF Cons.prems, of i g] by simp
  have keep: ?case if "w_flags (reg_perform x w) i = Some r" "signals_at r (reg_perform x w) = s"
    "held_signals i (x # ops) (p, c) = held_signals i ops s" for s
    using Cons.IH [OF wf that(1)] that pc by simp
  have leave: ?case if "r < length (w_flag_store (reg_perform x w))" "\<forall>j. w_flags (reg_perform x w) j \<noteq> Some r"
    "signals_at r (reg_perform x w) = s" "held_signals i (x # ops) (p, c) = s" for s
    using flag_detached [OF that(1,2), of ops] that(3,4) pc by (simp add: signals_at_def)
  have gone: "\<forall>j. ((w_flags w)(i := y)) j \<noteq> Some r" if "y \<noteq> Some r" for y using D(2) that by auto
  consider "x \<in> {RegCmd (PauseCmd i), RegCmd (GuiPauseCmd i)}" | "x \<in> {RegCmd (ResumeCmd i), RegCmd (GuiResumeCmd i)}"
    | "x = RegCmd (CancelCmd i)" | "x = RegCmd (GuiCancelCmd i)" | "x = RegInsertFlag i" | "x = RegRemoveFlag i"
    | "x = RegCmd (GuiDeleteCmd i)" | "x \<notin> {RegCmd (PauseCmd i), RegCmd (GuiPauseCmd i), RegCmd (ResumeCmd i),
        RegCmd (GuiResumeCmd i), RegCmd (CancelCmd i), RegCmd (GuiCancelCmd i), RegInsertFlag i, RegRemoveFlag i, RegCmd (GuiDeleteCmd i)}"
    by blast
  then show ?case
  proof cases
    case 1
    then show ?thesis using Cons.prems(2) pc
      by (intro keep [of "(True, c)"]) (auto simp: signals_at_def signal)
  next
    case 2
    then show ?thesis using Cons.prems(2) pc
      by (intro keep [of "(False, c)"]) (auto simp: signals_at_def signal)
  next
    case 3
    then show ?thesis using Cons.prems(2) pc
      by (intro keep [of "(p, True)"]) (auto simp: signals_at_def signal)
  next
    case 4
    then show ?thesis using D(1) gone [of None] pc
      by (intro leave [of "(p, True)"]) (auto simp: signals_at_def signal)
  next
    case 5
    then show ?thesis using D(1) gone [of "Some (length (w_flag_store w))"] pc signals_at_insert [OF Cons.prems]
      by (intro leave [of "(p, c)"]) auto
  next
    case 6
    then show ?thesis using D(1) gone [of None] pc by (intro leave [of "(p, c)"]) auto
  next
    case 7
    then show ?thesis using D(1) gone [of None] pc by (intro leave [of "(p, c)"]) auto
  next
    case 8
    from held_step_other [OF Cons.prems this] 8 pc show ?thesis by (intro keep [of "(p, c)"]) auto
  qed
qed simp

text \<open>A channel that has been answered or closed stays as it is.\<close>

lemma answered_stays:
  assumes "q < length (w_oneshots w)" "\<forall>j. w_pending w j \<noteq> Some q"
  shows "w_oneshots (reg_run ops w) ! q = w_oneshots w ! q"
  using assms
proof (induction ops arbitrary: w)
  case (Cons x ops)
  have "q < length (w_oneshots (reg_perform x w)) \<and> (\<forall>j. w_pending (reg_perform x w) j \<noteq> Some q)
    \<and> w_oneshots (reg_perform x w) ! q = w_oneshots w ! q"
  proof (cases x)
    case (RegRegister i)
    moreover have "w_pending w i \<noteq> Some q" using Cons.prems(2) by blast
    ultimately show ?thesis using Cons.prems
      by (cases "w_pending w i") (simp_all add: pending_register_def Let_def nth_append)
  next
    case (RegCmd c)
    then show ?thesis using Cons.prems
      by (cases c) (auto simp: pending_respond_def split: option.splits, metis nth_list_update_neq)
  qed (use Cons.prems in \<open>auto simp: emit_send_status_def emit_transfer_error_def insert_flag_def Let_def\<close>)
  with Cons.IH [of "reg_perform x w"] show ?case by simp
qed simp

lemma answer_run:
  assumes "world_wf w" "w_pending w i = Some q"
  shows "w_oneshots (reg_run ops w) ! q = first_answer i ops"
  using assms
proof (induction ops arbitrary: w)
  case Nil
  then show ?case using world_wf_pendingD by simp
next
  case (Cons x ops)
  have wf: "world_wf (reg_perform x w)" using Cons.prems(1) by (rule reg_perform_wf)
  note D = world_wf_pendingD [OF Cons.prems]
  have others: "w_pending w k \<noteq> Some q" if "k \<noteq> i" for k using D(3) that by blast
  have keep: ?case if "w_pending (reg_perform x w) i = Some q" "first_answer i (x # ops) = first_answer i ops"
    using Cons.IH [OF wf that(1)] that(2) by simp
  have done_: ?case if "q < length (w_oneshots (reg_perform x w))" "\<forall>j. w_pending (reg_perform x w) j \<noteq> Some q"
    "w_oneshots (reg_perform x w) ! q = first_answer i (x # ops)"
    using answered_stays [OF that(1,2), of ops] that(3) by simp
  show ?case
  proof (cases x)
    case (RegRegister j)
    show ?thesis
    proof (cases "j = i")
      case True
      then show ?thesis using RegRegister Cons.prems(2) D(1) others
        by (intro done_) (simp_all add: pending_register_def Let_def nth_append)
    next
      case False
      then show ?thesis using RegRegister Cons.prems(2)
        by (intro keep) (simp_all add: pending_register_def Let_def)
    qed
  next
    case (RegCmd c)
    show ?thesis
    proof (cases "\<exists>b. c = RespondCmd i b")
      case True
      then show ?thesis using RegCmd Cons.prems(2) D(1) others
        by (intro done_) (auto simp: pending_respond_def split: if_splits)
    next
      case False
      then show ?thesis using RegCmd Cons.prems(2)
        by (intro keep) (cases c; auto simp: pending_respond_def split: option.splits)+
    qed
  qed (use Cons.prems(2) in \<open>intro keep; simp add: emit_send_status_def emit_transfer_error_def insert_flag_def Let_def\<close>)+
qed

text \<open>
  C14. What the registries promise, for any sequence of operations of the transfers and the
  user. The tables behave as plain maps from ids to values, each operation changing the entry
  of its id only, although flags and answers are shared by reference. The task that keeps the
  flag of a transfer sees exactly the pauses, resumes and cancels of its own id, up to and
  including the one that takes the flag out of the table. The waiter for a request gets the
  first answer given under its id and no other.
\<close>

theorem registry_refines_maps:
  assumes "world_wf w"
  shows "registry_view (reg_run ops w) = fold spec_op ops (registry_view w)
    \<and> (w_flags w i = Some r \<longrightarrow> signals_at r (reg_run ops w) = held_signals i ops (signals_at r w))
    \<and> (w_pending w j = Some q \<longrightarrow> w_oneshots (reg_run ops w) ! q = first_answer j ops)"
proof -
  have "registry_view (reg_run ops w) = fold spec_op ops (registry_view w)"
    using assms by (induction ops arbitrary: w) (simp_all add: view_op reg_perform_wf)
  with held_run [OF assms] answer_run [OF assms] show ?thesis by blast
qed

text \<open>Two transfers; one is paused and then cancelled, the other is asked for and accepted.\<close>

definition demo_world :: world where
  "demo_world = snd (pending_register ''b'' (snd (insert_flag ''b'' (snd (insert_flag ''a'' world_new)))))"

lemma registry_refines_maps_witness:
  "signals_at 0 (reg_run [RegCmd (GuiPauseCmd ''a''), RegCmd (RespondCmd ''b'' True), RegCmd (GuiCancelCmd ''a''),
       RegInsertFlag ''a'', RegCmd (GuiResumeCmd ''a''), RegCmd (RespondCmd ''b'' False)] demo_world) = (True, True)
   \<and> w_oneshots (reg_run [RegCmd (GuiPauseCmd ''a''), RegCmd (RespondCmd ''b'' True), RegCmd (GuiCancelCmd ''a''),
       RegInsertFlag ''a'', RegCmd (GuiResumeCmd ''a''), RegCmd (RespondCmd ''b'' False)] demo_world) ! 0 = OneshotSent True
   \<and> rv_flags (registry_view (reg_run [RegCmd (GuiPauseCmd ''a''), RegCmd (GuiCancelCmd ''a'')] demo_world))
       = [''b'' \<mapsto> (False, False)]"
proof -
  have wf: "world_wf demo_world"
    unfolding demo_world_def by (intro pending_register_wf world_wf_insert_flag world_wf_new)
  have d: "w_flags demo_world = [''a'' \<mapsto> 0, ''b'' \<mapsto> Suc 0]" "w_pending demo_world = [''b'' \<mapsto> 0]"
    "w_flag_store demo_world = [flag_new, flag_new]"
    by (simp_all add: demo_world_def insert_flag_def pending_register_def world_new_def Let_def)
  then have s: "signals_at 0 demo_world = (False, False)" "signals_at (Suc 0) demo_world = (False, False)"
    by (simp_all add: signals_at_def flag_at_def)
  have v: "rv_flags (registry_view demo_world) = [''a'' \<mapsto> (False, False), ''b'' \<mapsto> (False, False)]"
    by (auto simp: registry_view_def d(1) s fun_eq_iff)
  have "w_flags demo_world ''a'' = Some 0" "w_pending demo_world ''b'' = Some 0" by (simp_all add: d)
  note R = registry_refines_maps [OF wf, where i = "''a''" and r = 0 and j = "''b''" and q = 0]
  show ?thesis
    using R [of "[RegCmd (GuiPauseCmd ''a''), RegCmd (RespondCmd ''b'' True), RegCmd (GuiCancelCmd ''a''),
       RegInsertFlag ''a'', RegCmd (GuiResumeCmd ''a''), RegCmd (RespondCmd ''b'' False)]"]
      R [of "[RegCmd (GuiPauseCmd ''a''), RegCmd (GuiCancelCmd ''a'')]"] d s v
    by (auto simp: change_flag_def change_active_def forget_transfer_def fun_eq_iff)
qed

section \<open>Answering a pending request\<close>

text \<open>
  A pending request is answered at most once and only under its own id: the first
  response is the one its waiter gets, later responses report that nothing is pending,
  and no response to another id changes it.
\<close>

theorem respond_answers_once:
  assumes "world_wf w" "pending_register i w = (r, w1)" "j \<noteq> i"
  shows "pending_answer r (snd (pending_respond i b w1)) = b
    \<and> fst (pending_respond i b w1)
    \<and> \<not> fst (pending_respond i b' (snd (pending_respond i b w1)))
    \<and> w_pending (snd (pending_respond j b w1)) i = Some r
    \<and> \<not> pending_answer r (snd (pending_respond j b w1))"
proof -
  have p: "w_pending w1 i = Some r" and r: "r < length (w_oneshots w1)"
    using assms(2) by (auto simp: pending_register_def Let_def split: option.splits)
  have wf: "world_wf w1" using pending_register_wf [OF assms(1), of i] assms(2) by simp
  have "w_pending (snd (pending_respond j b w1)) i = Some r"
    using p assms(3) by (simp add: pending_respond_def split: option.splits)
  moreover from this pending_respond_wf [OF wf, of j b]
  have "w_oneshots (snd (pending_respond j b w1)) ! r = OneshotOpen"
    unfolding world_wf_def by blast
  ultimately show ?thesis
    using p r by (simp add: pending_respond_def pending_answer_def)
qed

lemma respond_answers_once_witness:
  "pending_answer 0 (snd (pending_respond ''a'' True (snd (pending_register ''a'' world_new))))"
proof -
  have "pending_register ''a'' world_new = (0, snd (pending_register ''a'' world_new))"
    by (simp add: pending_register_def world_new_def Let_def)
  from respond_answers_once [OF world_wf_new this, of "''b''" True] show ?thesis by simp
qed

end
