(* ===== verification/Tcp_Wire.thy ===== *)
theory Tcp_Wire
  imports Framing Crypto Engine Registry
begin

text \<open>
  What the two ends of \<open>p2ptransfer-core/src/network/tcp_compat.rs\<close> share: the message
  tags, the connection seen from one end, the lossy UTF-8 decoder applied to texts of the
  peer, the serialised metadata and the blocks a regular file is read in.
\<close>

section \<open>Tags and constants\<close>

definition TAG_METADATA :: byte where "TAG_METADATA = 0x00"
definition TAG_CHUNK :: byte where "TAG_CHUNK = 0x01"
definition TAG_CHUNK_ACK :: byte where "TAG_CHUNK_ACK = 0x02"
definition TAG_COMPLETE :: byte where "TAG_COMPLETE = 0x03"
definition TAG_ERROR :: byte where "TAG_ERROR = 0x04"
definition TAG_CLIENT_HELLO :: byte where "TAG_CLIENT_HELLO = 0x05"
definition TAG_SERVER_HELLO :: byte where "TAG_SERVER_HELLO = 0x06"

definition LAN_BLOCK_SIZE :: usize where "LAN_BLOCK_SIZE = 4 * 1024 * 1024"

lemmas tag_defs = TAG_METADATA_def TAG_CHUNK_def TAG_CHUNK_ACK_def TAG_COMPLETE_def
  TAG_ERROR_def TAG_CLIENT_HELLO_def TAG_SERVER_HELLO_def

lemma LAN_BLOCK_nat: "unat LAN_BLOCK_SIZE = 4194304"
  by (simp add: LAN_BLOCK_SIZE_def)

section \<open>A connection seen from one end\<close>

text \<open>
  \<open>cn_in\<close> is what the peer has written and will write, \<open>cn_out\<close> what this end has
  written, \<open>cn_sends\<close> the outcomes of the coming sends: an error text, or success (also
  when the list has run out).
\<close>

record conn =
  cn_in :: "byte list"
  cn_out :: "byte list"
  cn_sends :: "string option list"

definition conn_open :: "byte list \<Rightarrow> conn" where
  "conn_open s = \<lparr>cn_in = s, cn_out = [], cn_sends = []\<rparr>"

definition conn_send :: "byte list \<Rightarrow> conn \<Rightarrow> (string + unit) \<times> conn" where
  "conn_send m c =
     (case cn_sends c of
        Some e # es \<Rightarrow> (Inl e, c\<lparr>cn_sends := es\<rparr>)
      | None # es \<Rightarrow> (Inr (), c\<lparr>cn_sends := es, cn_out := cn_out c @ send_message m\<rparr>)
      | [] \<Rightarrow> (Inr (), c\<lparr>cn_out := cn_out c @ send_message m\<rparr>))"

definition conn_receive :: "conn \<Rightarrow> (string + byte list) \<times> conn" where
  "conn_receive c =
     (case receive_message (cn_in c) of
        Inl e \<Rightarrow> (Inl e, c)
      | Inr (m, rest) \<Rightarrow> (Inr m, c\<lparr>cn_in := rest\<rparr>))"

text \<open>
  The closure \<open>send_err\<close> builds the future of a send and drops it without awaiting it: no
  byte is written.
\<close>

definition send_err :: "string \<Rightarrow> conn \<Rightarrow> conn" where
  "send_err msg c = c"

lemma conn_receive_put [wire]:
  "cn_in c = send_message m @ rest \<Longrightarrow> fits_payload m \<Longrightarrow>
   conn_receive c = (Inr m, c\<lparr>cn_in := rest\<rparr>)"
  by (simp add: conn_receive_def tcp.get_put)

lemma conn_send_ok [wire]:
  "cn_sends c = [] \<Longrightarrow> conn_send m c = (Inr (), c\<lparr>cn_out := cn_out c @ send_message m\<rparr>)"
  by (simp add: conn_send_def)

section \<open>Lossy UTF-8\<close>

text \<open>
  A Rust string is the list of its UTF-8 bytes. \<open>String::from_utf8_lossy\<close> replaces every
  maximal invalid prefix of a sequence by U+FFFD; \<open>utf8_step\<close> is the number of bytes of
  the next sequence and whether it is valid.
\<close>

definition is_cont :: "byte \<Rightarrow> bool" where
  "is_cont b = (128 \<le> unat b \<and> unat b < 192)"

fun at_or_zero :: "byte list \<Rightarrow> nat \<Rightarrow> byte" where
  "at_or_zero bs i = (if i < length bs then bs ! i else 0)"

definition second_ok :: "nat \<Rightarrow> nat \<Rightarrow> bool" where
  "second_ok b n =
     (if b = 0xE0 then 0xA0 \<le> n \<and> n \<le> 0xBF
      else if b = 0xED then 0x80 \<le> n \<and> n \<le> 0x9F
      else if b = 0xF0 then 0x90 \<le> n \<and> n \<le> 0xBF
      else if b = 0xF4 then 0x80 \<le> n \<and> n \<le> 0x8F
      else 0x80 \<le> n \<and> n \<le> 0xBF)"

definition utf8_step :: "byte list \<Rightarrow> nat \<times> bool" where
  "utf8_step bs =
     (let b = unat (at_or_zero bs 0); n1 = unat (at_or_zero bs 1) in
      if b < 0x80 then (1, True)
      else if 0xC2 \<le> b \<and> b \<le> 0xDF then
        (if is_cont (at_or_zero bs 1) then (2, True) else (1, False))
      else if 0xE0 \<le> b \<and> b \<le> 0xEF then
        (if \<not> second_ok b n1 then (1, False)
         else if \<not> is_cont (at_or_zero bs 2) then (2, False) else (3, True))
      else if 0xF0 \<le> b \<and> b \<le> 0xF4 then
        (if \<not> second_ok b n1 then (1, False)
         else if \<not> is_cont (at_or_zero bs 2) then (2, False)
         else if \<not> is_cont (at_or_zero bs 3) then (3, False) else (4, True))
      else (1, False))"

lemma utf8_step_pos: "0 < fst (utf8_step bs)"
  by (simp add: utf8_step_def Let_def)

function utf8_lossy :: "byte list \<Rightarrow> string" where
  "utf8_lossy bs =
     (if bs = [] then []
      else let (n, ok) = utf8_step bs in
        (if ok then string_of (take n bs)
         else string_of [0xEF, 0xBF, 0xBD]) @ utf8_lossy (drop n bs))"
  by pat_completeness auto
termination
proof (relation "measure length")
  fix bs :: "byte list" and x n ok
  assume "bs \<noteq> []" "x = utf8_step bs" "(n, ok) = x"
  then have "0 < n" using utf8_step_pos [of bs] by (metis fst_conv)
  with \<open>bs \<noteq> []\<close> show "(drop n bs, bs) \<in> measure length" by simp
qed simp

declare utf8_lossy.simps [simp del]

definition is_ascii :: "string \<Rightarrow> bool" where
  "is_ascii s \<longleftrightarrow> (\<forall>c \<in> set s. (of_char c :: nat) < 128)"

lemma utf8_lossy_ascii [wire]: "is_ascii s \<Longrightarrow> utf8_lossy (bytes_of s) = s"
proof (induction s)
  case Nil
  then show ?case by (simp add: utf8_lossy.simps bytes_of_def)
next
  case (Cons c s)
  let ?b = "word_of_nat (of_char c) :: byte"
  have c: "(of_char c :: nat) < 128" using Cons.prems by (simp add: is_ascii_def)
  then have b: "unat ?b = of_char c" by (simp add: unat_of_nat)
  have "utf8_step (?b # bytes_of s) = (1, True)"
    using c b by (simp add: utf8_step_def Let_def)
  then have "utf8_lossy (bytes_of (c # s)) = string_of [?b] @ utf8_lossy (bytes_of s)"
    by (subst utf8_lossy.simps) (simp add: bytes_of_def)
  moreover have "string_of [?b] = [c]" by (simp add: string_of_def b)
  ultimately show ?case using Cons by (simp add: is_ascii_def)
qed

lemma is_ascii_append [simp]: "is_ascii (s @ t) \<longleftrightarrow> is_ascii s \<and> is_ascii t"
  by (auto simp: is_ascii_def)

lemma is_ascii_to_hex: "is_ascii (to_hex bs)"
proof -
  have "(of_char (hex_digit d) :: nat) < 128" if "d < 16" for d
    using that by (simp add: hex_digit_def)
  moreover have "unat b div 16 < 16" "unat b mod 16 < 16" for b :: byte
    using unsigned_less [of b] by (simp_all add: div_less_iff_less_mult)
  ultimately show ?thesis by (simp add: is_ascii_def to_hex_def hex_byte_def)
qed

lemma is_ascii_show_nat: "is_ascii (show_nat n)"
proof (induction n rule: show_nat.induct)
  case (1 n)
  have "(of_char (digit_char d) :: nat) < 128" if "d < 10" for d
    using that by (simp add: digit_char_def)
  with 1 show ?case by (subst show_nat.simps) (simp add: is_ascii_def)
qed

section \<open>Cancel texts and file removal\<close>

definition mentions_cancel :: "string \<Rightarrow> bool" where
  "mentions_cancel e = (contains_str e ''cancelled'' \<or> contains_str e ''Cancelled'')"

lemma mentions_cancelled [simp]: "mentions_cancel ''cancelled''"
  by (simp add: mentions_cancel_def)

definition remove_file :: "path \<Rightarrow> filesystem \<Rightarrow> filesystem" where
  "remove_file p fs = fs(p := None)"

section \<open>Metadata on the wire\<close>

text \<open>\<open>serde_json\<close> at \<open>TransferMetadata\<close>.\<close>

record meta_codec =
  mc_enc :: "transfer_metadata \<Rightarrow> byte list option"
  mc_dec :: "byte list \<Rightarrow> transfer_metadata option"

definition meta_codec_ok :: "meta_codec \<Rightarrow> bool" where
  "meta_codec_ok M \<longleftrightarrow> codec_ok (mc_enc M) (mc_dec M)"

section \<open>Blocks of a regular file\<close>

definition lan_blocks :: "fdata \<Rightarrow> byte list list" where
  "lan_blocks f = read_blocks (unat LAN_BLOCK_SIZE) f"

lemma concat_lan_blocks [simp]: "concat (lan_blocks f) = f"
  by (simp add: lan_blocks_def LAN_BLOCK_nat)

lemma lan_block_length: "b \<in> set (lan_blocks f) \<Longrightarrow> 0 < length b \<and> length b \<le> 4194304"
  using read_blocks_bounds [of b "unat LAN_BLOCK_SIZE" f] by (simp add: lan_blocks_def LAN_BLOCK_nat)

text \<open>The largest multiple of the block size not above a length.\<close>

definition align_block :: "u64 \<Rightarrow> u64 \<Rightarrow> u64" where
  "align_block blk n = (n div blk) * blk"

lemma align_block_nat:
  "unat (align_block blk n) = unat n div unat blk * unat blk"
proof -
  have "unat n div unat blk * unat blk \<le> unat n" by simp
  then have "unat n div unat blk * unat blk < 2 ^ 64"
    by (rule le_less_trans) (use unat_u64_bound [of n] in simp)
  then show ?thesis by (simp add: align_block_def unat_mult_u64 unat_div_word)
qed

end
