(* ===== verification/Net_Addr.thy ===== *)
theory Net_Addr
  imports Paths
begin

text \<open>
  Textual IPv4 addresses and socket addresses, as the standard library's parsers read
  them: four decimal octets without leading zeros, a colon and a decimal port. Bracketed
  IPv6 addresses are not modelled (an unbracketed one with a port appended does not parse
  in the code either).
\<close>

type_synonym ipv4 = "nat list"

definition parse_octet :: "string \<Rightarrow> nat option" where
  "parse_octet s =
     (if s = [] \<or> length s > 3 \<or> (length s > 1 \<and> hd s = CHR ''0'') then None
      else case parse_digits 0 s of
             None \<Rightarrow> None
           | Some n \<Rightarrow> if n < 256 then Some n else None)"

fun collect :: "'a option list \<Rightarrow> 'a list option" where
  "collect [] = Some []"
| "collect (None # xs) = None"
| "collect (Some x # xs) = map_option ((#) x) (collect xs)"

definition parse_ipv4 :: "string \<Rightarrow> ipv4 option" where
  "parse_ipv4 s =
     (let ws = split_on CHR ''.'' s
      in if length ws = 4 then collect (map parse_octet ws) else None)"

definition parse_port :: "string \<Rightarrow> u16 option" where
  "parse_port s =
     (if s = [] then None
      else case parse_digits 0 s of
             None \<Rightarrow> None
           | Some n \<Rightarrow> if n < 65536 then Some (word_of_nat n) else None)"

definition parse_socket_addr :: "string \<Rightarrow> (ipv4 \<times> u16) option" where
  "parse_socket_addr s =
     (case split_on CHR '':'' s of
        [ip, p] \<Rightarrow>
          (case parse_ipv4 ip of
             None \<Rightarrow> None
           | Some a \<Rightarrow> map_option (\<lambda>q. (a, q)) (parse_port p))
      | _ \<Rightarrow> None)"

fun join_with :: "string \<Rightarrow> string list \<Rightarrow> string" where
  "join_with sep [] = []"
| "join_with sep [w] = w"
| "join_with sep (w # ws) = w @ sep @ join_with sep ws"

definition show_ipv4 :: "ipv4 \<Rightarrow> string" where
  "show_ipv4 a = join_with ''.'' (map show_nat a)"

definition show_socket_addr :: "ipv4 \<times> u16 \<Rightarrow> string" where
  "show_socket_addr a = show_ipv4 (fst a) @ '':'' @ show_nat (unat (snd a))"

section \<open>Printing and parsing\<close>

lemma split_on_no_sep: "c \<notin> set s \<Longrightarrow> split_on c s = [s]"
  by (induction s) auto

lemma split_on_append: "c \<notin> set s \<Longrightarrow> split_on c (s @ c # t) = s # split_on c t"
  by (induction s) auto

lemma split_on_join:
  "ws \<noteq> [] \<Longrightarrow> \<forall>w \<in> set ws. c \<notin> set w \<Longrightarrow> split_on c (join_with [c] ws) = ws"
  by (induction "[c]" ws rule: join_with.induct) (auto simp: split_on_no_sep split_on_append)

lemma show_nat_digits: "c \<in> set (show_nat n) \<Longrightarrow> \<exists>d < 10. c = digit_char d"
proof (induction n rule: show_nat.induct)
  case (1 n)
  show ?case
  proof (cases "n < 10")
    case True
    with 1 show ?thesis by (subst (asm) show_nat.simps) auto
  next
    case False
    with 1 show ?thesis by (subst (asm) (2) show_nat.simps) (auto intro: exI [of _ "n mod 10"])
  qed
qed

lemma show_nat_no_punct: "CHR ''.'' \<notin> set (show_nat n)" "CHR '':'' \<notin> set (show_nat n)"
proof -
  have "digit_val c = Some d" if "c = digit_char d" "d < 10" for c d
    using that by simp
  then have "digit_val c \<noteq> None" if "c \<in> set (show_nat n)" for c
    using show_nat_digits [OF that] by auto
  moreover have "digit_val (CHR ''.'') = None" "digit_val (CHR '':'') = None"
    by (simp_all add: digit_val_def)
  ultimately show "CHR ''.'' \<notin> set (show_nat n)" "CHR '':'' \<notin> set (show_nat n)" by blast+
qed

lemma parse_octet_show: "n < 256 \<Longrightarrow> parse_octet (show_nat n) = Some n"
proof -
  assume n: "n < 256"
  have len: "length (show_nat n) \<le> 3"
    using n by (subst show_nat.simps, simp, subst show_nat.simps, simp, subst show_nat.simps) auto
  have nz: "length (show_nat n) > 1 \<Longrightarrow> hd (show_nat n) \<noteq> CHR ''0''" for n
  proof (induction n rule: show_nat.induct)
    case (1 n)
    show ?case
    proof (cases "n < 10")
      case True
      with 1 show ?thesis by (simp add: show_nat.simps [of n])
    next
      case False
      then have s: "show_nat n = show_nat (n div 10) @ [digit_char (n mod 10)]"
        by (simp add: show_nat.simps [of n])
      show ?thesis
      proof (cases "n div 10 < 10")
        case True
        then have "show_nat (n div 10) = [digit_char (n div 10)]" by (simp add: show_nat.simps)
        moreover have "digit_char (n div 10) \<noteq> CHR ''0''"
        proof
          assume "digit_char (n div 10) = CHR ''0''"
          then have "digit_val (digit_char (n div 10)) = digit_val (CHR ''0'')" by simp
          moreover have "digit_val (CHR ''0'') = Some 0" by (simp add: digit_val_def)
          ultimately show False using True False by simp
        qed
        ultimately show ?thesis by (simp add: s)
      next
        case big: False
        then have "length (show_nat (n div 10)) > 1"
          using show_nat_Cons [of "n div 10 div 10"] by (auto simp: show_nat.simps [of "n div 10"])
        moreover from this have "show_nat (n div 10) \<noteq> []" by auto
        ultimately show ?thesis using 1 False by (simp add: s)
      qed
    qed
  qed
  have "show_nat n \<noteq> []" using show_nat_Cons [of n] by auto
  with len nz [of n] n show ?thesis by (auto simp: parse_octet_def parse_digits_show_nat)
qed

lemma collect_map_Some: "(\<And>x. x \<in> set xs \<Longrightarrow> f x = Some (g x)) \<Longrightarrow> collect (map f xs) = Some (map g xs)"
  by (induction xs) auto

lemma parse_show_ipv4:
  assumes "length a = 4" "\<forall>n \<in> set a. n < 256"
  shows "parse_ipv4 (show_ipv4 a) = Some a"
proof -
  have "map show_nat a \<noteq> []" using assms(1) by auto
  then have "split_on CHR ''.'' (show_ipv4 a) = map show_nat a"
    using split_on_join [of "map show_nat a" "CHR ''.''"]
    by (simp add: show_ipv4_def show_nat_no_punct)
  moreover have "collect (map (parse_octet \<circ> show_nat) a) = Some a"
    using assms(2) collect_map_Some [of a "parse_octet \<circ> show_nat" id]
    by (simp add: parse_octet_show)
  ultimately show ?thesis using assms(1) by (simp add: parse_ipv4_def)
qed

lemma set_join_with: "set (join_with sep ws) \<subseteq> \<Union> (set ` set ws) \<union> set sep"
  by (induction sep ws rule: join_with.induct) auto

lemma show_ipv4_no_colon: "CHR '':'' \<notin> set (show_ipv4 a)"
  using set_join_with [of "''.''" "map show_nat a"] show_nat_no_punct(2)
  by (auto simp: show_ipv4_def)

lemma parse_show_port: "parse_port (show_nat (unat (p::u16))) = Some p"
proof -
  have "unat p < 65536" using unsigned_less [of p] by simp
  moreover have "show_nat (unat p) \<noteq> []" using show_nat_Cons [of "unat p"] by auto
  ultimately show ?thesis by (simp add: parse_port_def parse_digits_show_nat)
qed

lemma parse_show_socket_addr:
  assumes "length a = 4" "\<forall>n \<in> set a. n < 256"
  shows "parse_socket_addr (show_socket_addr (a, p)) = Some (a, p)"
proof -
  have "split_on CHR '':'' (show_ipv4 a @ '':'' @ show_nat (unat p))
      = [show_ipv4 a, show_nat (unat p)]"
    by (simp add: split_on_append show_ipv4_no_colon split_on_no_sep show_nat_no_punct)
  with assms show ?thesis
    by (simp add: parse_socket_addr_def show_socket_addr_def parse_show_ipv4 parse_show_port)
qed

end
