(* ===== verification/Tcp_Send.thy ===== *)
theory Tcp_Send
  imports Tcp_Wire Net_Addr
begin

text \<open>
  \<open>send_file_direct_tcp\<close> of \<open>p2ptransfer-core/src/network/tcp_compat.rs\<close>, the sender of the
  encrypted TCP protocol: connecting and registering the transfer, the key exchange, the
  metadata and the receiver's answer, the reader task that hashes and encrypts the file
  block by block, the send loop and the final handshake. The reader task fills a bounded
  channel; the send loop sees its frames in their order, so the channel is the list of
  the frames not yet taken.
\<close>

section \<open>Inputs of one run\<close>

text \<open>
  A turn of the send loop: commands of other tasks before the pause check, commands while
  it waits for the next frame, and the speed reported when the progress interval passed.
\<close>

record send_turn =
  st_user :: "user_cmd list"
  st_user_dequeue :: "user_cmd list"
  st_progress :: "rat option"

record send_env =
  se_crypto :: crypto_lib
  se_codec :: meta_codec
  se_io :: io_env
  se_secret :: "byte list"
  se_rng :: "nat \<Rightarrow> u32"
  se_session_uuid :: string
  se_connects :: bool
  se_turns :: "send_turn list"

section \<open>Connecting\<close>

definition connect_failed_text :: "ipv4 \<times> u16 \<Rightarrow> string" where
  "connect_failed_text a =
     ''Failed to connect to '' @ show_socket_addr a @ ''.'' @ [CHR 0x0A, CHR 0x0A]
     @ ''Check that the receiver is listening on port '' @ show_nat (unat (snd a))
     @ '' at that IP address.''"

definition tcp_send_connect ::
  "bool \<Rightarrow> string \<Rightarrow> path \<Rightarrow> string \<Rightarrow> u16 \<Rightarrow> filesystem \<Rightarrow> world \<Rightarrow> (string + nat) \<times> world" where
  "tcp_send_connect connects i p target_ip target_port fs w =
     (let w = emit (SendStatus i ''connecting'') w in
      case parse_socket_addr (target_ip @ '':'' @ show_nat (unat target_port)) of
        None \<Rightarrow> (Inl ''invalid socket address syntax'', w)
      | Some a \<Rightarrow>
          if \<not> connects then
            (Inl (connect_failed_text a), emit_transfer_error i (connect_failed_text a) w)
          else
            let (flag, w) = insert_flag i w;
                w = insert_active \<lparr>at_request_id = i, at_role = ''sender'', at_status = ''connecting'',
                      at_file_name = opt_default [] (file_name p),
                      at_total_bytes = (case fs p of Some f \<Rightarrow> len64 f | None \<Rightarrow> 0),
                      at_bytes_transferred = 0\<rparr> w
            in (Inr flag, emit (SendStatus i ''accepted'') w))"

section \<open>Handshake\<close>

definition tcp_send_hello ::
  "crypto_lib \<Rightarrow> byte list \<Rightarrow> conn \<Rightarrow> (string + byte list) \<times> conn" where
  "tcp_send_hello C secret c =
     (let kx = ecdh_new C secret;
          hello_msg = TAG_CLIENT_HELLO # public_key_bytes kx
      in case conn_send hello_msg c of
           (Inl e, c) \<Rightarrow> (Inl e, c)
         | (Inr _, c) \<Rightarrow>
             (case conn_receive c of
                (Inl e, c) \<Rightarrow> (Inl e, c)
              | (Inr resp, c) \<Rightarrow>
                  if resp = [] \<or> hd resp \<noteq> TAG_SERVER_HELLO then (Inl ''Expected SERVER_HELLO'', c)
                  else if length (tl resp) \<noteq> 32 then (Inl ''Invalid key length'', c)
                  else (session_key C kx (tl resp), c)))"

definition parse_accept :: "byte list \<Rightarrow> string + u64" where
  "parse_accept resp2 =
     (if resp2 = [] \<or> hd resp2 \<noteq> TAG_METADATA then Inl ''Peer rejected transfer''
      else let resp_str = utf8_lossy (tl resp2) in
        if starts_with resp_str ''ACCEPT:'' then Inr (opt_default 0 (parse_u64 (drop 7 resp_str)))
        else if resp_str = ''ACCEPT'' then Inr 0
        else Inl ''Peer rejected transfer'')"

definition tcp_send_metadata ::
  "'h hash_lib \<Rightarrow> send_env \<Rightarrow> filesystem \<Rightarrow> path \<Rightarrow> bool \<Rightarrow> byte list \<Rightarrow> conn
     \<Rightarrow> (string + transfer_metadata \<times> u64) \<times> conn" where
  "tcp_send_metadata L E fs p force_restart prefix c =
     (case create_metadata L (se_io E) fs p LAN_BLOCK_SIZE force_restart (se_session_uuid E) of
        Inl e \<Rightarrow> (Inl e, c)
      | Inr md0 \<Rightarrow>
          let md = md0\<lparr>md_nonce_prefix := prefix\<rparr> in
          case mc_enc (se_codec E) md of
            None \<Rightarrow> (Inl ''serialization failed'', c)
          | Some meta_json \<Rightarrow>
              (case conn_send (TAG_METADATA # meta_json) c of
                 (Inl e, c) \<Rightarrow> (Inl e, c)
               | (Inr _, c) \<Rightarrow>
                   (case conn_receive c of
                      (Inl e, c) \<Rightarrow> (Inl e, c)
                    | (Inr resp2, c) \<Rightarrow>
                        (res_bind (parse_accept resp2) (\<lambda>off. Inr (md, off)), c))))"

section \<open>The reader task\<close>

definition chunk_frame :: "u64 \<Rightarrow> byte list \<Rightarrow> byte list" where
  "chunk_frame blk_idx encrypted = 0x01 # u32_to_le (ucast blk_idx) @ 0 # encrypted"

fun encrypt_blocks ::
  "crypto_lib \<Rightarrow> byte list \<Rightarrow> byte list \<Rightarrow> u64 \<Rightarrow> byte list list
     \<Rightarrow> (byte list \<times> u64) list \<times> (string + unit)" where
  "encrypt_blocks C key prefix blk_idx [] = ([], Inr ())"
| "encrypt_blocks C key prefix blk_idx (block # bs) =
     (case encrypt C key (build_nonce prefix blk_idx) block of
        Inl e \<Rightarrow> ([], Inl (''Encryption failed: '' @ e))
      | Inr encrypted \<Rightarrow>
          let (frames, r) = encrypt_blocks C key prefix (blk_idx + 1) bs
          in ((chunk_frame blk_idx encrypted, len64 block) # frames, r))"

text \<open>
  The prefix before the offset is read and hashed but not sent. Seeking to an offset that
  is no \<open>i64\<close> fails; seeking past the end does not.
\<close>

definition tcp_reader ::
  "'h hash_lib \<Rightarrow> crypto_lib \<Rightarrow> io_env \<Rightarrow> filesystem \<Rightarrow> path \<Rightarrow> byte list \<Rightarrow> byte list \<Rightarrow> u64
     \<Rightarrow> (byte list \<times> u64) list \<times> (string + string)" where
  "tcp_reader L C io fs p key prefix start_offset =
     (case fs p of
        None \<Rightarrow> ([], Inl ''No such file or directory'')
      | Some f \<Rightarrow>
          if \<not> io_readable io p then ([], Inl ''Permission denied'')
          else if 2 ^ 63 \<le> unat start_offset then ([], Inl ''Invalid argument'')
          else let h0 = foldl (hl_update L) (hl_new L) (lan_blocks (take (unat start_offset) f));
                   blocks = lan_blocks (drop (unat start_offset) f);
                   (frames, r) = encrypt_blocks C key prefix (start_offset div LAN_BLOCK_SIZE) blocks
               in (frames,
                   res_bind r (\<lambda>_. Inr (to_hex (hl_finalize L (foldl (hl_update L) h0 blocks))))))"

section \<open>The send loop\<close>

record send_ctx =
  sc_id :: string
  sc_flag :: nat
  sc_total :: u64

record send_state =
  ss_conn :: conn
  ss_world :: world
  ss_frames :: "(byte list \<times> u64) list"
  ss_bytes :: u64

datatype send_ctl = SendContinue | SendBreak | SendReturn string

definition tcp_send_dequeue :: "send_ctx \<Rightarrow> send_turn \<Rightarrow> send_state \<Rightarrow> send_ctl \<times> send_state" where
  "tcp_send_dequeue x t s =
     (case ss_frames s of
        [] \<Rightarrow> (SendBreak, s)
      | (wire_frame, plain_len) # frames \<Rightarrow>
          (let s = s\<lparr>ss_frames := frames\<rparr> in
           case conn_send wire_frame (ss_conn s) of
             (Inl e, c) \<Rightarrow> (SendReturn e, s\<lparr>ss_conn := c\<rparr>)
           | (Inr _, c) \<Rightarrow>
               let bytes = ss_bytes s + plain_len;
                   w = (case st_progress t of
                          None \<Rightarrow> ss_world s
                        | Some speed \<Rightarrow>
                            emit (Progress (sc_id x) bytes (sc_total x) speed)
                              (set_bytes (sc_id x) bytes (ss_world s)))
               in (SendContinue, s\<lparr>ss_conn := c, ss_bytes := bytes, ss_world := w\<rparr>)))"

definition cancel_text :: string where
  "cancel_text = ''Transfer cancelled by user''"

definition tcp_send_turn :: "send_ctx \<Rightarrow> send_turn \<Rightarrow> send_state \<Rightarrow> send_ctl \<times> send_state" where
  "tcp_send_turn x t s =
     (let s = s\<lparr>ss_world := apply_cmds (st_user t) (ss_world s)\<rparr> in
      case wait_result (flag_at (sc_flag x) (ss_world s)) of
        None \<Rightarrow> (SendContinue, s)
      | Some True \<Rightarrow> (SendReturn cancel_text, s)
      | Some False \<Rightarrow>
          let s = s\<lparr>ss_world := apply_cmds (st_user_dequeue t) (ss_world s)\<rparr> in
          if is_cancelled (flag_at (sc_flag x) (ss_world s)) then (SendReturn cancel_text, s)
          else tcp_send_dequeue x t s)"

fun tcp_send_loop :: "send_ctx \<Rightarrow> send_turn list \<Rightarrow> send_state
    \<Rightarrow> ((string + unit) \<times> send_state) option" where
  "tcp_send_loop x [] s = None"
| "tcp_send_loop x (t # ts) s =
     (case tcp_send_turn x t s of
        (SendContinue, s') \<Rightarrow> tcp_send_loop x ts s'
      | (SendBreak, s') \<Rightarrow> Some (Inr (), s')
      | (SendReturn e, s') \<Rightarrow> Some (Inl e, s'))"

section \<open>The end of a transfer\<close>

type_synonym send_result = "(string + string) \<times> conn \<times> world"

definition tcp_send_complete :: "string \<Rightarrow> conn \<Rightarrow> (string + string) \<times> conn" where
  "tcp_send_complete final_hash c =
     (case conn_send (TAG_COMPLETE # bytes_of final_hash) c of
        (Inl e, c) \<Rightarrow> (Inl e, c)
      | (Inr _, c) \<Rightarrow>
          (case conn_receive c of
             (Inl e, c) \<Rightarrow> (Inl e, c)
           | (Inr comp_ack, c) \<Rightarrow>
               if comp_ack = [] then (Inl ''No response from receiver'', c)
               else if hd comp_ack = TAG_ERROR then
                 (Inl (''Receiver error: '' @ utf8_lossy (tl comp_ack)), c)
               else if hd comp_ack \<noteq> TAG_COMPLETE then (Inl ''Expected COMPLETE ACK'', c)
               else (Inr final_hash, c)))"

text \<open>Every error of the loop, a failed send included, is reported as a cancel.\<close>

definition tcp_send_after_loop ::
  "string \<Rightarrow> string + string \<Rightarrow> string + unit \<Rightarrow> send_state \<Rightarrow> send_result" where
  "tcp_send_after_loop i reader r s =
     (let w = remove_active i (remove_flag i (ss_world s)) in
      case r of
        Inl cancel_msg \<Rightarrow>
          (Inl cancel_msg, snd (conn_send (TAG_ERROR # bytes_of cancel_msg) (ss_conn s)),
           emit (Cancelled i) w)
      | Inr _ \<Rightarrow>
          (case reader of
             Inl e \<Rightarrow> (Inl e, ss_conn s, w)
           | Inr final_hash \<Rightarrow>
               let (res, c) = tcp_send_complete final_hash (ss_conn s) in (res, c, w)))"

definition tcp_send_file ::
  "'h hash_lib \<Rightarrow> send_env \<Rightarrow> string \<Rightarrow> string \<Rightarrow> string \<Rightarrow> u16 \<Rightarrow> bool \<Rightarrow> conn \<Rightarrow> world
     \<Rightarrow> filesystem \<Rightarrow> send_result option" where
  "tcp_send_file L E i path_arg target_ip target_port force_restart c w fs =
     (let p = path_of path_arg in
      case tcp_send_connect (se_connects E) i p target_ip target_port fs w of
        (Inl e, w) \<Rightarrow> Some (Inl e, c, w)
      | (Inr flag, w) \<Rightarrow>
     (case tcp_send_hello (se_crypto E) (se_secret E) c of
        (Inl e, c) \<Rightarrow> Some (Inl e, c, w)
      | (Inr key, c) \<Rightarrow>
     (let prefix = generate_nonce_prefix (se_rng E) in
      case tcp_send_metadata L E fs p force_restart prefix c of
        (Inl e, c) \<Rightarrow> Some (Inl e, c, w)
      | (Inr (md, start_offset), c) \<Rightarrow>
     (let w = emit (SendStatus i ''transferring'') w;
          (frames, reader) = tcp_reader L (se_crypto E) (se_io E) fs p key prefix start_offset;
          x = \<lparr>sc_id = i, sc_flag = flag, sc_total = md_file_size md\<rparr>;
          s = \<lparr>ss_conn = c, ss_world = w, ss_frames = frames, ss_bytes = start_offset\<rparr>
      in map_option (\<lambda>(r, s). tcp_send_after_loop i reader r s)
           (tcp_send_loop x (se_turns E) s)))))"

section \<open>What a run leaves behind\<close>

lemma tcp_send_turn_store:
  assumes "tcp_send_turn x t s = (SendContinue, s')"
    and "\<forall>c \<in> set (st_user t @ st_user_dequeue t). \<not> cmd_pauses c"
    and "\<not> is_paused (flag_at (sc_flag x) (ss_world s))"
  shows "length (ss_frames s') < length (ss_frames s)
    \<and> \<not> is_paused (flag_at (sc_flag x) (ss_world s'))"
proof -
  let ?w = "apply_cmds (st_user t) (ss_world s)"
  let ?v = "apply_cmds (st_user_dequeue t) ?w"
  have run: "\<not> is_paused (flag_at (sc_flag x) ?w)" "\<not> is_paused (flag_at (sc_flag x) ?v)"
    using apply_cmds_running assms(2,3) by simp_all
  with assms(1) have "tcp_send_dequeue x t (s\<lparr>ss_world := ?v\<rparr>) = (SendContinue, s')"
    by (auto simp: tcp_send_turn_def Let_def wait_result_def split: if_splits)
  with run(2) show ?thesis
    by (auto simp: tcp_send_dequeue_def Let_def split: list.splits prod.splits sum.splits option.splits)
qed

lemma tcp_send_loop_returns:
  assumes "\<forall>t \<in> set ts. \<forall>c \<in> set (st_user t @ st_user_dequeue t). \<not> cmd_pauses c"
    and "\<not> is_paused (flag_at (sc_flag x) (ss_world s))"
    and "length (ss_frames s) < length ts"
  shows "\<exists>r s'. tcp_send_loop x ts s = Some (r, s')"
  using assms
proof (induction ts arbitrary: s)
  case Nil
  then show ?case by simp
next
  case (Cons t ts)
  show ?case
  proof (cases "\<exists>s'. tcp_send_turn x t s = (SendContinue, s')")
    case True
    then obtain s' where s': "tcp_send_turn x t s = (SendContinue, s')" by blast
    with tcp_send_turn_store [OF s'] Cons show ?thesis by simp
  next
    case False
    then show ?thesis by (auto split: prod.splits send_ctl.splits)
  qed
qed

text \<open>
  The sender's registry entries: once the send loop has ended, in whatever way, its
  flag and its entry are gone; but an early return between the registration and the loop
  leaves both, and it always happens when the key exchange fails.
\<close>

theorem tcp_send_registry:
  assumes "tcp_send_connect (se_connects E) i (path_of p) ip port fs w = (Inr flag, w1)"
    and "tcp_send_file L E i p ip port force c w fs = Some (r, c', w')"
  shows "((w_active w' i = None \<and> w_flags w' i = None)
      \<or> (w_active w' i \<noteq> None \<and> w_flags w' i = Some flag \<and> (\<exists>e. r = Inl e)))
    \<and> (\<forall>e c1. tcp_send_hello (se_crypto E) (se_secret E) c = (Inl e, c1) \<longrightarrow>
         w_active w' i \<noteq> None \<and> w_flags w' i = Some flag)"
proof -
  have w1: "w_active w1 i \<noteq> None" "w_flags w1 i = Some flag"
    using assms(1)
    by (auto simp: tcp_send_connect_def Let_def insert_flag_def split: option.splits if_splits)
  have after: "w_active v i = None \<and> w_flags v i = None"
    if "tcp_send_after_loop i rd r0 s = (r, c', v)" for rd r0 s v
    using that by (auto simp: tcp_send_after_loop_def Let_def split: sum.splits prod.splits)
  from assms(2) w1 show ?thesis
    by (auto simp: tcp_send_file_def assms(1) Let_def
        split: prod.splits sum.splits dest: after)
qed

lemma parse_demo_addr: "parse_socket_addr (''10.0.0.2'' @ '':'' @ show_nat (unat (9877::u16))) = Some ([10, 0, 0, 2], 9877)"
proof -
  have "show_ipv4 [10, 0, 0, 2] = ''10.0.0.2''"
    by code_simp
  then show ?thesis
    using parse_show_socket_addr [of "[10, 0, 0, 2]" 9877] by (simp add: show_socket_addr_def)
qed

definition demo_send_env :: "meta_codec \<Rightarrow> send_turn list \<Rightarrow> send_env" where
  "demo_send_env M ts = \<lparr>se_crypto = demo_crypto, se_codec = M, se_io = io_all, se_secret = [9],
     se_rng = (\<lambda>n. of_nat n), se_session_uuid = ''m1'', se_connects = True, se_turns = ts\<rparr>"

lemma tcp_send_registry_witness:
  "\<exists>r c' w'. tcp_send_file demo_hash (demo_send_env \<lparr>mc_enc = (\<lambda>_. None), mc_dec = (\<lambda>_. None)\<rparr> [])
       ''r1'' ''/a'' ''10.0.0.2'' 9877 False (conn_open []) world_new Map.empty = Some (r, c', w')
     \<and> w_flags w' ''r1'' = Some 0"
proof -
  let ?E = "demo_send_env \<lparr>mc_enc = (\<lambda>_. None), mc_dec = (\<lambda>_. None)\<rparr> []"
  obtain w1 where c: "tcp_send_connect (se_connects ?E) ''r1'' (path_of ''/a'') ''10.0.0.2'' 9877
      Map.empty world_new = (Inr 0, w1)"
    using parse_demo_addr
    by (simp add: tcp_send_connect_def demo_send_env_def case_prod_beta Let_def world_new_def)
  obtain e c1 where h: "tcp_send_hello (se_crypto ?E) (se_secret ?E) (conn_open []) = (Inl e, c1)"
    by (simp add: tcp_send_hello_def conn_open_def conn_send_def conn_receive_def demo_send_env_def
        receive_message_def ecdh_new_def public_key_bytes_def Let_def)
  from c h have run: "tcp_send_file demo_hash ?E ''r1'' ''/a'' ''10.0.0.2'' 9877 False (conn_open [])
      world_new Map.empty = Some (Inl e, c1, w1)"
    by (simp add: tcp_send_file_def Let_def)
  from tcp_send_registry [OF c run] h run show ?thesis by auto
qed

end
