(* ===== verification/Tcp_Recv.thy ===== *)
theory Tcp_Recv
  imports Tcp_Wire
begin

text \<open>
  \<open>handle_incoming\<close> of \<open>p2ptransfer-core/src/network/tcp_compat.rs\<close>, the receiver of the
  encrypted TCP protocol, in the phases of the source: key exchange, metadata, the user's
  decision, the answer with the resume offset, the receive loop with its decrypting disk
  writer, and the end with the checksum. What comes from outside is an argument: the
  secret and ids drawn, the user's commands, the outcomes of disk writes and the clock.
  A phase returns \<open>Inl\<close> where the code returns \<open>Err\<close>.
\<close>

section \<open>Inputs of one run\<close>

text \<open>
  One turn of the receive loop: the commands other tasks run before it, the speed to
  report when the progress interval has passed, and whether a failed disk writer has
  already dropped its end of the channel when the turn sends to it.
\<close>

record recv_turn =
  rt_user :: "user_cmd list"
  rt_progress :: "rat option"
  rt_sees_writer :: bool

record recv_env =
  re_crypto :: crypto_lib
  re_codec :: meta_codec
  re_io :: io_env
  re_secret :: "byte list"
  re_addr :: string
  re_uuid :: string
  re_answer :: "user_cmd list"
  re_turns :: "recv_turn list"
  re_writes :: "string option list"
  re_elapsed :: rat

section \<open>Key exchange and metadata\<close>

definition tcp_recv_hello ::
  "crypto_lib \<Rightarrow> byte list \<Rightarrow> string \<Rightarrow> conn \<Rightarrow> (string + byte list) \<times> conn" where
  "tcp_recv_hello C secret addr c =
     (case conn_receive c of
        (Inl e, c) \<Rightarrow> (Inl (''Failed to read CLIENT_HELLO from '' @ addr @ '': '' @ e), c)
      | (Inr data, c) \<Rightarrow>
          if data = [] \<or> hd data \<noteq> 0x05 then
            (Inl ''Expected CLIENT_HELLO'', send_err ''Expected CLIENT_HELLO'' c)
          else if length (tl data) \<noteq> 32 then (Inl ''Invalid client pubkey'', c)
          else let kx = ecdh_new C secret;
                   hello_frame = 0x06 # public_key_bytes kx
               in case conn_send hello_frame c of
                    (Inl e, c) \<Rightarrow> (Inl (''Failed to send SERVER_HELLO to '' @ addr @ '': '' @ e), c)
                  | (Inr _, c) \<Rightarrow> (session_key C kx (tl data), c))"

definition tcp_recv_metadata ::
  "meta_codec \<Rightarrow> string \<Rightarrow> conn \<Rightarrow> (string + transfer_metadata) \<times> conn" where
  "tcp_recv_metadata M addr c =
     (case conn_receive c of
        (Inl e, c) \<Rightarrow> (Inl (''Failed to read METADATA from '' @ addr @ '': '' @ e), c)
      | (Inr meta_data, c) \<Rightarrow>
          if meta_data = [] \<or> hd meta_data \<noteq> 0x00 then
            (Inl ''Expected METADATA'', send_err ''Expected METADATA'' c)
          else case mc_dec M (tl meta_data) of
                 None \<Rightarrow> (Inl ''deserialization failed'', send_err ''Invalid metadata'' c)
               | Some md \<Rightarrow> (Inr md, c))"

section \<open>Decision and answer\<close>

text \<open>\<open>cmds\<close>: the commands run until the answer arrives or the sixty seconds are over.\<close>

definition tcp_recv_decide ::
  "string \<Rightarrow> string \<Rightarrow> transfer_metadata \<Rightarrow> user_cmd list \<Rightarrow> world \<Rightarrow> bool \<times> world" where
  "tcp_recv_decide request_id addr md cmds w =
     (let (rx, w) = pending_register request_id w;
          w = emit (Incoming request_id addr [] (md_file_name md) (md_file_size md)) w;
          w = apply_cmds cmds w
      in (pending_answer rx w, w))"

definition tcp_resume_point :: "transfer_metadata \<Rightarrow> u64 \<Rightarrow> u64 \<times> bool" where
  "tcp_resume_point md existing_len =
     (if \<not> md_force_restart md \<and> existing_len > 0 \<and> existing_len < md_file_size md
      then (align_block LAN_BLOCK_SIZE existing_len, True)
      else (0, False))"

definition accept_frame :: "u64 \<Rightarrow> byte list" where
  "accept_frame resume_offset =
     0x00 # (if resume_offset > 0
             then bytes_of (''ACCEPT:'' @ show_nat (unat resume_offset))
             else bytes_of ''ACCEPT'')"

definition existing_length :: "path \<Rightarrow> filesystem \<Rightarrow> u64" where
  "existing_length p fs = (case fs p of Some f \<Rightarrow> len64 f | None \<Rightarrow> 0)"

text \<open>The failure of \<open>create_dir_all\<close> is ignored here; opening the file fails later.\<close>

definition tcp_recv_accept ::
  "string \<Rightarrow> transfer_metadata \<Rightarrow> path \<Rightarrow> filesystem \<Rightarrow> conn \<Rightarrow> (string + u64 \<times> bool) \<times> conn" where
  "tcp_recv_accept addr md output_path fs c =
     (let (resume_offset, is_resume) = tcp_resume_point md (existing_length output_path fs)
      in case conn_send (accept_frame resume_offset) c of
           (Inl e, c) \<Rightarrow> (Inl (''Failed to send ACCEPT to '' @ addr @ '': '' @ e), c)
         | (Inr _, c) \<Rightarrow> (Inr (resume_offset, is_resume), c))"

section \<open>The decrypting disk writer\<close>

text \<open>
  The writer task handles the blocks of the channel in order; \<open>ws\<close> are the outcomes of its
  writes. A new file is created empty, a resumed one is opened for appending.
\<close>

fun decrypt_blocks ::
  "crypto_lib \<Rightarrow> byte list \<Rightarrow> byte list \<Rightarrow> string option list \<Rightarrow> (u64 \<times> byte list) list
     \<Rightarrow> fdata \<Rightarrow> (string + unit) \<times> fdata" where
  "decrypt_blocks C key prefix ws [] f = (Inr (), f)"
| "decrypt_blocks C key prefix ws ((blk_idx, encrypted) # bs) f =
     (case decrypt C key (build_nonce prefix blk_idx) encrypted of
        Inl e \<Rightarrow> (Inl (''Decryption failed for block '' @ show_nat (unat blk_idx) @ '': '' @ e), f)
      | Inr decrypted \<Rightarrow>
          (case ws of
             Some e # ws' \<Rightarrow> (Inl e, f)
           | _ \<Rightarrow> decrypt_blocks C key prefix (tl ws) bs (f @ decrypted)))"

record writer_ctx =
  wc_crypto :: crypto_lib
  wc_io :: io_env
  wc_key :: "byte list"
  wc_prefix :: "byte list"
  wc_path :: path
  wc_resume :: bool
  wc_writes :: "string option list"

definition tcp_writer ::
  "writer_ctx \<Rightarrow> (u64 \<times> byte list) list \<Rightarrow> filesystem \<Rightarrow> (string + unit) \<times> filesystem" where
  "tcp_writer x blocks fs =
     (let p = wc_path x in
      if \<not> io_writable (wc_io x) p then (Inl ''Permission denied'', fs)
      else if wc_resume x \<and> fs p = None then (Inl ''No such file or directory'', fs)
      else let f0 = (if wc_resume x then file_at p fs else []);
               (r, f) = decrypt_blocks (wc_crypto x) (wc_key x) (wc_prefix x) (wc_writes x) blocks f0
           in (r, fs(p \<mapsto> f)))"

section \<open>The receive loop\<close>

record recv_ctx =
  rc_writer :: writer_ctx
  rc_fs :: filesystem
  rc_addr :: string
  rc_id :: string
  rc_flag :: nat
  rc_total :: u64

record recv_state =
  rs_conn :: conn
  rs_world :: world
  rs_blocks :: "(u64 \<times> byte list) list"
  rs_block_index :: u64
  rs_bytes :: u64
  rs_hash :: string

datatype loop_ctl = Continue | Break | Return "string + unit"

definition recv_fail :: "string \<Rightarrow> string \<Rightarrow> recv_state \<Rightarrow> loop_ctl \<times> recv_state" where
  "recv_fail i e s = (Return (Inl e), s\<lparr>rs_world := remove_active i (rs_world s)\<rparr>)"

definition tcp_recv_chunk ::
  "recv_ctx \<Rightarrow> recv_turn \<Rightarrow> byte list \<Rightarrow> recv_state \<Rightarrow> loop_ctl \<times> recv_state" where
  "tcp_recv_chunk x t msg s =
     (if length msg < 6 then recv_fail (rc_id x) ''Malformed chunk frame'' s
      else if rt_sees_writer t \<and> fst (tcp_writer (rc_writer x) (rs_blocks s) (rc_fs x)) \<noteq> Inr () then
        recv_fail (rc_id x) ''Disk writer task died'' s
      else let ciphertext_len = word_of_nat (length msg) - 6;
               plaintext_len = sat_sub ciphertext_len 16;
               bytes = rs_bytes s + plaintext_len;
               w = (case rt_progress t of
                      None \<Rightarrow> rs_world s
                    | Some speed \<Rightarrow>
                        emit (Progress (rc_id x) bytes (rc_total x) speed)
                          (set_bytes (rc_id x) bytes (rs_world s)))
           in (Continue, s\<lparr>rs_blocks := rs_blocks s @ [(rs_block_index s, drop 6 msg)],
                 rs_block_index := rs_block_index s + 1, rs_bytes := bytes, rs_world := w\<rparr>))"

definition tcp_recv_frame ::
  "recv_ctx \<Rightarrow> recv_turn \<Rightarrow> byte list \<Rightarrow> recv_state \<Rightarrow> loop_ctl \<times> recv_state" where
  "tcp_recv_frame x t msg s =
     (if msg = [] then
        recv_fail (rc_id x) ''Empty message received''
          (s\<lparr>rs_conn := send_err ''Empty message'' (rs_conn s)\<rparr>)
      else if hd msg = 0x01 then tcp_recv_chunk x t msg s
      else if hd msg = 0x03 then (Break, s\<lparr>rs_hash := utf8_lossy (tl msg)\<rparr>)
      else if hd msg = 0x04 then
        (let err = utf8_lossy (tl msg) in
         if mentions_cancel err then recv_fail (rc_id x) ''cancelled'' s
         else recv_fail (rc_id x) (''Sender error: '' @ err) s)
      else recv_fail (rc_id x) (''Unexpected message tag: 0x'' @ hex_byte (hd msg))
        (s\<lparr>rs_world := remove_flag (rc_id x) (rs_world s)\<rparr>))"

definition tcp_recv_turn :: "recv_ctx \<Rightarrow> recv_turn \<Rightarrow> recv_state \<Rightarrow> loop_ctl \<times> recv_state" where
  "tcp_recv_turn x t s =
     (let s = s\<lparr>rs_world := apply_cmds (rt_user t) (rs_world s)\<rparr> in
      case wait_result (flag_at (rc_flag x) (rs_world s)) of
        None \<Rightarrow> (Continue, s)
      | Some True \<Rightarrow> (Return (Inl ''cancelled''), s)
      | Some False \<Rightarrow>
          (case conn_receive (rs_conn s) of
             (Inl e, c) \<Rightarrow> recv_fail (rc_id x)
               (''Network read error from '' @ rc_addr x @ '': '' @ e) (s\<lparr>rs_conn := c\<rparr>)
           | (Inr msg, c) \<Rightarrow> tcp_recv_frame x t msg (s\<lparr>rs_conn := c\<rparr>)))"

text \<open>
  A turn in which the flag stays paused reads nothing: the loop is still waiting. When the
  turns have run out before the loop ends the result is \<open>None\<close>.
\<close>

fun tcp_recv_loop :: "recv_ctx \<Rightarrow> recv_turn list \<Rightarrow> recv_state
    \<Rightarrow> ((string + unit) \<times> recv_state) option" where
  "tcp_recv_loop x [] s = None"
| "tcp_recv_loop x (t # ts) s =
     (case tcp_recv_turn x t s of
        (Continue, s') \<Rightarrow> tcp_recv_loop x ts s'
      | (Break, s') \<Rightarrow> Some (Inr (), s')
      | (Return r, s') \<Rightarrow> Some (r, s'))"

section \<open>The end of a transfer\<close>

type_synonym recv_result = "(string + unit) \<times> conn \<times> world \<times> filesystem"

definition tcp_recv_finish ::
  "'h hash_lib \<Rightarrow> recv_ctx \<Rightarrow> transfer_metadata \<Rightarrow> rat \<Rightarrow> recv_state \<Rightarrow> recv_result" where
  "tcp_recv_finish L x md elapsed s =
     (let p = wc_path (rc_writer x); i = rc_id x; c = rs_conn s; w = rs_world s;
          (wr, fs) = tcp_writer (rc_writer x) (rs_blocks s) (rc_fs x)
      in case wr of
           Inl _ \<Rightarrow> (Inl ''Disk flush failed'', c, remove_active i w, remove_file p fs)
         | Inr _ \<Rightarrow>
             (case verify_checksum L (wc_io (rc_writer x)) fs p (md_checksum md) of
                Inl e \<Rightarrow> (Inl e, c, remove_active i w, remove_file p fs)
              | Inr True \<Rightarrow>
                  (case conn_send (0x03 # bytes_of (rs_hash s)) c of
                     (Inl e, c) \<Rightarrow>
                       (Inl (''Failed to send COMPLETE ACK to '' @ rc_addr x @ '': '' @ e), c, w, fs)
                   | (Inr _, c) \<Rightarrow>
                       (Inr (), c,
                        remove_active i (emit (Complete i (path_text p) (to_hex (md_checksum md)) elapsed) w),
                        fs))
              | Inr False \<Rightarrow>
                  (Inl (''Checksum mismatch for '' @ md_file_name md @ '' from '' @ rc_addr x),
                   snd (conn_send (0x04 # bytes_of ''Checksum mismatch'') c),
                   remove_active i w, remove_file p fs)))"

definition tcp_recv_after_loop ::
  "'h hash_lib \<Rightarrow> recv_ctx \<Rightarrow> transfer_metadata \<Rightarrow> rat \<Rightarrow> string + unit \<Rightarrow> recv_state
     \<Rightarrow> recv_result" where
  "tcp_recv_after_loop L x md elapsed r s =
     (let p = wc_path (rc_writer x); i = rc_id x;
          w = remove_flag i (rs_world s);
          fs = snd (tcp_writer (rc_writer x) (rs_blocks s) (rc_fs x))
      in case r of
           Inl e \<Rightarrow>
             if mentions_cancel e then
               (Inl ''Transfer cancelled by user'',
                snd (conn_send (0x04 # bytes_of ''Transfer cancelled by user'') (rs_conn s)),
                emit (Cancelled i) (remove_active i w), remove_file p fs)
             else (Inl e, rs_conn s, w, remove_file p fs)
         | Inr _ \<Rightarrow> tcp_recv_finish L x md elapsed (s\<lparr>rs_world := w\<rparr>))"

definition tcp_recv_start ::
  "recv_env \<Rightarrow> transfer_metadata \<Rightarrow> path \<Rightarrow> byte list \<Rightarrow> u64 \<Rightarrow> bool \<Rightarrow> conn \<Rightarrow> world
     \<Rightarrow> filesystem \<Rightarrow> recv_ctx \<times> recv_state" where
  "tcp_recv_start E md p key resume_offset is_resume c w fs =
     (let i = re_uuid E;
          w = insert_active \<lparr>at_request_id = i, at_role = ''receiver'', at_status = ''transferring'',
                at_file_name = md_file_name md, at_total_bytes = md_file_size md,
                at_bytes_transferred = resume_offset\<rparr> w;
          (flag, w) = insert_flag i w
      in (\<lparr>rc_writer = \<lparr>wc_crypto = re_crypto E, wc_io = re_io E, wc_key = key,
              wc_prefix = md_nonce_prefix md, wc_path = p, wc_resume = is_resume,
              wc_writes = re_writes E\<rparr>,
           rc_fs = fs, rc_addr = re_addr E, rc_id = i, rc_flag = flag, rc_total = md_file_size md\<rparr>,
          \<lparr>rs_conn = c, rs_world = w, rs_blocks = [],
           rs_block_index = resume_offset div LAN_BLOCK_SIZE, rs_bytes = resume_offset,
           rs_hash = []\<rparr>))"

definition tcp_handle_incoming ::
  "'h hash_lib \<Rightarrow> recv_env \<Rightarrow> path \<Rightarrow> conn \<Rightarrow> world \<Rightarrow> filesystem \<Rightarrow> recv_result option" where
  "tcp_handle_incoming L E output_dir c w fs =
     (case tcp_recv_hello (re_crypto E) (re_secret E) (re_addr E) c of
        (Inl e, c) \<Rightarrow> Some (Inl e, c, w, fs)
      | (Inr key, c) \<Rightarrow>
     (case tcp_recv_metadata (re_codec E) (re_addr E) c of
        (Inl e, c) \<Rightarrow> Some (Inl e, c, w, fs)
      | (Inr md, c) \<Rightarrow>
     (case tcp_recv_decide (re_uuid E) (re_addr E) md (re_answer E) w of
        (False, w) \<Rightarrow> Some (Inl ''Transfer rejected'', send_err ''timeout'' c, w, fs)
      | (True, w) \<Rightarrow>
     (let p = path_join output_dir (path_of (md_file_name md)) in
      case tcp_recv_accept (re_addr E) md p fs c of
        (Inl e, c) \<Rightarrow> Some (Inl e, c, w, fs)
      | (Inr (resume_offset, is_resume), c) \<Rightarrow>
     (let (x, s) = tcp_recv_start E md p key resume_offset is_resume c w fs in
      map_option (\<lambda>(r, s). tcp_recv_after_loop L x md (re_elapsed E) r s)
        (tcp_recv_loop x (re_turns E) s))))))"

section \<open>Case analysis\<close>

lemma tcp_recv_loop_inv:
  assumes "tcp_recv_loop x ts s = Some (r, s')" "P s"
    and "\<And>t s. P s \<Longrightarrow> P (snd (tcp_recv_turn x t s))"
  shows "P s'"
  using assms(1,2)
proof (induction ts arbitrary: s)
  case Nil
  then show ?case by simp
next
  case (Cons t ts)
  with assms(3) [of s t] show ?case by (auto split: prod.splits loop_ctl.splits)
qed

lemma tcp_recv_loop_last:
  assumes "tcp_recv_loop x ts s = Some (r, s')"
  shows "\<exists>t s0. tcp_recv_turn x t s0 = (Break, s') \<and> r = Inr ()
      \<or> tcp_recv_turn x t s0 = (Return r, s')"
  using assms
proof (induction ts arbitrary: s)
  case Nil
  then show ?case by simp
next
  case (Cons t ts)
  then show ?case by (fastforce split: prod.splits loop_ctl.splits)
qed

lemma recv_fail_simps [simp]:
  "fst (recv_fail i e s) = Return (Inl e)"
  "rs_world (snd (recv_fail i e s)) = remove_active i (rs_world s)"
  "rs_conn (snd (recv_fail i e s)) = rs_conn s"
  "recv_fail i e s \<noteq> (Break, s')" "recv_fail i e s \<noteq> (Continue, s')"
  by (simp_all add: recv_fail_def)

lemma recv_fail_Return:
  "recv_fail i e s = (Return r, s') \<Longrightarrow> r = Inl e \<and> w_active (rs_world s') i = None"
  by (auto simp: recv_fail_def)

text \<open>A turn that ends the loop with an error other than a cancel has cleared the entry.\<close>

lemma tcp_recv_turn_Return:
  "tcp_recv_turn x t s = (Return r, s') \<Longrightarrow>
   \<exists>e. r = Inl e \<and> (mentions_cancel e \<or> w_active (rs_world s') (rc_id x) = None)"
  by (auto simp: tcp_recv_turn_def tcp_recv_frame_def tcp_recv_chunk_def Let_def
      dest!: recv_fail_Return split: option.splits bool.splits sum.splits prod.splits if_splits)

lemma tcp_recv_hello_world_free:
  "tcp_recv_decide i a md cmds w = (b, w') \<Longrightarrow>
   w' = apply_cmds cmds (emit (Incoming i a [] (md_file_name md) (md_file_size md))
          (snd (pending_register i w)))"
  by (simp add: tcp_recv_decide_def case_prod_beta Let_def)

text \<open>The metadata of a transfer that has been accepted: every phase before the loop has succeeded.\<close>

definition tcp_accepted ::
  "recv_env \<Rightarrow> path \<Rightarrow> conn \<Rightarrow> world \<Rightarrow> filesystem \<Rightarrow> transfer_metadata option" where
  "tcp_accepted E dir c w fs =
     (case tcp_recv_hello (re_crypto E) (re_secret E) (re_addr E) c of
        (Inl e, c) \<Rightarrow> None
      | (Inr key, c) \<Rightarrow>
     (case tcp_recv_metadata (re_codec E) (re_addr E) c of
        (Inl e, c) \<Rightarrow> None
      | (Inr md, c) \<Rightarrow>
     (case tcp_recv_decide (re_uuid E) (re_addr E) md (re_answer E) w of
        (False, w) \<Rightarrow> None
      | (True, w) \<Rightarrow>
     (case tcp_recv_accept (re_addr E) md (path_join dir (path_of (md_file_name md))) fs c of
        (Inl e, c) \<Rightarrow> None
      | (Inr off, c) \<Rightarrow> Some md))))"

lemma tcp_handle_incoming_cases:
  assumes "tcp_handle_incoming L E dir c w fs = Some (r, c', w', fs')"
  obtains (Early) e where "r = Inl e" "fs' = fs" "tcp_accepted E dir c w fs = None"
      "w_active w (re_uuid E) = None \<Longrightarrow> w_active w' (re_uuid E) = None"
      "w_flags w (re_uuid E) = None \<Longrightarrow> w_flags w' (re_uuid E) = None"
  | (Late) key md p off res c1 w1 x s rl s1 where
      "p = path_join dir (path_of (md_file_name md))" "tcp_accepted E dir c w fs = Some md"
      "tcp_recv_start E md p key off res c1 w1 fs = (x, s)"
      "tcp_recv_loop x (re_turns E) s = Some (rl, s1)"
      "tcp_recv_after_loop L x md (re_elapsed E) rl s1 = (r, c', w', fs')"
  using assms
  by (auto simp: tcp_handle_incoming_def tcp_accepted_def Let_def send_err_def apply_cmds_no_entry
      split: prod.splits sum.splits bool.splits dest!: tcp_recv_hello_world_free)

lemma tcp_recv_start_ctx:
  "tcp_recv_start E md p key off res c w fs = (x, s) \<Longrightarrow>
   rc_id x = re_uuid E \<and> rc_fs x = fs \<and> wc_path (rc_writer x) = p \<and> wc_io (rc_writer x) = re_io E"
  by (auto simp: tcp_recv_start_def Let_def split: prod.splits)

section \<open>What a run leaves behind\<close>

lemma tcp_writer_other: "q \<noteq> wc_path x \<Longrightarrow> snd (tcp_writer x bs fs) q = fs q"
  by (simp add: tcp_writer_def Let_def split: prod.splits)

lemma after_loop_flags:
  "tcp_recv_after_loop L x md el r s = (r', c', w', fs') \<Longrightarrow> w_flags w' (rc_id x) = None"
  by (auto simp: tcp_recv_after_loop_def tcp_recv_finish_def Let_def
      split: sum.splits prod.splits if_splits bool.splits)

text \<open>
  C11. The receiver cleans up after itself: whatever the peer sends, whenever the link or
  the disk fails and whatever the user does, a run that returns leaves no pause flag of
  its own and no entry in the table of active transfers, except in one case: when the
  file is complete and verified but the final acknowledgement cannot be sent, the entry
  stays.
\<close>

theorem tcp_recv_cleans_up:
  assumes "tcp_handle_incoming L E dir c w fs = Some (r, c', w', fs')"
    and "w_active w (re_uuid E) = None" "w_flags w (re_uuid E) = None"
  shows "w_flags w' (re_uuid E) = None
    \<and> (w_active w' (re_uuid E) = None
       \<or> (\<exists>e. r = Inl (''Failed to send COMPLETE ACK to '' @ re_addr E @ '': '' @ e)))"
  using assms(1)
proof (cases rule: tcp_handle_incoming_cases)
  case (Early e)
  with assms(2,3) show ?thesis by simp
next
  case (Late key md p off res c1 w1 x s rl s1)
  have id: "rc_id x = re_uuid E" and addr: "rc_addr x = re_addr E"
    using Late(3) by (auto simp: tcp_recv_start_def Let_def split: prod.splits)
  have "w_active w' (rc_id x) = None
      \<or> (\<exists>e. r = Inl (''Failed to send COMPLETE ACK to '' @ rc_addr x @ '': '' @ e))"
  proof (cases rl)
    case (Inl e)
    then have "mentions_cancel e \<or> w_active (rs_world s1) (rc_id x) = None"
      using tcp_recv_loop_last [OF Late(4)] tcp_recv_turn_Return by fastforce
    with Late(5) Inl show ?thesis
      by (auto simp: tcp_recv_after_loop_def Let_def split: if_splits)
  next
    case (Inr u)
    with Late(5) show ?thesis
      by (auto simp: tcp_recv_after_loop_def tcp_recv_finish_def Let_def
          split: sum.splits prod.splits if_splits bool.splits)
  qed
  with after_loop_flags [OF Late(5)] show ?thesis by (simp add: id addr)
qed

text \<open>
  C5. No corrupt file survives a failed transfer. A run that returns before it has accepted
  reports an error and leaves the file system as it was. After the accept it changes only the
  target file, and there are two ways to return: with an error and the target removed; or
  with a target that has the checksum its metadata announced, and then with success, unless
  the final acknowledgement cannot be sent.
\<close>

theorem tcp_recv_keeps_only_verified:
  assumes "tcp_handle_incoming L E dir c w fs = Some (r, c', w', fs')"
  shows "case tcp_accepted E dir c w fs of
      None \<Rightarrow> fs' = fs \<and> r \<noteq> Inr ()
    | Some md \<Rightarrow> (let p = path_join dir (path_of (md_file_name md)) in
         (\<forall>q. q \<noteq> p \<longrightarrow> fs' q = fs q)
         \<and> (fs' p = None \<and> r \<noteq> Inr ()
            \<or> verify_checksum L (re_io E) fs' p (md_checksum md) = Inr True
              \<and> (r = Inr () \<or> (\<exists>e. r = Inl (''Failed to send COMPLETE ACK to '' @ re_addr E @ '': '' @ e)))))"
  using assms
proof (cases rule: tcp_handle_incoming_cases)
  case (Early e)
  then show ?thesis by simp
next
  case (Late key md p off res c1 w1 x s rl s1)
  note ctx = tcp_recv_start_ctx [OF Late(3)]
  have addr: "rc_addr x = re_addr E" using Late(3) by (auto simp: tcp_recv_start_def Let_def split: prod.splits)
  have other: "\<forall>q. q \<noteq> p \<longrightarrow> fs' q = fs q"
    using Late(5) ctx tcp_writer_other [of _ "rc_writer x" "rs_blocks s1" fs]
    by (auto simp: tcp_recv_after_loop_def tcp_recv_finish_def Let_def remove_file_def
        split: sum.splits prod.splits if_splits bool.splits dest: sym)
  have "fs' p = None \<and> r \<noteq> Inr () \<or> verify_checksum L (re_io E) fs' p (md_checksum md) = Inr True
      \<and> (r = Inr () \<or> (\<exists>e. r = Inl (''Failed to send COMPLETE ACK to '' @ rc_addr x @ '': '' @ e)))"
    using Late(5) ctx
    by (auto simp: tcp_recv_after_loop_def tcp_recv_finish_def Let_def remove_file_def
        split: sum.splits prod.splits if_splits bool.splits)
  with other show ?thesis unfolding Late(1) Late(2) Let_def option.case addr by blast
qed

section \<open>Termination\<close>

lemma receive_message_shorter:
  "receive_message s = Inr (m, rest) \<Longrightarrow> length rest + 8 \<le> length s"
  by (auto simp: receive_message_def Let_def split: if_splits)

lemma tcp_recv_frame_Continue:
  "tcp_recv_frame x t msg s = (Continue, s') \<Longrightarrow>
   rs_conn s' = rs_conn s \<and> flag_at r (rs_world s') = flag_at r (rs_world s)"
  by (auto simp: tcp_recv_frame_def tcp_recv_chunk_def Let_def recv_fail_def
      split: if_splits option.splits)

lemma tcp_recv_turn_Continue:
  assumes "tcp_recv_turn x t s = (Continue, s')" "\<forall>c \<in> set (rt_user t). \<not> cmd_pauses c"
    and "\<not> is_paused (flag_at (rc_flag x) (rs_world s))"
  shows "length (cn_in (rs_conn s')) < length (cn_in (rs_conn s))
    \<and> \<not> is_paused (flag_at (rc_flag x) (rs_world s'))"
proof -
  let ?w = "apply_cmds (rt_user t) (rs_world s)"
  let ?s = "s\<lparr>rs_world := ?w\<rparr>"
  have run: "\<not> is_paused (flag_at (rc_flag x) ?w)"
    using apply_cmds_running assms(2,3) by blast
  with assms(1) have "wait_result (flag_at (rc_flag x) ?w) = Some False"
    by (auto simp: tcp_recv_turn_def Let_def wait_result_def split: if_splits)
  with assms(1) obtain msg rest where m: "receive_message (cn_in (rs_conn s)) = Inr (msg, rest)"
    and f: "tcp_recv_frame x t msg (?s\<lparr>rs_conn := (rs_conn s)\<lparr>cn_in := rest\<rparr>\<rparr>) = (Continue, s')"
    by (auto simp: tcp_recv_turn_def Let_def conn_receive_def recv_fail_def
        split: sum.splits prod.splits)
  from tcp_recv_frame_Continue [OF f, of "rc_flag x"] receive_message_shorter [OF m] run
  show ?thesis by simp
qed

lemma tcp_recv_loop_returns:
  assumes "\<forall>t \<in> set ts. \<forall>c \<in> set (rt_user t). \<not> cmd_pauses c"
    and "\<not> is_paused (flag_at (rc_flag x) (rs_world s))"
    and "length (cn_in (rs_conn s)) < length ts"
  shows "\<exists>r s'. tcp_recv_loop x ts s = Some (r, s')"
  using assms
proof (induction ts arbitrary: s)
  case Nil
  then show ?case by simp
next
  case (Cons t ts)
  show ?case
  proof (cases "\<exists>s'. tcp_recv_turn x t s = (Continue, s')")
    case True
    then obtain s' where s': "tcp_recv_turn x t s = (Continue, s')" by blast
    with tcp_recv_turn_Continue [OF s'] Cons show ?thesis by simp
  next
    case False
    then show ?thesis by (auto split: prod.splits loop_ctl.splits)
  qed
qed

lemma conn_receive_shorter:
  "conn_receive c = (r, c') \<Longrightarrow> length (cn_in c') \<le> length (cn_in c)"
  using receive_message_shorter by (fastforce simp: conn_receive_def split: sum.splits)

lemma conn_send_in: "conn_send m c = (r, c') \<Longrightarrow> cn_in c' = cn_in c"
  by (auto simp: conn_send_def split: list.splits option.splits)

lemma tcp_recv_hello_shorter:
  "tcp_recv_hello C sec a c = (r, c') \<Longrightarrow> length (cn_in c') \<le> length (cn_in c)"
  by (auto simp: tcp_recv_hello_def send_err_def Let_def dest!: conn_receive_shorter conn_send_in
      split: prod.splits sum.splits if_splits)

lemma tcp_recv_metadata_shorter:
  "tcp_recv_metadata M a c = (r, c') \<Longrightarrow> length (cn_in c') \<le> length (cn_in c)"
  by (auto simp: tcp_recv_metadata_def send_err_def dest!: conn_receive_shorter
      split: prod.splits sum.splits if_splits option.splits)

lemma tcp_recv_accept_in: "tcp_recv_accept a md p fs c = (r, c') \<Longrightarrow> cn_in c' = cn_in c"
  by (auto simp: tcp_recv_accept_def dest!: conn_send_in split: prod.splits sum.splits)

lemma tcp_recv_start_loop:
  "tcp_recv_start E md p key off res c w fs = (x, s) \<Longrightarrow>
   rs_conn s = c \<and> flag_at (rc_flag x) (rs_world s) = flag_new"
  by (auto simp: tcp_recv_start_def Let_def case_prod_beta)
     (metis flag_at_insert insert_active_fields(2))

text \<open>
  C12. The receiver returns: every turn in which the transfer is not paused reads a whole
  message, so if the user never pauses, a number of turns above the number of bytes the
  peer sends is enough for the run to come to its end, whatever those bytes are.
\<close>

theorem tcp_recv_returns:
  assumes "\<forall>t \<in> set (re_turns E). \<forall>c \<in> set (rt_user t). \<not> cmd_pauses c"
    and "length (cn_in c) < length (re_turns E)"
  shows "\<exists>res. tcp_handle_incoming L E dir c w fs = Some res"
proof -
  have loop: "\<exists>r s'. tcp_recv_loop x (re_turns E) s = Some (r, s')"
    if "tcp_recv_start E md p key off rsm c3 w2 fs = (x, s)"
      "length (cn_in c3) \<le> length (cn_in c)" for x s md p key off rsm c3 w2
    using that assms tcp_recv_start_loop [OF that(1)]
    by (intro tcp_recv_loop_returns) auto
  obtain r1 c1 where h: "tcp_recv_hello (re_crypto E) (re_secret E) (re_addr E) c = (r1, c1)"
    by fastforce
  obtain r2 c2 where m: "tcp_recv_metadata (re_codec E) (re_addr E) c1 = (r2, c2)" by fastforce
  have l: "length (cn_in c2) \<le> length (cn_in c)"
    using tcp_recv_hello_shorter [OF h] tcp_recv_metadata_shorter [OF m] by simp
  show ?thesis
  proof (cases "\<exists>e1. r1 = Inl e1 \<or> r2 = Inl e1")
    case True
    with h m show ?thesis by (cases r1) (auto simp: tcp_handle_incoming_def)
  next
    case False
    then obtain key md where km: "r1 = Inr key" "r2 = Inr md" by (meson sumE)
    obtain b w1 where d: "tcp_recv_decide (re_uuid E) (re_addr E) md (re_answer E) w = (b, w1)"
      by fastforce
    let ?p = "path_join dir (path_of (md_file_name md))"
    obtain r3 c3 where a: "tcp_recv_accept (re_addr E) md ?p fs c2 = (r3, c3)" by fastforce
    have l3: "length (cn_in c3) \<le> length (cn_in c)" using l tcp_recv_accept_in [OF a] by simp
    show ?thesis
    proof (cases "b \<and> (\<exists>a3. r3 = Inr a3)")
      case True
      then obtain off rsm where "b" "r3 = Inr (off, rsm)" by fastforce
      moreover obtain x s where st: "tcp_recv_start E md ?p key off rsm c3 w1 fs = (x, s)" by fastforce
      moreover obtain r s' where "tcp_recv_loop x (re_turns E) s = Some (r, s')"
        using loop [OF st l3] by blast
      ultimately have "tcp_handle_incoming L E dir c w fs
          = Some (tcp_recv_after_loop L x md (re_elapsed E) r s')"
        using h m km d a by (simp add: tcp_handle_incoming_def)
      then show ?thesis by blast
    next
      case False
      with h m km d a show ?thesis
        by (cases b; cases r3) (auto simp: tcp_handle_incoming_def)
    qed
  qed
qed

definition demo_recv_env :: "recv_turn list \<Rightarrow> user_cmd list \<Rightarrow> recv_env" where
  "demo_recv_env ts answer = \<lparr>re_crypto = demo_crypto,
     re_codec = \<lparr>mc_enc = (\<lambda>_. None), mc_dec = (\<lambda>_. None)\<rparr>,
     re_io = io_all, re_secret = [5], re_addr = ''10.0.0.2:50000'', re_uuid = ''u1'',
     re_answer = answer, re_turns = ts, re_writes = [], re_elapsed = 1\<rparr>"

definition plain_turn :: recv_turn where
  "plain_turn = \<lparr>rt_user = [], rt_progress = None, rt_sees_writer = False\<rparr>"

lemma tcp_recv_returns_witness:
  "\<exists>res. tcp_handle_incoming demo_hash (demo_recv_env (replicate 20 plain_turn) [RespondCmd ''u1'' True])
     (path_of ''/out'') (conn_open (replicate 10 0)) world_new Map.empty = Some res"
  by (rule tcp_recv_returns) (simp_all add: demo_recv_env_def plain_turn_def conn_open_def)

end
