(* ===== verification/Tcp_Session.thy ===== *)
theory Tcp_Session
  imports Tcp_Send Tcp_Recv
begin

text \<open>
  The two ends of the TCP protocol connected: each reads what the other writes. The
  theory follows a transfer through the phases of \<open>Tcp_Send\<close> and \<open>Tcp_Recv\<close> and states
  what arrives: the whole file for a fresh transfer and for a resume at a block boundary,
  a checksum mismatch and a deleted file for any other resume.
\<close>

section \<open>A session\<close>

definition tcp_session ::
  "'h hash_lib \<Rightarrow> send_env \<Rightarrow> recv_env \<Rightarrow> string \<Rightarrow> string \<Rightarrow> string \<Rightarrow> u16 \<Rightarrow> bool \<Rightarrow> path
     \<Rightarrow> world \<Rightarrow> filesystem \<Rightarrow> world \<Rightarrow> filesystem \<Rightarrow> byte list \<Rightarrow> byte list
     \<Rightarrow> (send_result \<times> recv_result) option" where
  "tcp_session L SE RE i p ip port force out sw sfs rw rfs s_in r_in =
     (case tcp_send_file L SE i p ip port force (conn_open s_in) sw sfs of
        None \<Rightarrow> None
      | Some (r1, c1, w1) \<Rightarrow>
          (case tcp_handle_incoming L RE out (conn_open r_in) rw rfs of
             None \<Rightarrow> None
           | Some (r2, c2, w2, fs2) \<Rightarrow>
               if cn_out c1 = r_in \<and> cn_out c2 = s_in
               then Some ((r1, c1, w1), (r2, c2, w2, fs2)) else None))"

definition crypto_ok :: "crypto_lib \<Rightarrow> bool" where
  "crypto_ok C \<longleftrightarrow> dh_agrees C \<and> aead_roundtrip C
     \<and> (\<forall>s k i. hkdf_expand C s k i \<noteq> None) \<and> (\<forall>k n p. chacha_encrypt C k n p \<noteq> None)"

text \<open>
  An undisturbed run: no user commands, no failing disk, files accessible, an accepting
  user, a serialisable metadata record, and turns enough for the blocks of the file.
\<close>

definition send_ready :: "send_env \<Rightarrow> string \<Rightarrow> u16 \<Rightarrow> filesystem \<Rightarrow> path \<Rightarrow> fdata \<Rightarrow> bool" where
  "send_ready E ip port fs p f \<longleftrightarrow>
     se_connects E \<and> parse_socket_addr (ip @ '':'' @ show_nat (unat port)) \<noteq> None
   \<and> fs p = Some f \<and> io_readable (se_io E) p \<and> length f < 2 ^ 62
   \<and> (\<forall>t \<in> set (se_turns E). st_user t = [] \<and> st_user_dequeue t = [])
   \<and> length (lan_blocks f) + 1 < length (se_turns E)"

definition recv_ready :: "recv_env \<Rightarrow> path \<Rightarrow> fdata \<Rightarrow> bool" where
  "recv_ready E p f \<longleftrightarrow>
     re_answer E = [RespondCmd (re_uuid E) True] \<and> re_writes E = []
   \<and> io_writable (re_io E) p \<and> io_readable (re_io E) p
   \<and> (\<forall>t \<in> set (re_turns E). rt_user t = [])
   \<and> length (lan_blocks f) + 1 < length (re_turns E)"

definition wire_ready :: "meta_codec \<Rightarrow> meta_codec \<Rightarrow> transfer_metadata \<Rightarrow> bool" where
  "wire_ready M N md \<longleftrightarrow>
     (\<exists>j. mc_enc M md = Some j \<and> mc_dec N j = Some md \<and> length j < 67108864)"

definition offered ::
  "'h hash_lib \<Rightarrow> send_env \<Rightarrow> filesystem \<Rightarrow> path \<Rightarrow> bool \<Rightarrow> transfer_metadata \<Rightarrow> bool" where
  "offered L E fs p force md \<longleftrightarrow>
     (\<exists>md0. create_metadata L (se_io E) fs p LAN_BLOCK_SIZE force (se_session_uuid E) = Inr md0
        \<and> md = md0\<lparr>md_nonce_prefix := generate_nonce_prefix (se_rng E)\<rparr>)"

section \<open>Phases\<close>

lemma fits_small: "length d \<le> 67108864 \<Longrightarrow> fits_payload d"
  by (simp add: fits_payload_def)

lemma session_key_total:
  "crypto_ok C \<Longrightarrow> \<exists>key. session_key C (ecdh_new C a) (public_key_bytes (ecdh_new C b)) = Inr key
     \<and> session_key C (ecdh_new C b) (public_key_bytes (ecdh_new C a)) = Inr key"
proof -
  assume C: "crypto_ok C"
  then obtain k where
    "hkdf_expand C SALT (x25519_shared C a (x25519_public C b)) INFO = Some k"
    unfolding crypto_ok_def by fastforce
  then have "session_key C (ecdh_new C a) (public_key_bytes (ecdh_new C b)) = Inr k"
    by (simp add: session_key_def derive_shared_secret_def derive_encryption_key_def
        ecdh_new_def public_key_bytes_def)
  moreover from this have "session_key C (ecdh_new C b) (public_key_bytes (ecdh_new C a)) = Inr k"
    using C session_key_agrees [of C a b] by (simp add: crypto_ok_def)
  ultimately show ?thesis by blast
qed

lemma length_public_key: "crypto_ok C \<Longrightarrow> length (public_key_bytes (ecdh_new C a)) = 32"
  by (simp add: crypto_ok_def dh_agrees_def public_key_bytes_def ecdh_new_def)

lemma tcp_send_hello_ok:
  assumes "crypto_ok C" "cn_sends c = []"
    and "cn_in c = send_message (0x06 # public_key_bytes (ecdh_new C b)) @ rest"
    and "session_key C (ecdh_new C a) (public_key_bytes (ecdh_new C b)) = Inr key"
  shows "tcp_send_hello C a c = (Inr key, c\<lparr>cn_in := rest,
    cn_out := cn_out c @ send_message (0x05 # public_key_bytes (ecdh_new C a))\<rparr>)"
proof -
  let ?m = "0x06 # public_key_bytes (ecdh_new C b)"
  have "fits_payload ?m" using length_public_key [OF assms(1), of b] by (intro fits_small) simp
  with assms length_public_key [OF assms(1), of b] show ?thesis
    by (simp add: tcp_send_hello_def conn_send_ok conn_receive_put Let_def tag_defs)
qed

lemma tcp_recv_hello_ok:
  assumes "crypto_ok C" "cn_sends c = []"
    and "cn_in c = send_message (0x05 # public_key_bytes (ecdh_new C a)) @ rest"
    and "session_key C (ecdh_new C b) (public_key_bytes (ecdh_new C a)) = Inr key"
  shows "tcp_recv_hello C b addr c = (Inr key, c\<lparr>cn_in := rest,
    cn_out := cn_out c @ send_message (0x06 # public_key_bytes (ecdh_new C b))\<rparr>)"
proof -
  let ?m = "0x05 # public_key_bytes (ecdh_new C a)"
  have "fits_payload ?m" using length_public_key [OF assms(1), of a] by (intro fits_small) simp
  with assms length_public_key [OF assms(1), of a] show ?thesis
    by (simp add: tcp_recv_hello_def conn_send_ok conn_receive_put Let_def)
qed

text \<open>The answer carries every offset.\<close>

lemma starts_with_append [simp]: "starts_with (p @ r) p"
  by (auto simp: starts_with_iff)

lemma parse_accept_frame: "parse_accept (accept_frame off) = Inr off"
proof (cases "off > 0")
  case True
  have a: "is_ascii (''ACCEPT:'' @ show_nat (unat off))"
    using is_ascii_show_nat [of "unat off"] by (simp add: is_ascii_def)
  have l: "utf8_lossy (bytes_of (''ACCEPT:'' @ show_nat (unat off)))
      = ''ACCEPT:'' @ show_nat (unat off)" by (rule utf8_lossy_ascii [OF a])
  have s: "starts_with (''ACCEPT:'' @ show_nat (unat off)) ''ACCEPT:''"
    by (rule starts_with_append)
  from True show ?thesis
    unfolding accept_frame_def parse_accept_def Let_def
    by (simp only: if_True list.sel list.distinct l s) (simp add: tag_defs parse_u64_show opt_default_def)
next
  case False
  have l: "utf8_lossy (bytes_of ''ACCEPT'') = ''ACCEPT''"
    by (rule utf8_lossy_ascii) (simp add: is_ascii_def)
  from False show ?thesis
    unfolding accept_frame_def parse_accept_def Let_def
    by (simp only: if_False list.sel list.distinct l) (simp add: tag_defs word_less_nat_alt unat_eq_0)
qed

lemma length_show_nat: "n < 10 ^ k \<Longrightarrow> 0 < k \<Longrightarrow> length (show_nat n) \<le> k"
proof (induction k arbitrary: n)
  case (Suc k)
  show ?case
  proof (cases "n < 10")
    case True
    then show ?thesis by (simp add: show_nat.simps)
  next
    case False
    then have "0 < k" using Suc.prems by (cases k) auto
    moreover have "n div 10 < 10 ^ k" using Suc.prems by (simp add: div_less_iff_less_mult mult.commute)
    ultimately have "length (show_nat (n div 10)) \<le> k" by (rule Suc.IH [rotated])
    with False show ?thesis by (subst show_nat.simps) simp
  qed
qed simp

lemma accept_frame_fits: "fits_payload (accept_frame off)"
proof -
  have "unat off < 10 ^ 20" using unat_u64_bound [of off] by simp
  then have "length (show_nat (unat off)) \<le> 20" by (rule length_show_nat) simp
  then show ?thesis by (intro fits_small) (simp add: accept_frame_def)
qed

section \<open>Sealed blocks\<close>

text \<open>The blocks of the channel when encryption succeeds: index and ciphertext.\<close>

fun seal :: "crypto_lib \<Rightarrow> byte list \<Rightarrow> byte list \<Rightarrow> u64 \<Rightarrow> byte list list
    \<Rightarrow> (u64 \<times> byte list) list" where
  "seal C key prefix i [] = []"
| "seal C key prefix i (b # bs) =
     (i, the (chacha_encrypt C key (build_nonce prefix i) b)) # seal C key prefix (i + 1) bs"

definition sealed_frames :: "(u64 \<times> byte list) list \<Rightarrow> byte list list" where
  "sealed_frames cs = map (\<lambda>(i, c). chunk_frame i c) cs"

lemma encrypt_some:
  "crypto_ok C \<Longrightarrow> \<exists>c. chacha_encrypt C key n b = Some c \<and> length c = length b + 16
     \<and> chacha_decrypt C key n c = Some b"
proof -
  assume C: "crypto_ok C"
  then obtain c where "chacha_encrypt C key n b = Some c" unfolding crypto_ok_def by fastforce
  with C show ?thesis by (auto simp: crypto_ok_def aead_roundtrip_def)
qed

lemma encrypt_blocks_seal:
  "crypto_ok C \<Longrightarrow> encrypt_blocks C key prefix i bs =
     (zip (sealed_frames (seal C key prefix i bs)) (map len64 bs), Inr ())"
proof (induction bs arbitrary: i)
  case Nil
  then show ?case by (simp add: sealed_frames_def)
next
  case (Cons b bs)
  obtain c where "chacha_encrypt C key (build_nonce prefix i) b = Some c"
    using encrypt_some [OF Cons.prems] by blast
  with Cons show ?case by (simp add: encrypt_def sealed_frames_def)
qed

lemma length_seal [simp]: "length (seal C key prefix i bs) = length bs"
  by (induction bs arbitrary: i) auto

lemma seal_append:
  "seal C key prefix i (xs @ bs) =
     seal C key prefix i xs @ seal C key prefix (i + word_of_nat (length xs)) bs"
  by (induction xs arbitrary: i) (simp_all add: ac_simps)

lemma decrypt_seal:
  "crypto_ok C \<Longrightarrow> decrypt_blocks C key prefix [] (seal C key prefix i bs) f = (Inr (), f @ concat bs)"
proof (induction bs arbitrary: i f)
  case Nil
  then show ?case by simp
next
  case (Cons b bs)
  obtain c where "chacha_encrypt C key (build_nonce prefix i) b = Some c"
    "chacha_decrypt C key (build_nonce prefix i) c = Some b"
    using encrypt_some [OF Cons.prems] by blast
  with Cons show ?case by (simp add: decrypt_def)
qed

section \<open>The two loops\<close>

lemma tcp_send_dequeue_ok:
  assumes "ss_frames s = (m, n) # frs" "cn_sends (ss_conn s) = []"
  shows "fst (tcp_send_dequeue x t s) = SendContinue"
    and "ss_frames (snd (tcp_send_dequeue x t s)) = frs"
    and "ss_conn (snd (tcp_send_dequeue x t s))
      = (ss_conn s)\<lparr>cn_out := cn_out (ss_conn s) @ send_message m\<rparr>"
    and "flag_at r (ss_world (snd (tcp_send_dequeue x t s))) = flag_at r (ss_world s)"
  using assms by (simp_all add: tcp_send_dequeue_def conn_send_ok Let_def split: option.splits)

lemma tcp_send_loop_ok:
  assumes "\<forall>t \<in> set ts. st_user t = [] \<and> st_user_dequeue t = []"
    and "length (ss_frames s) < length ts" "cn_sends (ss_conn s) = []"
    and "flag_at (sc_flag x) (ss_world s) = flag_new"
  shows "\<exists>s'. tcp_send_loop x ts s = Some (Inr (), s')
    \<and> ss_conn s' = (ss_conn s)\<lparr>cn_out := cn_out (ss_conn s)
        @ concat (map (send_message \<circ> fst) (ss_frames s))\<rparr>"
  using assms
proof (induction ts arbitrary: s)
  case Nil
  then show ?case by simp
next
  case (Cons t ts)
  have w: "wait_result flag_new = Some False" by (simp add: wait_result_def)
  have turn: "tcp_send_turn x t s = tcp_send_dequeue x t s"
    using Cons.prems w by (simp add: tcp_send_turn_def Let_def)
  show ?case
  proof (cases "ss_frames s")
    case Nil
    with turn show ?thesis by (simp add: tcp_send_dequeue_def)
  next
    case (Cons fr frs)
    obtain m n where fr: "fr = (m, n)" by (cases fr)
    define s' where "s' = snd (tcp_send_dequeue x t s)"
    note dq = tcp_send_dequeue_ok [OF Cons [unfolded fr] Cons.prems(3)]
    have s': "tcp_send_dequeue x t s = (SendContinue, s')"
      using dq(1) by (simp add: s'_def prod_eq_iff)
    have st: "ss_frames s' = frs" "cn_sends (ss_conn s') = []"
      "ss_conn s' = (ss_conn s)\<lparr>cn_out := cn_out (ss_conn s) @ send_message m\<rparr>"
      "flag_at (sc_flag x) (ss_world s') = flag_new"
      using dq Cons.prems(3,4) by (simp_all add: s'_def)
    have "\<exists>s''. tcp_send_loop x ts s' = Some (Inr (), s'')
      \<and> ss_conn s'' = (ss_conn s')\<lparr>cn_out := cn_out (ss_conn s')
        @ concat (map (send_message \<circ> fst) (ss_frames s'))\<rparr>"
    proof (rule Cons.IH)
      show "\<forall>t \<in> set ts. st_user t = [] \<and> st_user_dequeue t = []"
        using Cons.prems(1) by simp
      show "length (ss_frames s') < length ts" using Cons.prems(2) Cons st(1) by simp
    qed (use st in simp_all)
    with s' st turn Cons fr show ?thesis by (simp add: o_def)
  qed
qed

lemma tcp_writer_seal:
  assumes "crypto_ok (wc_crypto x)" "io_writable (wc_io x) (wc_path x)" "wc_writes x = []"
    and "wc_resume x \<longrightarrow> fs (wc_path x) \<noteq> None"
  shows "tcp_writer x (seal (wc_crypto x) (wc_key x) (wc_prefix x) i bs) fs =
    (Inr (), fs(wc_path x \<mapsto> (if wc_resume x then file_at (wc_path x) fs else []) @ concat bs))"
  using assms by (auto simp: tcp_writer_def decrypt_seal Let_def)

lemma chunk_frame_shape:
  "hd (chunk_frame i c) = 0x01" "drop 6 (chunk_frame i c) = c" "length (chunk_frame i c) = length c + 6"
  by (simp_all add: chunk_frame_def eval_nat_numeral)

definition block_sealed :: "recv_ctx \<Rightarrow> u64 \<Rightarrow> byte list list \<Rightarrow> (u64 \<times> byte list) list" where
  "block_sealed x i bs = seal (wc_crypto (rc_writer x)) (wc_key (rc_writer x)) (wc_prefix (rc_writer x)) i bs"

definition writer_ready :: "recv_ctx \<Rightarrow> bool" where
  "writer_ready x \<longleftrightarrow> crypto_ok (wc_crypto (rc_writer x))
     \<and> io_writable (wc_io (rc_writer x)) (wc_path (rc_writer x)) \<and> wc_writes (rc_writer x) = []
     \<and> (wc_resume (rc_writer x) \<longrightarrow> rc_fs x (wc_path (rc_writer x)) \<noteq> None)"

lemma writer_ready_ok: "writer_ready x \<Longrightarrow> fst (tcp_writer (rc_writer x) (block_sealed x i bs) (rc_fs x)) = Inr ()"
  by (simp add: writer_ready_def block_sealed_def tcp_writer_seal)

lemma tcp_recv_chunk_ok:
  assumes "writer_ready x" "rs_blocks s = block_sealed x i done"
  shows "fst (tcp_recv_chunk x t (chunk_frame j c) s) = Continue"
    and "rs_blocks (snd (tcp_recv_chunk x t (chunk_frame j c) s)) = rs_blocks s @ [(rs_block_index s, c)]"
    and "rs_block_index (snd (tcp_recv_chunk x t (chunk_frame j c) s)) = rs_block_index s + 1"
    and "rs_conn (snd (tcp_recv_chunk x t (chunk_frame j c) s)) = rs_conn s"
    and "flag_at r (rs_world (snd (tcp_recv_chunk x t (chunk_frame j c) s))) = flag_at r (rs_world s)"
  using assms writer_ready_ok [OF assms(1), of i "done"]
  by (simp_all add: tcp_recv_chunk_def chunk_frame_shape Let_def split: option.splits)

lemma sealed_frame_fits:
  assumes "crypto_ok C" "length b \<le> 4194304"
  shows "fits_payload (chunk_frame i (the (chacha_encrypt C key n b)))"
proof -
  obtain c where "chacha_encrypt C key n b = Some c" "length c = length b + 16"
    using encrypt_some [OF assms(1)] by blast
  with assms(2) show ?thesis by (intro fits_small) (simp add: chunk_frame_shape)
qed

lemma tcp_recv_loop_ok:
  assumes "writer_ready x" "\<forall>b \<in> set bs. length b \<le> 4194304"
    and "\<forall>t \<in> set ts. rt_user t = []" "length bs < length ts" "length h < 60000000"
    and "flag_at (rc_flag x) (rs_world s) = flag_new"
    and "rs_blocks s = block_sealed x i done"
    and "rs_block_index s = i + word_of_nat (length done)"
    and "cn_in (rs_conn s) = concat (map send_message
           (sealed_frames (block_sealed x (i + word_of_nat (length done)) bs)))
         @ send_message (0x03 # h) @ rest"
  shows "\<exists>s'. tcp_recv_loop x ts s = Some (Inr (), s')
    \<and> rs_conn s' = (rs_conn s)\<lparr>cn_in := rest\<rparr> \<and> rs_hash s' = utf8_lossy h
    \<and> rs_blocks s' = block_sealed x i (done @ bs)"
  using assms(2-)
proof (induction bs arbitrary: s ts "done")
  case Nil
  then obtain t ts' where ts: "ts = t # ts'" by (cases ts) auto
  have w: "wait_result flag_new = Some False" by (simp add: wait_result_def)
  have "fits_payload (0x03 # h)" using Nil.prems(4) by (intro fits_small) simp
  then have "conn_receive (rs_conn s) = (Inr (0x03 # h), (rs_conn s)\<lparr>cn_in := rest\<rparr>)"
    using Nil.prems(8) by (intro conn_receive_put) (simp_all add: sealed_frames_def block_sealed_def)
  with Nil.prems w ts show ?case
    by (simp add: tcp_recv_turn_def tcp_recv_frame_def Let_def)
next
  case (Cons b bs)
  then obtain t ts' where ts: "ts = t # ts'" by (cases ts) auto
  let ?i = "i + word_of_nat (length done)"
  define c where "c = the (chacha_encrypt (wc_crypto (rc_writer x)) (wc_key (rc_writer x))
    (build_nonce (wc_prefix (rc_writer x)) ?i) b)"
  let ?m = "chunk_frame ?i c"
  define more where "more = concat (map send_message
    (sealed_frames (block_sealed x (?i + 1) bs))) @ send_message (0x03 # h) @ rest"
  define s0 where "s0 = s\<lparr>rs_conn := (rs_conn s)\<lparr>cn_in := more\<rparr>\<rparr>"
  define s' where "s' = snd (tcp_recv_chunk x t ?m s0)"
  have w: "wait_result flag_new = Some False" by (simp add: wait_result_def)
  have fits: "fits_payload ?m"
    using assms(1) Cons.prems(1) sealed_frame_fits unfolding c_def writer_ready_def by simp
  have inp: "cn_in (rs_conn s) = send_message ?m @ more"
    using Cons.prems(8) by (simp add: more_def c_def block_sealed_def sealed_frames_def)
  have recv: "conn_receive (rs_conn s) = (Inr ?m, (rs_conn s)\<lparr>cn_in := more\<rparr>)"
    by (rule conn_receive_put [OF inp fits])
  have s0: "rs_blocks s0 = block_sealed x i done" "rs_world s0 = rs_world s"
    "rs_block_index s0 = ?i" "rs_conn s0 = (rs_conn s)\<lparr>cn_in := more\<rparr>"
    using Cons.prems(6,7) by (simp_all add: s0_def)
  note chunk = tcp_recv_chunk_ok [OF assms(1) s0(1)]
  have ne: "?m \<noteq> []" "hd ?m = 0x01" by (simp_all add: chunk_frame_def)
  have "tcp_recv_turn x t s = tcp_recv_chunk x t ?m s0"
    using Cons.prems(2,5) ts w recv ne
    by (simp add: tcp_recv_turn_def tcp_recv_frame_def Let_def s0_def)
  then have turn: "tcp_recv_turn x t s = (Continue, s')"
    using chunk(1) by (simp add: s'_def prod_eq_iff)
  have "\<exists>s''. tcp_recv_loop x ts' s' = Some (Inr (), s'')
    \<and> rs_conn s'' = (rs_conn s')\<lparr>cn_in := rest\<rparr> \<and> rs_hash s'' = utf8_lossy h
    \<and> rs_blocks s'' = block_sealed x i ((done @ [b]) @ bs)"
  proof (rule Cons.IH)
    show "\<forall>b \<in> set bs. length b \<le> 4194304" "\<forall>t \<in> set ts'. rt_user t = []"
      "length bs < length ts'" "length h < 60000000"
      using Cons.prems(1-4) ts by simp_all
    show "flag_at (rc_flag x) (rs_world s') = flag_new"
      using Cons.prems(5) by (simp add: s'_def chunk(5) s0(2))
    show "rs_blocks s' = block_sealed x i (done @ [b])"
      by (simp add: s'_def chunk(2) s0) (simp add: block_sealed_def seal_append c_def)
    show "rs_block_index s' = i + word_of_nat (length (done @ [b]))"
      by (simp add: s'_def chunk(3) s0)
    show "cn_in (rs_conn s') = concat (map send_message
           (sealed_frames (block_sealed x (i + word_of_nat (length (done @ [b]))) bs)))
         @ send_message (0x03 # h) @ rest"
      by (simp add: s'_def chunk(4) s0 more_def ac_simps)
  qed
  moreover have "rs_conn s' = (rs_conn s)\<lparr>cn_in := more\<rparr>"
    by (simp add: s'_def chunk(4) s0)
  ultimately show ?case by (simp add: ts turn)
qed

section \<open>Metadata and resume point\<close>

lemma offered_fields:
  assumes "offered L E fs p force md" "fs p = Some f" "streaming_hash L"
  shows "md_file_size md = len64 f" "md_checksum md = blake3_hash L f"
    "md_nonce_prefix md = generate_nonce_prefix (se_rng E)" "md_force_restart md = force"
    "md_file_name md = opt_default ''unknown'' (file_name p)"
  using assms hash_file_reader [OF assms(3), of 65536 f]
  by (auto simp: offered_def create_metadata_def Let_def split: if_splits)

lemma resume_point_cases:
  assumes "tcp_resume_point md (existing_length p fs) = (off, rsm)" "length g < 2 ^ 64"
    and "rsm \<longrightarrow> fs p = Some g \<longrightarrow> True"
  shows "off \<le> md_file_size md \<and> (rsm \<longrightarrow> fs p \<noteq> None) \<and> (\<not> rsm \<longrightarrow> off = 0)"
proof -
  have "align_block LAN_BLOCK_SIZE n \<le> n" for n
    by (simp add: word_le_nat_alt align_block_nat)
  with assms(1) show ?thesis
    by (force simp: tcp_resume_point_def existing_length_def split: if_splits option.splits
        intro: order_trans less_imp_le)
qed

lemma reader_ok:
  assumes "crypto_ok C" "streaming_hash L" "fs p = Some f" "io_readable io p" "unat off < 2 ^ 63"
  shows "tcp_reader L C io fs p key prefix off =
    (let bs = lan_blocks (drop (unat off) f) in
      (zip (sealed_frames (seal C key prefix (off div LAN_BLOCK_SIZE) bs)) (map len64 bs),
       Inr (to_hex (blake3_hash L f))))"
proof -
  have "foldl (hl_update L) (foldl (hl_update L) (hl_new L) (lan_blocks (take (unat off) f)))
      (lan_blocks (drop (unat off) f))
    = foldl (hl_update L) (hl_new L) (lan_blocks (take (unat off) f) @ lan_blocks (drop (unat off) f))"
    by (simp only: foldl_append)
  then have "hl_finalize L (foldl (hl_update L) (foldl (hl_update L) (hl_new L)
      (lan_blocks (take (unat off) f))) (lan_blocks (drop (unat off) f))) = blake3_hash L f"
    using streaming_hash_segs [OF assms(2), of "lan_blocks (take (unat off) f) @ lan_blocks (drop (unat off) f)"]
    by (simp only: concat_append concat_lan_blocks append_take_drop_id)
  with assms show ?thesis by (simp add: tcp_reader_def encrypt_blocks_seal Let_def)
qed

section \<open>The sender's side of a session\<close>

definition sender_stream ::
  "crypto_lib \<Rightarrow> byte list \<Rightarrow> byte list \<Rightarrow> byte list list \<Rightarrow> string \<Rightarrow> byte list" where
  "sender_stream C a j frames hash =
     send_message (0x05 # public_key_bytes (ecdh_new C a)) @ send_message (0x00 # j)
     @ concat (map send_message frames) @ send_message (0x03 # bytes_of hash)"

definition receiver_stream :: "crypto_lib \<Rightarrow> byte list \<Rightarrow> u64 \<Rightarrow> byte list \<Rightarrow> byte list" where
  "receiver_stream C b off final =
     send_message (0x06 # public_key_bytes (ecdh_new C b)) @ send_message (accept_frame off)
     @ send_message final"

definition final_outcome :: "string \<Rightarrow> byte list \<Rightarrow> string + string" where
  "final_outcome hash final =
     (if hd final = TAG_ERROR then Inl (''Receiver error: '' @ utf8_lossy (tl final)) else Inr hash)"

lemma tcp_send_metadata_ok:
  assumes "offered L E fs p force md" "mc_enc (se_codec E) md = Some j"
    and "cn_in c = send_message (accept_frame off) @ rest" "cn_sends c = []"
  shows "tcp_send_metadata L E fs p force (generate_nonce_prefix (se_rng E)) c =
    (Inr (md, off), c\<lparr>cn_in := rest, cn_out := cn_out c @ send_message (0x00 # j)\<rparr>)"
  using assms accept_frame_fits [of off]
  by (auto simp: tcp_send_metadata_def offered_def conn_send_ok conn_receive_put Let_def
      parse_accept_frame tag_defs)

lemma tcp_send_complete_ok:
  assumes "cn_in c = send_message final @ rest" "cn_sends c = []" "fits_payload final"
    and "final \<noteq> []" "hd final \<in> {TAG_ERROR, TAG_COMPLETE}"
  shows "\<exists>c'. tcp_send_complete hash c = (final_outcome hash final, c')
    \<and> cn_out c' = cn_out c @ send_message (0x03 # bytes_of hash)"
  using assms
  by (auto simp: tcp_send_complete_def conn_send_ok conn_receive_put final_outcome_def tag_defs)

lemma sender_runs:
  assumes C: "crypto_ok (se_crypto SE)" and L: "streaming_hash L"
    and ready: "send_ready SE ip port sfs (path_of p) f"
    and md: "offered L SE sfs (path_of p) force md" "mc_enc (se_codec SE) md = Some j"
    and key: "session_key (se_crypto SE) (ecdh_new (se_crypto SE) (se_secret SE))
      (public_key_bytes (ecdh_new (se_crypto SE) b)) = Inr key"
    and off: "unat off < 2 ^ 63"
    and fin: "fits_payload final" "final \<noteq> []" "hd final \<in> {TAG_ERROR, TAG_COMPLETE}"
  shows "\<exists>c w. tcp_send_file L SE i p ip port force
      (conn_open (receiver_stream (se_crypto SE) b off final)) sw sfs
    = Some (final_outcome (to_hex (blake3_hash L f)) final, c, w)
    \<and> cn_out c = sender_stream (se_crypto SE) (se_secret SE) j
        (sealed_frames (seal (se_crypto SE) key (md_nonce_prefix md) (off div LAN_BLOCK_SIZE)
           (lan_blocks (drop (unat off) f)))) (to_hex (blake3_hash L f))
    \<and> w_flags w i = None \<and> w_active w i = None"
proof -
  let ?C = "se_crypto SE" and ?hash = "to_hex (blake3_hash L f)"
  let ?bs = "lan_blocks (drop (unat off) f)"
  define frames where "frames = sealed_frames (seal ?C key (md_nonce_prefix md)
    (off div LAN_BLOCK_SIZE) ?bs)"
  have pre: "md_nonce_prefix md = generate_nonce_prefix (se_rng SE)"
    using md(1) by (auto simp: offered_def)
  have rdy: "sfs (path_of p) = Some f" "io_readable (se_io SE) (path_of p)"
    using ready by (simp_all add: send_ready_def)
  obtain w1 where conn: "tcp_send_connect (se_connects SE) i (path_of p) ip port sfs sw
      = (Inr (length (w_flag_store sw)), w1)"
    and flag: "flag_at (length (w_flag_store sw)) w1 = flag_new"
    using ready that
    by (auto simp: send_ready_def tcp_send_connect_def case_prod_beta Let_def flag_at_def)
  define c0 where "c0 = conn_open (receiver_stream ?C b off final)"
  define c1 where "c1 = c0\<lparr>cn_in := send_message (accept_frame off) @ send_message final,
    cn_out := send_message (0x05 # public_key_bytes (ecdh_new ?C (se_secret SE)))\<rparr>"
  have hello: "tcp_send_hello ?C (se_secret SE) c0 = (Inr key, c1)"
    using tcp_send_hello_ok [OF C _ _ key, of c0 "send_message (accept_frame off) @ send_message final"]
    by (simp add: c0_def c1_def conn_open_def receiver_stream_def)
  define c2 where "c2 = c1\<lparr>cn_in := send_message final, cn_out := cn_out c1 @ send_message (0x00 # j)\<rparr>"
  have meta: "tcp_send_metadata L SE sfs (path_of p) force (generate_nonce_prefix (se_rng SE)) c1
      = (Inr (md, off), c2)"
    using tcp_send_metadata_ok [OF md, of c1 off "send_message final"]
    by (simp add: c2_def c1_def c0_def conn_open_def)
  define s where "s = \<lparr>ss_conn = c2, ss_world = emit (SendStatus i ''transferring'') w1,
    ss_frames = zip frames (map len64 ?bs), ss_bytes = off\<rparr>"
  define x where "x = \<lparr>sc_id = i, sc_flag = length (w_flag_store sw), sc_total = md_file_size md\<rparr>"
  have "length frames = length ?bs" by (simp add: frames_def sealed_frames_def)
  moreover have "length ?bs \<le> length (lan_blocks f)"
    by (simp add: lan_blocks_def length_read_blocks_drop LAN_BLOCK_nat)
  ultimately have "length (ss_frames s) < length (se_turns SE)" "map fst (ss_frames s) = frames"
    using ready by (simp_all add: s_def send_ready_def)
  then obtain s' where loop: "tcp_send_loop x (se_turns SE) s = Some (Inr (), s')"
    and c3: "ss_conn s' = c2\<lparr>cn_out := cn_out c2 @ concat (map send_message frames)\<rparr>"
    using tcp_send_loop_ok [of "se_turns SE" s x] ready flag
    by (auto simp: send_ready_def s_def x_def c2_def c1_def c0_def conn_open_def
        simp flip: map_map)
  obtain c' where done_: "tcp_send_complete ?hash (ss_conn s') = (final_outcome ?hash final, c')"
    "cn_out c' = cn_out (ss_conn s') @ send_message (0x03 # bytes_of ?hash)"
    using tcp_send_complete_ok [of "ss_conn s'" final "[]" ?hash] fin c3
    by (auto simp: c2_def c1_def c0_def conn_open_def)
  have rd: "tcp_reader L ?C (se_io SE) sfs (path_of p) key (generate_nonce_prefix (se_rng SE)) off
      = (zip frames (map len64 ?bs), Inr ?hash)"
    using reader_ok [where fs = sfs and p = "path_of p", OF C L rdy off] by (simp add: frames_def pre Let_def)
  have "tcp_send_file L SE i p ip port force c0 sw sfs
      = Some (tcp_send_after_loop i (Inr ?hash) (Inr ()) s')"
    using conn hello meta rd loop by (simp add: tcp_send_file_def Let_def s_def x_def)
  moreover have "cn_out c' = sender_stream ?C (se_secret SE) j frames ?hash"
    by (simp add: done_(2) c3 c2_def c1_def sender_stream_def)
  ultimately show ?thesis
    by (simp add: tcp_send_after_loop_def done_(1) Let_def c0_def frames_def)
qed

section \<open>The receiver's side of a session\<close>

lemma tcp_recv_decide_ok:
  "\<exists>w'. tcp_recv_decide i addr md [RespondCmd i True] w = (True, w')"
  by (simp add: tcp_recv_decide_def pending_register_def pending_respond_def pending_answer_def
      Let_def split: option.splits)

lemma verify_whole:
  "streaming_hash L \<Longrightarrow> fs p = Some g \<Longrightarrow> io_readable io p \<Longrightarrow>
   verify_checksum L io fs p d = Inr (blake3_hash L g = d)"
  using hash_read_loop_segs [of "read_blocks 65536 g" L "hl_new L" "[]"] read_blocks_bounds [of _ 65536 g]
    streaming_hash_segs [of L "read_blocks 65536 g"]
  by (auto simp: verify_checksum_def file_reader_def)

definition receiver_final :: "string \<Rightarrow> bool \<Rightarrow> byte list" where
  "receiver_final hash valid =
     (if valid then 0x03 # bytes_of hash else 0x04 # bytes_of ''Checksum mismatch'')"

lemma tcp_recv_finish_ok:
  assumes "streaming_hash L" "writer_ready x" "io_readable (wc_io (rc_writer x)) (wc_path (rc_writer x))"
    and "rs_blocks s = block_sealed x i bs" "cn_sends (rs_conn s) = []"
    and got: "got = (if wc_resume (rc_writer x) then file_at (wc_path (rc_writer x)) (rc_fs x) else [])
      @ concat bs"
    and valid: "valid = (blake3_hash L got = md_checksum md)"
  shows "\<exists>r c w. tcp_recv_after_loop L x md elapsed (Inr ()) s =
      (r, c, w, (rc_fs x)(wc_path (rc_writer x) := (if valid then Some got else None)))
    \<and> (r = Inr ()) = valid
    \<and> w_flags w (rc_id x) = None \<and> w_active w (rc_id x) = None
    \<and> (valid \<longrightarrow> Complete (rc_id x) (path_text (wc_path (rc_writer x))) (to_hex (md_checksum md)) elapsed \<in> set (w_events w))
    \<and> cn_out c = cn_out (rs_conn s) @ send_message (receiver_final (rs_hash s) valid)"
proof -
  have wr: "tcp_writer (rc_writer x) (rs_blocks s) (rc_fs x)
      = (Inr (), (rc_fs x)(wc_path (rc_writer x) \<mapsto> got))"
    using assms(2,4) by (simp add: writer_ready_def block_sealed_def tcp_writer_seal got)
  have "verify_checksum L (wc_io (rc_writer x)) ((rc_fs x)(wc_path (rc_writer x) \<mapsto> got))
      (wc_path (rc_writer x)) (md_checksum md) = Inr valid"
    using assms(1,3) by (simp add: verify_whole valid)
  with wr assms(5) show ?thesis
    by (cases valid) (simp_all add: tcp_recv_after_loop_def tcp_recv_finish_def conn_send_ok
        receiver_final_def remove_file_def Let_def)
qed

lemma receiver_runs:
  assumes C: "crypto_ok (re_crypto RE)" and L: "streaming_hash L" "digest_32 L"
    and ready: "recv_ready RE tgt f"
    and tgt: "tgt = path_join out (path_of (md_file_name md))"
    and codec: "mc_dec (re_codec RE) j = Some md" "length j < 67108864"
    and key: "session_key (re_crypto RE) (ecdh_new (re_crypto RE) (re_secret RE))
      (public_key_bytes (ecdh_new (re_crypto RE) a)) = Inr key"
    and off: "tcp_resume_point md (existing_length tgt rfs) = (off, rsm)" "rsm \<longrightarrow> rfs tgt \<noteq> None"
    and got: "got = (if rsm then file_at tgt rfs else []) @ drop (unat off) f"
    and valid: "valid = (blake3_hash L got = md_checksum md)"
    and hash: "hash = to_hex (blake3_hash L f)"
  shows "\<exists>r c w. tcp_handle_incoming L RE out (conn_open (sender_stream (re_crypto RE) a j
      (sealed_frames (seal (re_crypto RE) key (md_nonce_prefix md) (off div LAN_BLOCK_SIZE)
        (lan_blocks (drop (unat off) f)))) hash)) rw rfs
      = Some (r, c, w, rfs(tgt := (if valid then Some got else None)))
    \<and> (r = Inr ()) = valid
    \<and> w_flags w (re_uuid RE) = None \<and> w_active w (re_uuid RE) = None
    \<and> (valid \<longrightarrow> Complete (re_uuid RE) (path_text tgt) (to_hex (md_checksum md)) (re_elapsed RE) \<in> set (w_events w))
    \<and> cn_out c = receiver_stream (re_crypto RE) (re_secret RE) off (receiver_final hash valid)"
proof -
  let ?C = "re_crypto RE" and ?bs = "lan_blocks (drop (unat off) f)"
  define frames where "frames = sealed_frames (seal ?C key (md_nonce_prefix md)
    (off div LAN_BLOCK_SIZE) ?bs)"
  define tail where "tail = concat (map send_message frames) @ send_message (0x03 # bytes_of hash)"
  define c0 where "c0 = conn_open (sender_stream ?C a j frames hash)"
  define c1 where "c1 = c0\<lparr>cn_in := send_message (0x00 # j) @ tail,
    cn_out := send_message (0x06 # public_key_bytes (ecdh_new ?C (re_secret RE)))\<rparr>"
  have hello: "tcp_recv_hello ?C (re_secret RE) (re_addr RE) c0 = (Inr key, c1)"
    using tcp_recv_hello_ok [OF C _ _ key, of c0 "send_message (0x00 # j) @ tail"]
    by (simp add: c0_def c1_def conn_open_def sender_stream_def tail_def)
  define c2 where "c2 = c1\<lparr>cn_in := tail\<rparr>"
  have "fits_payload (0x00 # j)" using codec(2) by (intro fits_small) simp
  then have "conn_receive c1 = (Inr (0x00 # j), c2)"
    unfolding c2_def by (rule conn_receive_put [rotated]) (simp add: c1_def)
  then have meta: "tcp_recv_metadata (re_codec RE) (re_addr RE) c1 = (Inr md, c2)"
    using codec(1) by (simp add: tcp_recv_metadata_def)
  obtain w1 where dec: "tcp_recv_decide (re_uuid RE) (re_addr RE) md (re_answer RE) rw = (True, w1)"
    using tcp_recv_decide_ok ready unfolding recv_ready_def by metis
  define c3 where "c3 = c2\<lparr>cn_out := cn_out c2 @ send_message (accept_frame off)\<rparr>"
  have acc: "tcp_recv_accept (re_addr RE) md tgt rfs c2 = (Inr (off, rsm), c3)"
    using off(1) by (simp add: tcp_recv_accept_def conn_send_ok c3_def c2_def c1_def c0_def conn_open_def)
  obtain x s where st: "tcp_recv_start RE md tgt key off rsm c3 w1 rfs = (x, s)" by fastforce
  have x: "wc_crypto (rc_writer x) = ?C" "wc_key (rc_writer x) = key"
    "wc_prefix (rc_writer x) = md_nonce_prefix md" "wc_path (rc_writer x) = tgt"
    "wc_io (rc_writer x) = re_io RE" "wc_writes (rc_writer x) = re_writes RE"
    "wc_resume (rc_writer x) = rsm" "rc_fs x = rfs" "rc_id x = re_uuid RE"
    and s: "rs_blocks s = []" "rs_block_index s = off div LAN_BLOCK_SIZE" "rs_conn s = c3"
    using st by (auto simp: tcp_recv_start_def case_prod_beta Let_def)
  have wr: "writer_ready x" using C ready off(2) by (simp add: writer_ready_def recv_ready_def x)
  have "length hash = 64" using L(2) by (simp add: hash blake3_hash_def digest_32_def)
  moreover have "length ?bs \<le> length (lan_blocks f)"
    by (simp add: lan_blocks_def length_read_blocks_drop LAN_BLOCK_nat)
  then have "length ?bs < length (re_turns RE)" using ready by (simp add: recv_ready_def)
  moreover have "\<forall>b \<in> set ?bs. length b \<le> 4194304" using lan_block_length by blast
  moreover have "flag_at (rc_flag x) (rs_world s) = flag_new" using tcp_recv_start_loop [OF st] by simp
  moreover have "cn_in (rs_conn s) = concat (map send_message (sealed_frames
      (block_sealed x (off div LAN_BLOCK_SIZE) ?bs))) @ send_message (0x03 # bytes_of hash) @ []"
    by (simp add: s c3_def c2_def tail_def frames_def block_sealed_def x)
  ultimately obtain s' where loop: "tcp_recv_loop x (re_turns RE) s = Some (Inr (), s')"
    and s': "rs_conn s' = c3\<lparr>cn_in := []\<rparr>" "rs_hash s' = utf8_lossy (bytes_of hash)"
      "rs_blocks s' = block_sealed x (off div LAN_BLOCK_SIZE) ?bs"
    using tcp_recv_loop_ok [OF wr, of ?bs "re_turns RE" "bytes_of hash" s "off div LAN_BLOCK_SIZE" "[]" "[]"]
      ready s by (auto simp: recv_ready_def block_sealed_def)
  have h: "rs_hash s' = hash" using s'(2) is_ascii_to_hex by (simp add: hash utf8_lossy_ascii)
  have io: "io_readable (wc_io (rc_writer x)) (wc_path (rc_writer x))" "cn_sends (rs_conn s') = []"
    using ready by (simp_all add: x recv_ready_def s' c3_def c2_def c1_def c0_def conn_open_def)
  have g: "got = (if wc_resume (rc_writer x) then file_at (wc_path (rc_writer x)) (rc_fs x) else [])
      @ concat ?bs"
    by (simp add: got x)
  obtain r c w where fin: "tcp_recv_after_loop L x md (re_elapsed RE) (Inr ()) s' =
      (r, c, w, rfs(tgt := (if valid then Some got else None)))" "(r = Inr ()) = valid"
    "w_flags w (re_uuid RE) = None \<and> w_active w (re_uuid RE) = None
      \<and> (valid \<longrightarrow> Complete (re_uuid RE) (path_text tgt) (to_hex (md_checksum md)) (re_elapsed RE) \<in> set (w_events w))"
    "cn_out c = cn_out (rs_conn s') @ send_message (receiver_final hash valid)"
    using tcp_recv_finish_ok [OF L(1) wr io(1) s'(3) io(2) g valid, of "re_elapsed RE"]
    unfolding x h by blast
  have "tcp_handle_incoming L RE out c0 rw rfs = Some (r, c, w, rfs(tgt := (if valid then Some got else None)))"
    using hello meta dec acc st loop fin(1) by (simp add: tcp_handle_incoming_def Let_def flip: tgt)
  moreover have "cn_out c = receiver_stream ?C (re_secret RE) off (receiver_final hash valid)"
    by (simp add: fin(4) s' c3_def c2_def c1_def receiver_stream_def)
  ultimately show ?thesis using fin(2,3) by (auto simp: c0_def frames_def)
qed

lemma tcp_session_receiver:
  "tcp_session L SE RE i p ip port force out sw sfs rw rfs s_in r_in = Some (sr, rr) \<Longrightarrow>
   tcp_handle_incoming L RE out (conn_open r_in) rw rfs = Some rr"
  by (simp add: tcp_session_def split: option.splits prod.splits if_splits)

section \<open>What arrives\<close>

definition tcp_setting ::
  "'h hash_lib \<Rightarrow> send_env \<Rightarrow> recv_env \<Rightarrow> string \<Rightarrow> string \<Rightarrow> u16 \<Rightarrow> bool \<Rightarrow> path \<Rightarrow> fdata
     \<Rightarrow> filesystem \<Rightarrow> transfer_metadata \<Rightarrow> path \<Rightarrow> bool" where
  "tcp_setting L SE RE p ip port force out f sfs md tgt \<longleftrightarrow>
     crypto_ok (se_crypto SE) \<and> re_crypto RE = se_crypto SE \<and> streaming_hash L \<and> digest_32 L
   \<and> send_ready SE ip port sfs (path_of p) f \<and> offered L SE sfs (path_of p) force md
   \<and> wire_ready (se_codec SE) (re_codec RE) md
   \<and> tgt = path_join out (path_of (md_file_name md)) \<and> recv_ready RE tgt f"

lemma setting_md:
  assumes "tcp_setting L SE RE p ip port force out f sfs md tgt"
  shows "md_file_size md = len64 f" "md_checksum md = blake3_hash L f" "md_force_restart md = force"
    "length f < 2 ^ 62"
  using assms offered_fields [of L SE sfs "path_of p" force md f]
  by (simp_all add: tcp_setting_def send_ready_def)

lemma tcp_session_outcome:
  assumes S: "tcp_setting L SE RE p ip port force out f sfs md tgt"
    and res: "tcp_resume_point md (existing_length tgt rfs) = (off, rsm)"
    and got: "got = (if rsm then file_at tgt rfs else []) @ drop (unat off) f"
    and valid: "valid = (blake3_hash L got = blake3_hash L f)"
  shows "\<exists>s_in r_in c1 w1 r2 c2 w2.
    tcp_session L SE RE i p ip port force out sw sfs rw rfs s_in r_in =
      Some ((if valid then Inr (to_hex (blake3_hash L f)) else Inl ''Receiver error: Checksum mismatch'',
             c1, w1),
            (r2, c2, w2, rfs(tgt := (if valid then Some got else None))))
    \<and> (r2 = Inr ()) = valid
    \<and> w_flags w1 i = None \<and> w_active w1 i = None \<and> w_flags w2 (re_uuid RE) = None \<and> w_active w2 (re_uuid RE) = None
    \<and> (valid \<longrightarrow> Complete (re_uuid RE) (path_text tgt) (to_hex (blake3_hash L f)) (re_elapsed RE) \<in> set (w_events w2))"
proof -
  let ?C = "se_crypto SE" and ?hash = "to_hex (blake3_hash L f)"
  have C: "crypto_ok ?C" "crypto_ok (re_crypto RE)" and rc: "re_crypto RE = ?C"
    and L: "streaming_hash L" "digest_32 L"
    and sr: "send_ready SE ip port sfs (path_of p) f" and of': "offered L SE sfs (path_of p) force md"
    and wr: "wire_ready (se_codec SE) (re_codec RE) md"
    and tgt: "tgt = path_join out (path_of (md_file_name md))" and rr: "recv_ready RE tgt f"
    using S unfolding tcp_setting_def by (blast, simp, blast+)
  obtain j where j: "mc_enc (se_codec SE) md = Some j" "mc_dec (re_codec RE) j = Some md"
    "length j < 67108864" using wr by (auto simp: wire_ready_def)
  obtain key where k1: "session_key ?C (ecdh_new ?C (se_secret SE))
      (public_key_bytes (ecdh_new ?C (re_secret RE))) = Inr key"
    and k2: "session_key ?C (ecdh_new ?C (re_secret RE))
      (public_key_bytes (ecdh_new ?C (se_secret SE))) = Inr key"
    using session_key_total [OF C(1), of "se_secret SE" "re_secret RE"] by blast
  have off: "off \<le> len64 f" "rsm \<longrightarrow> rfs tgt \<noteq> None"
    using resume_point_cases [OF res, of "[]"] setting_md(1) [OF S] by simp_all
  have "unat (len64 f) < 2 ^ 62" using setting_md(4) [OF S] by (simp add: unat_len64)
  with off(1) have off63: "unat off < 2 ^ 63" by (simp add: word_le_nat_alt)
  let ?fin = "receiver_final ?hash valid"
  have "length ?hash = 64" using L(2) by (simp add: blake3_hash_def digest_32_def)
  then have fin: "fits_payload ?fin" "?fin \<noteq> []" "hd ?fin \<in> {TAG_ERROR, TAG_COMPLETE}"
    by (auto simp: receiver_final_def tag_defs intro: fits_small)
  have "utf8_lossy (bytes_of ''Checksum mismatch'') = ''Checksum mismatch''"
    by (rule utf8_lossy_ascii) (simp add: is_ascii_def)
  then have fo: "final_outcome ?hash ?fin = (if valid then Inr ?hash
      else Inl ''Receiver error: Checksum mismatch'')"
    by (simp add: final_outcome_def receiver_final_def tag_defs)
  have v: "valid = (blake3_hash L got = md_checksum md)"
    using valid setting_md(2) [OF S] by simp
  obtain c1 w1 where s: "tcp_send_file L SE i p ip port force
      (conn_open (receiver_stream ?C (re_secret RE) off ?fin)) sw sfs
      = Some (final_outcome ?hash ?fin, c1, w1)"
    "cn_out c1 = sender_stream ?C (se_secret SE) j (sealed_frames (seal ?C key (md_nonce_prefix md)
        (off div LAN_BLOCK_SIZE) (lan_blocks (drop (unat off) f)))) ?hash"
    "w_flags w1 i = None" "w_active w1 i = None"
    using sender_runs [OF C(1) L(1) sr of' j(1) k1 off63 fin] by blast
  obtain r2 c2 w2 where r: "tcp_handle_incoming L RE out (conn_open (cn_out c1)) rw rfs
      = Some (r2, c2, w2, rfs(tgt := (if valid then Some got else None)))" "(r2 = Inr ()) = valid"
    "w_flags w2 (re_uuid RE) = None \<and> w_active w2 (re_uuid RE) = None
      \<and> (valid \<longrightarrow> Complete (re_uuid RE) (path_text tgt) (to_hex (md_checksum md)) (re_elapsed RE) \<in> set (w_events w2))"
    "cn_out c2 = receiver_stream ?C (re_secret RE) off ?fin"
    using receiver_runs [OF C(2) L rr tgt j(2,3) _ res off(2) got v refl] k2
    unfolding rc s(2) by blast
  show ?thesis
    by (rule exI [of _ "cn_out c2"], rule exI [of _ "cn_out c1"])
       (use s(1,3,4) r fo setting_md(2) [OF S] in \<open>simp add: tcp_session_def r(4)\<close>)
qed

text \<open>
  C1. A transfer delivers the file: with a new target, a forced restart, or an existing
  file that is not shorter, the two programs run to the end together, both report
  success and the digest of the sent file, the target holds exactly the sender's file,
  nothing else has changed, and the transfer has left the tables of flags and of active
  transfers on both sides.
\<close>

theorem tcp_session_delivers:
  assumes "tcp_setting L SE RE p ip port force out f sfs md tgt"
    and "force \<or> rfs tgt = None \<or> (\<exists>g. rfs tgt = Some g \<and> length f \<le> length g \<and> length g < 2 ^ 64)"
  shows "\<exists>s_in r_in c1 w1 c2 w2.
    tcp_session L SE RE i p ip port force out sw sfs rw rfs s_in r_in =
      Some ((Inr (to_hex (blake3_hash L f)), c1, w1), (Inr (), c2, w2, rfs(tgt \<mapsto> f)))
    \<and> w_flags w1 i = None \<and> w_active w1 i = None \<and> w_flags w2 (re_uuid RE) = None \<and> w_active w2 (re_uuid RE) = None
    \<and> Complete (re_uuid RE) (path_text tgt) (to_hex (blake3_hash L f)) (re_elapsed RE) \<in> set (w_events w2)"
proof -
  have "len64 f \<le> len64 g" if "length f \<le> length g" "length g < 2 ^ 64" for g :: fdata
    using that by (simp add: word_le_nat_alt unat_len64)
  then have "tcp_resume_point md (existing_length tgt rfs) = (0, False)"
    using assms(2) setting_md [OF assms(1)]
    by (force simp: tcp_resume_point_def existing_length_def split: option.splits)
  from tcp_session_outcome [OF assms(1) this refl refl, of i sw rw] show ?thesis by (auto simp: setting_md(2) [OF assms(1)])
qed

text \<open>
  C2. A resume at a block boundary works: an existing proper prefix of a positive number
  of whole 4 MB blocks is kept, only the rest is requested, and the target becomes exactly
  the sender's file.
\<close>

theorem tcp_session_resumes:
  assumes "tcp_setting L SE RE p ip port False out f sfs md tgt"
    and "rfs tgt = Some g" "f = g @ rest" "rest \<noteq> []" "length g = k * 4194304" "0 < k"
  shows "tcp_resume_point md (existing_length tgt rfs) = (len64 g, True)
    \<and> (\<exists>s_in r_in c1 w1 c2 w2.
      tcp_session L SE RE i p ip port False out sw sfs rw rfs s_in r_in =
        Some ((Inr (to_hex (blake3_hash L f)), c1, w1), (Inr (), c2, w2, rfs(tgt \<mapsto> f))))"
proof
  have l: "length f < 2 ^ 62" "length g < length f"
    using setting_md(4) [OF assms(1)] assms(3,4) by simp_all
  then have n: "unat (len64 f) = length f" "unat (len64 g) = length g"
    by (simp_all add: unat_len64)
  have a: "align_block LAN_BLOCK_SIZE (len64 g) = len64 g"
    using assms(5) by (simp add: word_unat_eq_iff align_block_nat n LAN_BLOCK_nat)
  show res: "tcp_resume_point md (existing_length tgt rfs) = (len64 g, True)"
    using setting_md(1,3) [OF assms(1)] assms(2,5,6) l n a
    by (simp add: tcp_resume_point_def existing_length_def word_less_nat_alt)
  from tcp_session_outcome [OF assms(1) res refl refl, of i sw rw]
  show "\<exists>s_in r_in c1 w1 c2 w2.
      tcp_session L SE RE i p ip port False out sw sfs rw rfs s_in r_in =
        Some ((Inr (to_hex (blake3_hash L f)), c1, w1), (Inr (), c2, w2, rfs(tgt \<mapsto> f)))"
    using assms(2,3) by (simp add: file_at_def opt_default_def n) blast
qed

text \<open>
  C3. Any other resume destroys the partial file: when the existing proper prefix does
  not end at a block boundary, the receiver asks for data from the last boundary but
  appends it to the whole prefix. Unless the digests collide, the checksum then fails, both
  sides report an error and the partial file is deleted.
\<close>

theorem tcp_unaligned_resume_fails:
  assumes "tcp_setting L SE RE p ip port False out f sfs md tgt"
    and "rfs tgt = Some g" "f = g @ rest" "rest \<noteq> []" "length g mod 4194304 \<noteq> 0"
    and got: "got = g @ drop (length g div 4194304 * 4194304) f"
    and "blake3_hash L got \<noteq> blake3_hash L f \<or> got = f"
  shows "\<exists>s_in r_in c1 w1 e c2 w2.
    tcp_session L SE RE i p ip port False out sw sfs rw rfs s_in r_in =
      Some ((Inl ''Receiver error: Checksum mismatch'', c1, w1), (Inl e, c2, w2, rfs(tgt := None)))"
proof -
  have l: "length f < 2 ^ 62" "length g < length f"
    using setting_md(4) [OF assms(1)] assms(3,4) by simp_all
  then have n: "unat (len64 f) = length f" "unat (len64 g) = length g"
    by (simp_all add: unat_len64)
  define off where "off = align_block LAN_BLOCK_SIZE (len64 g)"
  have un: "unat off = length g div 4194304 * 4194304"
    by (simp add: off_def align_block_nat n LAN_BLOCK_nat)
  moreover have "length g div 4194304 * 4194304 + length g mod 4194304 = length g" by simp
  ultimately have off: "unat off < length g" using assms(5) by linarith
  have "0 < length g" using assms(5) by (cases g) auto
  then have res: "tcp_resume_point md (existing_length tgt rfs) = (off, True)"
    using setting_md(1,3) [OF assms(1)] assms(2) l n
    by (simp add: tcp_resume_point_def existing_length_def word_less_nat_alt off_def)
  have "length got \<noteq> length f" using off l by (simp add: got flip: un)
  then have bad: "blake3_hash L got \<noteq> blake3_hash L f" using assms(7) by auto
  have g: "got = (if True then file_at tgt rfs else []) @ drop (unat off) f"
    using assms(2) by (simp add: got un file_at_def opt_default_def)
  obtain s_in r_in c1 w1 r2 c2 w2 where "tcp_session L SE RE i p ip port False out sw sfs rw rfs s_in r_in
      = Some ((Inl ''Receiver error: Checksum mismatch'', c1, w1), (r2, c2, w2, rfs(tgt := None)))"
    "r2 \<noteq> Inr ()"
    using tcp_session_outcome [OF assms(1) res g refl, of i sw rw] bad by auto
  moreover from this(2) obtain e where "r2 = Inl e" by (cases r2) auto
  ultimately show ?thesis by blast
qed

section \<open>A concrete session\<close>

definition demo_path :: string where "demo_path = ''/a/b''"

definition demo_meta :: "fdata \<Rightarrow> transfer_metadata" where
  "demo_meta f =
     (case create_metadata demo_hash io_all [path_of demo_path \<mapsto> f] (path_of demo_path)
             LAN_BLOCK_SIZE False ''m1'' of
        Inr md0 \<Rightarrow> md0\<lparr>md_nonce_prefix := generate_nonce_prefix (\<lambda>n. of_nat n)\<rparr>
      | Inl e \<Rightarrow> \<lparr>md_session_id = e, md_file_name = [], md_file_path = path_of [], md_file_size = 0,
          md_chunk_size = 0, md_total_chunks = 0, md_checksum = [], md_resume_offset = 0,
          md_is_resume = False, md_nonce_prefix = [], md_force_restart = False\<rparr>)"

definition demo_codec :: "fdata \<Rightarrow> meta_codec" where
  "demo_codec f = \<lparr>mc_enc = (\<lambda>m. if m = demo_meta f then Some [1] else None),
     mc_dec = (\<lambda>j. if j = [1] then Some (demo_meta f) else None)\<rparr>"

definition plain_send :: send_turn where
  "plain_send = \<lparr>st_user = [], st_user_dequeue = [], st_progress = None\<rparr>"

definition demo_SE :: "fdata \<Rightarrow> send_env" where
  "demo_SE f = demo_send_env (demo_codec f) (replicate (length (lan_blocks f) + 2) plain_send)"

definition demo_RE :: "fdata \<Rightarrow> recv_env" where
  "demo_RE f = (demo_recv_env (replicate (length (lan_blocks f) + 2) plain_turn)
     [RespondCmd ''u1'' True])\<lparr>re_codec := demo_codec f\<rparr>"

definition demo_target :: "fdata \<Rightarrow> path" where
  "demo_target f = path_join (path_of ''/out'') (path_of (md_file_name (demo_meta f)))"

lemma demo_crypto_ok: "crypto_ok demo_crypto"
proof -
  have "hkdf_expand demo_crypto s k i \<noteq> None" "chacha_encrypt demo_crypto k s p \<noteq> None" for s k i p
    by (simp_all add: demo_crypto_def)
  then show ?thesis by (simp add: crypto_ok_def demo_crypto_dh demo_crypto_aead)
qed

lemma demo_offered: "offered demo_hash (demo_SE f) [path_of demo_path \<mapsto> f] (path_of demo_path) False (demo_meta f)"
proof -
  obtain md0 where "create_metadata demo_hash io_all [path_of demo_path \<mapsto> f] (path_of demo_path)
      LAN_BLOCK_SIZE False ''m1'' = Inr md0"
    using create_metadata_ok [of "[path_of demo_path \<mapsto> f]" "path_of demo_path" f io_all demo_hash
        LAN_BLOCK_SIZE False "''m1''"]
    by (force simp: io_all_def)
  then show ?thesis
    by (simp add: offered_def demo_SE_def demo_send_env_def demo_meta_def)
qed

lemma demo_setting:
  assumes "length f < 2 ^ 62"
  shows "tcp_setting demo_hash (demo_SE f) (demo_RE f) demo_path ''10.0.0.2'' 9877 False
    (path_of ''/out'') f [path_of demo_path \<mapsto> f] (demo_meta f) (demo_target f)"
proof -
  have "send_ready (demo_SE f) ''10.0.0.2'' 9877 [path_of demo_path \<mapsto> f] (path_of demo_path) f"
    using assms parse_demo_addr
    by (simp add: send_ready_def demo_SE_def demo_send_env_def io_all_def plain_send_def)
  moreover have "recv_ready (demo_RE f) (demo_target f) f"
    by (simp add: recv_ready_def demo_RE_def demo_recv_env_def io_all_def plain_turn_def)
  moreover have "wire_ready (se_codec (demo_SE f)) (re_codec (demo_RE f)) (demo_meta f)"
    by (simp add: wire_ready_def demo_SE_def demo_send_env_def demo_RE_def demo_codec_def)
  ultimately show ?thesis
    using demo_offered [of f] demo_crypto_ok demo_hash_streaming demo_hash_digest
    by (simp add: tcp_setting_def demo_SE_def demo_RE_def demo_send_env_def demo_recv_env_def
        demo_target_def)
qed

lemma demo_uuid: "re_uuid (demo_RE f) = ''u1''"
  by (simp add: demo_RE_def demo_recv_env_def)

lemma tcp_session_delivers_witness:
  "\<exists>s_in r_in c1 w1 c2 w2.
    tcp_session demo_hash (demo_SE [1, 2, 3]) (demo_RE [1, 2, 3]) ''r1'' demo_path ''10.0.0.2'' 9877 False
      (path_of ''/out'') world_new [path_of demo_path \<mapsto> [1, 2, 3]] world_new Map.empty s_in r_in =
      Some ((Inr (to_hex (blake3_hash demo_hash [1, 2, 3])), c1, w1),
            (Inr (), c2, w2, [demo_target [1, 2, 3] \<mapsto> [1, 2, 3]]))
    \<and> w_flags w1 ''r1'' = None \<and> w_active w1 ''r1'' = None \<and> w_flags w2 ''u1'' = None \<and> w_active w2 ''u1'' = None
    \<and> Complete ''u1'' (path_text (demo_target [1, 2, 3])) (to_hex (blake3_hash demo_hash [1, 2, 3]))
        (re_elapsed (demo_RE [1, 2, 3])) \<in> set (w_events w2)"
  by (rule tcp_session_delivers [OF demo_setting, of "[1, 2, 3]", unfolded demo_uuid]) simp_all

lemma tcp_session_resumes_witness:
  "\<exists>f s_in r_in c1 w1 c2 w2.
    tcp_session demo_hash (demo_SE f) (demo_RE f) ''r1'' demo_path ''10.0.0.2'' 9877 False
      (path_of ''/out'') world_new [path_of demo_path \<mapsto> f] world_new
      [demo_target f \<mapsto> replicate 4194304 0] s_in r_in =
      Some ((Inr (to_hex (blake3_hash demo_hash f)), c1, w1), (Inr (), c2, w2, [demo_target f \<mapsto> f]))"
proof -
  let ?g = "replicate 4194304 0 :: fdata"
  have "length (?g @ [1]) < 2 ^ 62" by simp
  from tcp_session_resumes [OF demo_setting [OF this], of "[demo_target (?g @ [1]) \<mapsto> ?g]" ?g "[1]" 1
      "''r1''" world_new world_new]
  have "\<exists>s_in r_in c1 w1 c2 w2.
    tcp_session demo_hash (demo_SE (?g @ [1])) (demo_RE (?g @ [1])) ''r1'' demo_path ''10.0.0.2'' 9877 False
      (path_of ''/out'') world_new [path_of demo_path \<mapsto> ?g @ [1]] world_new
      [demo_target (?g @ [1]) \<mapsto> ?g] s_in r_in =
      Some ((Inr (to_hex (blake3_hash demo_hash (?g @ [1]))), c1, w1),
        (Inr (), c2, w2, [demo_target (?g @ [1]) \<mapsto> ?g @ [1]]))"
    by simp
  then show ?thesis by (rule exI)
qed

lemma tcp_unaligned_resume_fails_witness:
  "\<exists>s_in r_in c1 w1 e c2 w2.
    tcp_session demo_hash (demo_SE [1, 2]) (demo_RE [1, 2]) ''r1'' demo_path ''10.0.0.2'' 9877 False
      (path_of ''/out'') world_new [path_of demo_path \<mapsto> [1, 2]] world_new
      [demo_target [1, 2] \<mapsto> [1]] s_in r_in =
      Some ((Inl ''Receiver error: Checksum mismatch'', c1, w1), (Inl e, c2, w2, Map.empty))"
proof -
  have "nat_of_be (blake3_hash demo_hash [1, 1, 2]) \<noteq> nat_of_be (blake3_hash demo_hash [1, 2])"
    by (simp add: blake3_hash_def demo_hash_def nat_of_be_bytes) (simp add: nat_of_be_def)
  then have "blake3_hash demo_hash [1, 1, 2] \<noteq> blake3_hash demo_hash [1, 2]" by auto
  then have "\<exists>s_in r_in c1 w1 e c2 w2.
    tcp_session demo_hash (demo_SE [1, 2]) (demo_RE [1, 2]) ''r1'' demo_path ''10.0.0.2'' 9877 False
      (path_of ''/out'') world_new [path_of demo_path \<mapsto> [1, 2]] world_new
      [demo_target [1, 2] \<mapsto> [1]] s_in r_in =
      Some ((Inl ''Receiver error: Checksum mismatch'', c1, w1),
        (Inl e, c2, w2, [demo_target [1, 2] \<mapsto> [1]] (demo_target [1, 2] := None)))"
    by (intro tcp_unaligned_resume_fails [OF demo_setting, where g = "[1]" and rest = "[2]"
          and got = "[1, 1, 2]"]) simp_all
  then show ?thesis by (simp only: fun_upd_upd fun_upd_idem)
qed

text \<open>The receiver's run in the delivered session, for the properties of a single receiver.\<close>

lemma demo_receiver_run:
  "\<exists>r_in r c' w' fs'. tcp_handle_incoming demo_hash (demo_RE [1, 2]) (path_of ''/out'') (conn_open r_in)
     world_new Map.empty = Some (r, c', w', fs') \<and> r = Inr ()"
proof -
  have l: "length [1, 2 :: byte] < 2 ^ 62" by simp
  have "tcp_resume_point (demo_meta [1, 2]) (existing_length (demo_target [1, 2]) Map.empty) = (0, False)"
    by (simp add: tcp_resume_point_def existing_length_def)
  from tcp_session_outcome [OF demo_setting [OF l] this refl refl, of "''r1''" world_new world_new]
  obtain s_in r_in sr r2 c2 w2 fs2 where run:
    "tcp_session demo_hash (demo_SE [1, 2]) (demo_RE [1, 2]) ''r1'' demo_path ''10.0.0.2'' 9877 False
      (path_of ''/out'') world_new [path_of demo_path \<mapsto> [1, 2]] world_new Map.empty s_in r_in
      = Some (sr, (r2, c2, w2, fs2))" and r2: "r2 = Inr ()"
    by auto
  from tcp_session_receiver [OF run] r2 show ?thesis by blast
qed

lemma tcp_recv_cleans_up_witness:
  "\<exists>r_in c' w' fs'. tcp_handle_incoming demo_hash (demo_RE [1, 2]) (path_of ''/out'') (conn_open r_in)
     world_new Map.empty = Some (Inr (), c', w', fs')
   \<and> w_flags w' ''u1'' = None \<and> w_active w' ''u1'' = None"
proof -
  obtain r_in c' w' fs' where run: "tcp_handle_incoming demo_hash (demo_RE [1, 2]) (path_of ''/out'')
      (conn_open r_in) world_new Map.empty = Some (Inr (), c', w', fs')"
    using demo_receiver_run by blast
  have "re_uuid (demo_RE [1, 2]) = ''u1''" by (simp add: demo_RE_def demo_recv_env_def)
  with tcp_recv_cleans_up [OF run] run show ?thesis by (auto simp: world_new_def)
qed

lemma tcp_recv_keeps_only_verified_witness:
  "\<exists>r_in c' w' fs' p md. tcp_accepted (demo_RE [1, 2]) (path_of ''/out'') (conn_open r_in) world_new Map.empty = Some md
   \<and> tcp_handle_incoming demo_hash (demo_RE [1, 2]) (path_of ''/out'') (conn_open r_in)
     world_new Map.empty = Some (Inr (), c', w', fs')
   \<and> verify_checksum demo_hash (re_io (demo_RE [1, 2])) fs' p (md_checksum md) = Inr True"
proof -
  obtain r_in c' w' fs' where run: "tcp_handle_incoming demo_hash (demo_RE [1, 2]) (path_of ''/out'')
      (conn_open r_in) world_new Map.empty = Some (Inr (), c', w', fs')"
    using demo_receiver_run by blast
  from tcp_recv_keeps_only_verified [OF run] obtain p md where
    "tcp_accepted (demo_RE [1, 2]) (path_of ''/out'') (conn_open r_in) world_new Map.empty = Some md"
    "verify_checksum demo_hash (re_io (demo_RE [1, 2])) fs' p (md_checksum md) = Inr True"
    unfolding Let_def by (auto split: option.splits)
  with run show ?thesis by blast
qed

end
