(* ===== verification/Quic_Wire.thy ===== *)
theory Quic_Wire
  imports Framing Engine Registry Tcp_Wire
begin

text \<open>
  What both ends of the QUIC protocol of \<open>p2ptransfer-core/src/network/alpn.rs\<close> share: the
  request and response messages, the bidirectional stream seen from one end, and the
  choice of a file name that is not taken.
\<close>

section \<open>Messages and constants\<close>

definition STREAM_CHUNK_SIZE :: usize where "STREAM_CHUNK_SIZE = 4 * 1024 * 1024"

lemma STREAM_CHUNK_nat: "unat STREAM_CHUNK_SIZE = 4194304"
  by (simp add: STREAM_CHUNK_SIZE_def)

record transfer_request =
  tq_request_id :: string
  tq_sender_name :: string
  tq_sender_node_id :: string
  tq_file_name :: string
  tq_file_size :: u64
  tq_resume_offset :: u64
  tq_force_restart :: bool

record transfer_response =
  tr_accepted :: bool
  tr_resume_offset :: u64

text \<open>\<open>serde_json\<close> at the two message types.\<close>

record alpn_codec =
  ac_req_enc :: "transfer_request \<Rightarrow> byte list option"
  ac_req_dec :: "byte list \<Rightarrow> transfer_request option"
  ac_resp_enc :: "transfer_response \<Rightarrow> byte list option"
  ac_resp_dec :: "byte list \<Rightarrow> transfer_response option"

section \<open>A stream seen from one end\<close>

text \<open>
  \<open>qc_in\<close> is what the peer sends; behind it comes the end of the stream or the error
  \<open>qc_error\<close>. \<open>qc_sends\<close> are the outcomes of the coming writes.
\<close>

record quic_conn =
  qc_in :: "byte list"
  qc_error :: "string option"
  qc_out :: "byte list"
  qc_sends :: "string option list"

definition quic_open :: "byte list \<Rightarrow> quic_conn" where
  "quic_open s = \<lparr>qc_in = s, qc_error = None, qc_out = [], qc_sends = []\<rparr>"

definition quic_write :: "byte list \<Rightarrow> quic_conn \<Rightarrow> (string + unit) \<times> quic_conn" where
  "quic_write bs c =
     (case qc_sends c of
        Some e # es \<Rightarrow> (Inl e, c\<lparr>qc_sends := es\<rparr>)
      | None # es \<Rightarrow> (Inr (), c\<lparr>qc_sends := es, qc_out := qc_out c @ bs\<rparr>)
      | [] \<Rightarrow> (Inr (), c\<lparr>qc_out := qc_out c @ bs\<rparr>))"

definition quic_write_json ::
  "('m \<Rightarrow> byte list option) \<Rightarrow> 'm \<Rightarrow> quic_conn \<Rightarrow> (string + unit) \<times> quic_conn" where
  "quic_write_json enc m c =
     (case write_json enc m of Inl e \<Rightarrow> (Inl e, c) | Inr bs \<Rightarrow> quic_write bs c)"

definition quic_read_json ::
  "(byte list \<Rightarrow> 'm option) \<Rightarrow> quic_conn \<Rightarrow> (string + 'm) \<times> quic_conn" where
  "quic_read_json dec c =
     (case read_json dec (qc_in c) of
        Inl e \<Rightarrow> (Inl e, c)
      | Inr (m, rest) \<Rightarrow> (Inr m, c\<lparr>qc_in := rest\<rparr>))"

text \<open>
  \<open>read_buf\<close> with room for one stream block: at least one byte when there are any, at most
  the \<open>n\<close> that have arrived; no byte at the end of the stream.
\<close>

definition quic_read :: "nat \<Rightarrow> quic_conn \<Rightarrow> (string + byte list) \<times> quic_conn" where
  "quic_read n c =
     (if qc_in c = [] then (case qc_error c of Some e \<Rightarrow> (Inl e, c) | None \<Rightarrow> (Inr [], c))
      else let k = max 1 (min n (unat STREAM_CHUNK_SIZE))
           in (Inr (take k (qc_in c)), c\<lparr>qc_in := drop k (qc_in c)\<rparr>))"

lemma quic_write_ok [wire]:
  "qc_sends c = [] \<Longrightarrow> quic_write bs c = (Inr (), c\<lparr>qc_out := qc_out c @ bs\<rparr>)"
  by (simp add: quic_write_def)

lemma quic_write_json_ok [wire]:
  "enc m = Some j \<Longrightarrow> qc_sends c = [] \<Longrightarrow>
   quic_write_json enc m c = (Inr (), c\<lparr>qc_out := qc_out c @ json_frame j\<rparr>)"
  by (simp add: quic_write_json_def write_json_def quic_write_ok)

lemma quic_read_json_ok [wire]:
  "qc_in c = json_frame j @ rest \<Longrightarrow> fits_json j \<Longrightarrow> dec j = Some m \<Longrightarrow>
   quic_read_json dec c = (Inr m, c\<lparr>qc_in := rest\<rparr>)"
  by (simp add: quic_read_json_def read_json_def quic.get_put)

lemma quic_read_some:
  "qc_in c \<noteq> [] \<Longrightarrow> \<exists>bs rest. quic_read n c = (Inr bs, c\<lparr>qc_in := rest\<rparr>)
     \<and> bs \<noteq> [] \<and> qc_in c = bs @ rest"
proof -
  assume "qc_in c \<noteq> []"
  let ?k = "max 1 (min n (unat STREAM_CHUNK_SIZE))"
  have "take ?k (qc_in c) \<noteq> []" using \<open>qc_in c \<noteq> []\<close> by simp
  with \<open>qc_in c \<noteq> []\<close> show ?thesis
    by (intro exI [of _ "take ?k (qc_in c)"] exI [of _ "drop ?k (qc_in c)"])
       (simp add: quic_read_def Let_def)
qed

section \<open>A free file name\<close>

definition path_exists :: "filesystem \<Rightarrow> path \<Rightarrow> bool" where
  "path_exists fs p = (fs p \<noteq> None)"

definition candidate_name :: "path \<Rightarrow> nat \<Rightarrow> path" where
  "candidate_name p i =
     (let stem = opt_default [] (file_stem p);
          ext = (case path_extension p of Some e \<Rightarrow> CHR ''.'' # e | None \<Rightarrow> []);
          par = opt_default (path_of ''.'') (parent p)
      in path_join par (path_of (stem @ '' ('' @ show_nat i @ '')'' @ ext)))"

definition copy_name :: "path \<Rightarrow> path" where
  "copy_name p =
     (let stem = opt_default [] (file_stem p);
          ext = (case path_extension p of Some e \<Rightarrow> CHR ''.'' # e | None \<Rightarrow> []);
          par = opt_default (path_of ''.'') (parent p)
      in path_join par (path_of (stem @ '' (copy)'' @ ext)))"

definition unique_path :: "filesystem \<Rightarrow> path \<Rightarrow> path" where
  "unique_path fs p =
     (if \<not> path_exists fs p then p
      else case List.find (\<lambda>i. \<not> path_exists fs (candidate_name p i)) [1..<1000] of
             Some i \<Rightarrow> candidate_name p i
           | None \<Rightarrow> copy_name p)"

text \<open>
  \<open>unique_path\<close> never picks an existing file as long as one of the 999 numbered names
  is free: it returns the path itself when that is free, else the first free numbered
  name; only when all are taken does it fall back to the name with "(copy)", free or not.
\<close>

theorem unique_path_free:
  "(\<not> path_exists fs p \<longrightarrow> unique_path fs p = p)
   \<and> (\<forall>i. path_exists fs p \<longrightarrow> 1 \<le> i \<longrightarrow> i < 1000 \<longrightarrow> \<not> path_exists fs (candidate_name p i)
        \<longrightarrow> (\<forall>j. 1 \<le> j \<longrightarrow> j < i \<longrightarrow> path_exists fs (candidate_name p j))
        \<longrightarrow> unique_path fs p = candidate_name p i)
   \<and> (path_exists fs (unique_path fs p) \<longrightarrow>
        unique_path fs p = copy_name p \<and> path_exists fs p
        \<and> (\<forall>i. 1 \<le> i \<longrightarrow> i < 1000 \<longrightarrow> path_exists fs (candidate_name p i)))"
proof -
  let ?P = "\<lambda>i. \<not> path_exists fs (candidate_name p i)"
  have find_first: "List.find ?P [1..<1000] = Some i"
    if "1 \<le> i" "i < 1000" "?P i" "\<forall>j. 1 \<le> j \<longrightarrow> j < i \<longrightarrow> \<not> ?P j" for i
  proof -
    have "[1..<1000] = [1..<i] @ i # [Suc i..<1000]"
      using that(1,2) upt_add_eq_append [of 1 i "1000 - i"] upt_conv_Cons [of i 1000] by simp
    moreover have "List.find ?P [1..<i] = None" using that(4) by (auto simp: find_None_iff)
    ultimately show ?thesis using that(3) by (simp add: find_append del: upt_Suc)
  qed
  show ?thesis
  proof (cases "List.find ?P [1..<1000]")
    case None
    then have "path_exists fs (candidate_name p i)" if "1 \<le> i" "i < 1000" for i
      using that by (auto simp: find_None_iff)
    with None show ?thesis by (auto simp: unique_path_def)
  next
    case (Some k)
    then have "?P k" by (auto simp: find_Some_iff)
    with Some find_first show ?thesis by (auto simp: unique_path_def)
  qed
qed

lemma unique_path_free_witness:
  "unique_path [path_of ''/a/b.txt'' \<mapsto> []] (path_of ''/a/b.txt'') = path_of ''/a/b (1).txt''"
proof -
  let ?p = "path_of ''/a/b.txt''" let ?fs = "[?p \<mapsto> ([] :: fdata)]"
  have name: "candidate_name ?p (Suc 0) = path_of ''/a/b (1).txt''" by code_simp
  have "path_of ''/a/b (1).txt'' \<noteq> ?p" by code_simp
  then have "path_exists ?fs ?p" "\<not> path_exists ?fs (candidate_name ?p (Suc 0))"
    by (simp_all add: name path_exists_def)
  then show ?thesis using unique_path_free [of ?fs ?p] name by fastforce
qed

end
