(* ===== verification/Alpn_Send.thy ===== *)
theory Alpn_Send
  imports Quic_Wire
begin

text \<open>
  \<open>send_file_to_peer\<close> of \<open>p2ptransfer-core/src/network/alpn.rs\<close>, the sender of the QUIC
  protocol: connecting, the request and the answer, the hashing reader task, the send loop
  with its three points where a cancel is seen, and the end.
\<close>

section \<open>Inputs of one run\<close>

datatype connect_outcome = ConnectTimeout | ConnectFails string | OpenBiFails string | Connected

record alpn_send_turn =
  qs_user :: "user_cmd list"
  qs_user_dequeue :: "user_cmd list"
  qs_user_write :: "user_cmd list"
  qs_progress :: "rat option"

record alpn_send_env =
  be_codec :: alpn_codec
  be_io :: io_env
  be_node_id :: string
  be_connect :: connect_outcome
  be_timeout :: bool
  be_turns :: "alpn_send_turn list"
  be_finish :: "string option"

section \<open>Connecting and requesting\<close>

definition fail_with :: "string \<Rightarrow> string \<Rightarrow> world \<Rightarrow> (string + 'a) \<times> world" where
  "fail_with i msg w = (Inl msg, emit_transfer_error i msg w)"

definition alpn_send_connect ::
  "connect_outcome \<Rightarrow> string \<Rightarrow> path \<Rightarrow> filesystem \<Rightarrow> world
     \<Rightarrow> (string + string \<times> u64) \<times> world" where
  "alpn_send_connect conn i p fs w =
     (let w = emit_send_status i ''connecting'' w;
          name = opt_default [] (file_name p)
      in case fs p of
           None \<Rightarrow> (Inl (''Cannot stat file: '' @ ''No such file or directory''), w)
         | Some f \<Rightarrow>
             (case conn of
                ConnectTimeout \<Rightarrow> fail_with i ''Connection timed out'' w
              | ConnectFails e \<Rightarrow> fail_with i (''Failed to connect to peer: '' @ e) w
              | OpenBiFails e \<Rightarrow> fail_with i (''Failed to open QUIC stream: '' @ e) w
              | Connected \<Rightarrow> (Inr (name, len64 f), w)))"

definition alpn_send_request ::
  "alpn_send_env \<Rightarrow> string \<Rightarrow> string \<Rightarrow> string \<Rightarrow> u64 \<Rightarrow> bool \<Rightarrow> quic_conn \<Rightarrow> world
     \<Rightarrow> (string + unit) \<times> quic_conn \<times> world" where
  "alpn_send_request E i sender_name name file_size force_restart c w =
     (let request = \<lparr>tq_request_id = i, tq_sender_name = sender_name,
            tq_sender_node_id = be_node_id E, tq_file_name = name, tq_file_size = file_size,
            tq_resume_offset = 0, tq_force_restart = force_restart\<rparr>;
          w = insert_active \<lparr>at_request_id = i, at_role = ''sender'', at_status = ''connecting'',
                at_file_name = name, at_total_bytes = file_size, at_bytes_transferred = 0\<rparr> w;
          w = snd (insert_flag i w)
      in case quic_write_json (ac_req_enc (be_codec E)) request c of
           (Inl e, c) \<Rightarrow>
             (let msg = ''Failed to send TransferRequest: '' @ e
              in (Inl msg, c, remove_active i (emit_transfer_error i msg w)))
         | (Inr _, c) \<Rightarrow> (Inr (), c, emit_send_status i ''waiting_for_accept'' w))"

definition alpn_send_response ::
  "alpn_send_env \<Rightarrow> string \<Rightarrow> quic_conn \<Rightarrow> world \<Rightarrow> (string + u64) \<times> quic_conn \<times> world" where
  "alpn_send_response E i c w =
     (if be_timeout E then
        (let (r, w) = fail_with i ''Receiver did not respond within 90 seconds'' w in (r, c, w))
      else case quic_read_json (ac_resp_dec (be_codec E)) c of
             (Inl e, c) \<Rightarrow>
               (let (r, w) = fail_with i (''Failed to read TransferResponse: '' @ e) w in (r, c, w))
           | (Inr response, c) \<Rightarrow>
               if \<not> tr_accepted response then (Inl ''REJECTED'', c, emit (Rejected i) w)
               else (Inr (tr_resume_offset response), c, emit_send_status i ''accepted'' w))"

section \<open>The hashing reader task\<close>

definition stream_blocks :: "fdata \<Rightarrow> byte list list" where
  "stream_blocks f = read_blocks (unat STREAM_CHUNK_SIZE) f"

definition alpn_reader ::
  "'h hash_lib \<Rightarrow> io_env \<Rightarrow> filesystem \<Rightarrow> path \<Rightarrow> u64 \<Rightarrow> byte list list \<times> (string + string)" where
  "alpn_reader L io fs p start_offset =
     (case fs p of
        None \<Rightarrow> ([], Inl (''Cannot open file '' @ path_text p))
      | Some f \<Rightarrow>
          if \<not> io_readable io p then ([], Inl (''Cannot open file '' @ path_text p))
          else if 2 ^ 63 \<le> unat start_offset then ([], Inl ''Invalid argument'')
          else let h0 = foldl (hl_update L) (hl_new L) (stream_blocks (take (unat start_offset) f));
                   blocks = stream_blocks (drop (unat start_offset) f)
               in (blocks, Inr (to_hex (hl_finalize L (foldl (hl_update L) h0 blocks)))))"

definition reader_event :: "string \<Rightarrow> string + string \<Rightarrow> world \<Rightarrow> world" where
  "reader_event i r w =
     (case r of
        Inl e \<Rightarrow> if starts_with e ''Cannot open file '' then emit (TransferError i e) w else w
      | Inr _ \<Rightarrow> w)"

section \<open>The send loop\<close>

record alpn_send_state =
  bs_conn :: quic_conn
  bs_world :: world
  bs_chunks :: "byte list list"
  bs_sent :: u64

datatype alpn_send_ctl = ASendContinue | ASendWait nat | ASendDone | ASendFail string

definition alpn_send_cancel :: "string \<Rightarrow> alpn_send_state \<Rightarrow> alpn_send_ctl \<times> alpn_send_state" where
  "alpn_send_cancel i s =
     (ASendFail ''Transfer cancelled by user'',
      s\<lparr>bs_world := remove_flag i (remove_active i (emit (Cancelled i) (bs_world s)))\<rparr>)"

definition flag_cancelled :: "nat option \<Rightarrow> world \<Rightarrow> bool" where
  "flag_cancelled flag w = (case flag of Some r \<Rightarrow> is_cancelled (flag_at r w) | None \<Rightarrow> False)"

definition alpn_send_chunk ::
  "string \<Rightarrow> u64 \<Rightarrow> u64 \<Rightarrow> alpn_send_turn \<Rightarrow> nat option \<Rightarrow> byte list \<Rightarrow> alpn_send_state
     \<Rightarrow> alpn_send_ctl \<times> alpn_send_state" where
  "alpn_send_chunk i start_offset file_size t flag chunk s =
     (let s = s\<lparr>bs_world := apply_cmds (qs_user_write t) (bs_world s)\<rparr> in
      if flag_cancelled flag (bs_world s) then alpn_send_cancel i s
      else case quic_write chunk (bs_conn s) of
             (Inl e, c) \<Rightarrow>
               (let msg = ''Network write error: '' @ e
                in (ASendFail msg, s\<lparr>bs_conn := c, bs_world := emit_transfer_error i msg (bs_world s)\<rparr>))
           | (Inr _, c) \<Rightarrow>
               let sent = bs_sent s + len64 chunk;
                   total_sent = start_offset + sent;
                   w = (case qs_progress t of
                          None \<Rightarrow> bs_world s
                        | Some speed \<Rightarrow>
                            emit (Progress i total_sent file_size speed)
                              (set_bytes i total_sent (bs_world s)))
               in (ASendContinue, s\<lparr>bs_conn := c, bs_sent := sent, bs_world := w\<rparr>))"

definition alpn_send_dequeue ::
  "string \<Rightarrow> u64 \<Rightarrow> u64 \<Rightarrow> alpn_send_turn \<Rightarrow> nat option \<Rightarrow> alpn_send_state
     \<Rightarrow> alpn_send_ctl \<times> alpn_send_state" where
  "alpn_send_dequeue i start_offset file_size t flag s =
     (let s = s\<lparr>bs_world := apply_cmds (qs_user_dequeue t) (bs_world s)\<rparr> in
      if flag_cancelled flag (bs_world s) then alpn_send_cancel i s
      else case bs_chunks s of
             [] \<Rightarrow> (ASendDone, s)
           | chunk # chunks \<Rightarrow>
               alpn_send_chunk i start_offset file_size t flag chunk (s\<lparr>bs_chunks := chunks\<rparr>))"

text \<open>
  As in the receiver the flag is looked up in every turn, and a paused turn goes on waiting
  on the flag it has found.
\<close>

definition alpn_send_turn_step ::
  "string \<Rightarrow> u64 \<Rightarrow> u64 \<Rightarrow> nat option \<Rightarrow> alpn_send_turn \<Rightarrow> alpn_send_state
     \<Rightarrow> alpn_send_ctl \<times> alpn_send_state" where
  "alpn_send_turn_step i start_offset file_size held t s =
     (let s = s\<lparr>bs_world := apply_cmds (qs_user t) (bs_world s)\<rparr>;
          flag = (case held of Some r \<Rightarrow> Some r | None \<Rightarrow> w_flags (bs_world s) i)
      in case flag of
           None \<Rightarrow> alpn_send_dequeue i start_offset file_size t None s
         | Some r \<Rightarrow>
             (case wait_result (flag_at r (bs_world s)) of
                None \<Rightarrow> (ASendWait r, s)
              | Some True \<Rightarrow> alpn_send_cancel i s
              | Some False \<Rightarrow> alpn_send_dequeue i start_offset file_size t flag s))"

fun alpn_send_loop :: "string \<Rightarrow> u64 \<Rightarrow> u64 \<Rightarrow> nat option \<Rightarrow> alpn_send_turn list \<Rightarrow> alpn_send_state
    \<Rightarrow> ((string + unit) \<times> alpn_send_state) option" where
  "alpn_send_loop i off n held [] s = None"
| "alpn_send_loop i off n held (t # ts) s =
     (case alpn_send_turn_step i off n held t s of
        (ASendWait r, s') \<Rightarrow> alpn_send_loop i off n (Some r) ts s'
      | (ASendContinue, s') \<Rightarrow> alpn_send_loop i off n None ts s'
      | (ASendDone, s') \<Rightarrow> Some (Inr (), s')
      | (ASendFail e, s') \<Rightarrow> Some (Inl e, s'))"

section \<open>The end of a transfer\<close>

type_synonym alpn_send_result = "(string + string) \<times> quic_conn \<times> world"

definition alpn_send_finish ::
  "alpn_send_env \<Rightarrow> string \<Rightarrow> string + string \<Rightarrow> string + unit \<Rightarrow> alpn_send_state
     \<Rightarrow> alpn_send_result" where
  "alpn_send_finish E i reader r s =
     (let w = reader_event i reader (bs_world s); c = bs_conn s in
      case r of
        Inl e \<Rightarrow> (Inl e, c, w)
      | Inr _ \<Rightarrow>
          (case be_finish E of
             Some e \<Rightarrow>
               (let (res, w) = fail_with i (''Failed to finish QUIC stream: '' @ e) w in (res, c, w))
           | None \<Rightarrow>
               (case reader of
                  Inl e \<Rightarrow> (Inl e, c, w)
                | Inr hash \<Rightarrow>
                    (Inr hash, c,
                     remove_active i (emit_send_status i ''done'' (remove_flag i w))))))"

definition alpn_send_file ::
  "'h hash_lib \<Rightarrow> alpn_send_env \<Rightarrow> string \<Rightarrow> path \<Rightarrow> string \<Rightarrow> bool \<Rightarrow> quic_conn \<Rightarrow> world
     \<Rightarrow> filesystem \<Rightarrow> alpn_send_result option" where
  "alpn_send_file L E i p sender_name force_restart c w fs =
     (case alpn_send_connect (be_connect E) i p fs w of
        (Inl e, w) \<Rightarrow> Some (Inl e, c, w)
      | (Inr (name, file_size), w) \<Rightarrow>
     (case alpn_send_request E i sender_name name file_size force_restart c w of
        (Inl e, c, w) \<Rightarrow> Some (Inl e, c, w)
      | (Inr _, c, w) \<Rightarrow>
     (case alpn_send_response E i c w of
        (Inl e, c, w) \<Rightarrow> Some (Inl e, c, w)
      | (Inr start_offset, c, w) \<Rightarrow>
     (let (chunks, reader) = alpn_reader L (be_io E) fs p start_offset;
          w = emit_send_status i ''transferring'' w;
          s = \<lparr>bs_conn = c, bs_world = w, bs_chunks = chunks, bs_sent = 0\<rparr>
      in map_option (\<lambda>(r, s). alpn_send_finish E i reader r s)
           (alpn_send_loop i start_offset file_size None (be_turns E) s)))))"

section \<open>Registry entries left behind\<close>

text \<open>
  A rejected transfer leaks: when the receiver declines, the sender returns
  "REJECTED" and leaves both its pause flag and its active entry in the tables, although
  the comment on \<open>TRANSFER_PAUSE_FLAGS\<close> says entries are removed on error.
\<close>

theorem alpn_reject_leaks:
  assumes "be_connect E = Connected" "fs p = Some f" "qc_sends c = []" "\<not> be_timeout E"
    and "\<And>rq. tq_request_id rq = i \<Longrightarrow> ac_req_enc (be_codec E) rq \<noteq> None"
    and "quic_read_json (ac_resp_dec (be_codec E)) c = (Inr resp, c')" "\<not> tr_accepted resp"
  shows "\<exists>c2 w'. alpn_send_file L E i p name force c w fs = Some (Inl ''REJECTED'', c2, w')
    \<and> w_flags w' i \<noteq> None \<and> w_active w' i \<noteq> None"
proof -
  define w1 where "w1 = emit_send_status i ''connecting'' w"
  have conn: "alpn_send_connect (be_connect E) i p fs w = (Inr (opt_default [] (file_name p), len64 f), w1)"
    using assms(1,2) by (simp add: alpn_send_connect_def w1_def Let_def)
  obtain c1 w2 where req: "alpn_send_request E i name (opt_default [] (file_name p)) (len64 f) force c w1
      = (Inr (), c1, w2)" and in1: "qc_in c1 = qc_in c"
    and w2: "w_flags w2 i \<noteq> None" "w_active w2 i \<noteq> None"
  proof -
    let ?rq = "\<lparr>tq_request_id = i, tq_sender_name = name, tq_sender_node_id = be_node_id E,
      tq_file_name = opt_default [] (file_name p), tq_file_size = len64 f,
      tq_resume_offset = 0, tq_force_restart = force\<rparr>"
    obtain j where "ac_req_enc (be_codec E) ?rq = Some j" using assms(5) [of ?rq] by auto
    with assms(3) show ?thesis
      by (intro that [of "c\<lparr>qc_out := qc_out c @ json_frame j\<rparr>"])
         (simp add: alpn_send_request_def quic_write_json_ok Let_def emit_send_status_def,
          simp_all add: set_status_def update_active_lookup)
  qed
  have "fst (quic_read_json (ac_resp_dec (be_codec E)) c1) = Inr resp"
    using assms(6) in1 by (auto simp: quic_read_json_def split: sum.splits prod.splits)
  then have "\<exists>c2. alpn_send_response E i c1 w2 = (Inl ''REJECTED'', c2, emit (Rejected i) w2)"
    using assms(4,7) by (cases "quic_read_json (ac_resp_dec (be_codec E)) c1")
      (simp add: alpn_send_response_def)
  then show ?thesis using conn req w2 by (auto simp: alpn_send_file_def)
qed

lemma alpn_reject_leaks_witness:
  "\<exists>E c c2 w'. alpn_send_file demo_hash E ''r1'' (path_of ''/a'') ''me'' False c world_new [path_of ''/a'' \<mapsto> [1]]
      = Some (Inl ''REJECTED'', c2, w') \<and> w_flags w' ''r1'' \<noteq> None \<and> w_active w' ''r1'' \<noteq> None"
proof -
  let ?M = "\<lparr>ac_req_enc = (\<lambda>_. Some [1]), ac_req_dec = (\<lambda>_. None), ac_resp_enc = (\<lambda>_. None),
    ac_resp_dec = (\<lambda>_. Some \<lparr>tr_accepted = False, tr_resume_offset = 0\<rparr>)\<rparr>"
  let ?E = "\<lparr>be_codec = ?M, be_io = io_all, be_node_id = ''n'', be_connect = Connected,
    be_timeout = False, be_turns = [], be_finish = None\<rparr>"
  let ?c = "quic_open (json_frame [2] @ [])"
  have rd: "quic_read_json (ac_resp_dec (be_codec ?E)) ?c
      = (Inr \<lparr>tr_accepted = False, tr_resume_offset = 0\<rparr>, ?c\<lparr>qc_in := []\<rparr>)"
    by (rule quic_read_json_ok [where j = "[2]"]) (simp_all add: quic_open_def fits_json_def)
  have "\<exists>c2 w'. alpn_send_file demo_hash ?E ''r1'' (path_of ''/a'') ''me'' False ?c world_new
      [path_of ''/a'' \<mapsto> [1]] = Some (Inl ''REJECTED'', c2, w')
    \<and> w_flags w' ''r1'' \<noteq> None \<and> w_active w' ''r1'' \<noteq> None"
    by (intro alpn_reject_leaks [where f = "[1]", OF _ _ _ _ _ rd]) (simp_all add: quic_open_def)
  then show ?thesis by blast
qed

end
