(* ===== verification/Alpn_Recv.thy ===== *)
theory Alpn_Recv
  imports Quic_Wire
begin

text \<open>
  \<open>handle_incoming_connection\<close> of \<open>p2ptransfer-core/src/network/alpn.rs\<close>, the receiver of
  the QUIC protocol: the request and the user's decision, the choice of the target file
  and the answer, the receive loop with its hashing disk writer, and the end. The sender
  is not told whether the file arrived intact: the digest is only reported in the event.
\<close>

section \<open>Inputs of one run\<close>

text \<open>
  A turn of the receive loop: commands before the pause check, commands while it waits for
  data, whether a cancel that arrives while data is ready wins the \<open>select!\<close>, the bytes
  that have arrived, the speed reported when the progress interval has passed, and
  whether a failed writer is seen.
\<close>

record alpn_turn =
  qt_user :: "user_cmd list"
  qt_user_read :: "user_cmd list"
  qt_cancel_wins :: bool
  qt_arrived :: nat
  qt_progress :: "rat option"
  qt_sees_writer :: bool

record alpn_recv_env =
  ae_codec :: alpn_codec
  ae_io :: io_env
  ae_accept_bi :: "string option"
  ae_answer :: "user_cmd list"
  ae_turns :: "alpn_turn list"
  ae_writes :: "string option list"
  ae_elapsed :: rat

section \<open>Request and decision\<close>

definition alpn_recv_register :: "transfer_request \<Rightarrow> world \<Rightarrow> nat \<times> world" where
  "alpn_recv_register rq w =
     (let i = tq_request_id rq;
          (rx, w) = pending_register i w;
          w = emit (Incoming i (tq_sender_name rq) (tq_sender_node_id rq) (tq_file_name rq)
                (tq_file_size rq)) w;
          w = insert_active \<lparr>at_request_id = i, at_role = ''receiver'',
                at_status = ''waiting_for_accept'', at_file_name = tq_file_name rq,
                at_total_bytes = tq_file_size rq, at_bytes_transferred = 0\<rparr> w
      in (rx, snd (insert_flag i w)))"

definition alpn_recv_reject :: "alpn_codec \<Rightarrow> string \<Rightarrow> quic_conn \<Rightarrow> world \<Rightarrow> quic_conn \<times> world" where
  "alpn_recv_reject M i c w =
     (snd (quic_write_json (ac_resp_enc M) \<lparr>tr_accepted = False, tr_resume_offset = 0\<rparr> c),
      remove_flag i (remove_active i w))"

section \<open>Target file and answer\<close>

text \<open>The path, whether it is resumed, and from where.\<close>

definition alpn_target :: "path \<Rightarrow> transfer_request \<Rightarrow> filesystem \<Rightarrow> path \<times> bool" where
  "alpn_target output_dir rq fs =
     (let out_path = path_join output_dir (path_of (tq_file_name rq));
          is_resume = (\<not> tq_force_restart rq \<and> path_exists fs out_path)
      in (if is_resume then out_path else unique_path fs out_path, is_resume))"

definition alpn_resume_offset :: "path \<Rightarrow> bool \<Rightarrow> filesystem \<Rightarrow> u64" where
  "alpn_resume_offset out_path is_resume fs =
     (if is_resume
      then align_block STREAM_CHUNK_SIZE (case fs out_path of Some f \<Rightarrow> len64 f | None \<Rightarrow> 0)
      else 0)"

definition alpn_recv_prepare ::
  "alpn_codec \<Rightarrow> io_env \<Rightarrow> path \<Rightarrow> transfer_request \<Rightarrow> filesystem \<Rightarrow> quic_conn \<Rightarrow> world
     \<Rightarrow> (string + path \<times> bool \<times> u64) \<times> quic_conn \<times> world" where
  "alpn_recv_prepare M io output_dir rq fs c w =
     (let (final_path, is_resume) = alpn_target output_dir rq fs;
          dir = opt_default (path_of ''.'') (parent final_path)
      in if \<not> io_mkdir io dir then
           (Inl ''Permission denied'', c,
            emit (TransferError (tq_request_id rq)
              (''Cannot create output directory: '' @ ''Permission denied'')) w)
         else let resume_offset = alpn_resume_offset final_path is_resume fs
              in case quic_write_json (ac_resp_enc M)
                        \<lparr>tr_accepted = True, tr_resume_offset = resume_offset\<rparr> c of
                   (Inl e, c) \<Rightarrow> (Inl e, c, w)
                 | (Inr _, c) \<Rightarrow> (Inr (final_path, is_resume, resume_offset), c, w))"

section \<open>The hashing disk writer\<close>

fun write_chunks ::
  "'h hash_lib \<Rightarrow> string option list \<Rightarrow> byte list list \<Rightarrow> 'h \<Rightarrow> fdata \<Rightarrow> (string + 'h) \<times> fdata" where
  "write_chunks L ws [] h f = (Inr h, f)"
| "write_chunks L ws (chunk # cs) h f =
     (case ws of
        Some e # ws' \<Rightarrow> (Inl (''Disk write failed: '' @ e), f)
      | _ \<Rightarrow> write_chunks L (tl ws) cs (hl_update L h chunk) (f @ chunk))"

record alpn_writer_ctx =
  aw_io :: io_env
  aw_path :: path
  aw_resume :: bool
  aw_offset :: u64
  aw_writes :: "string option list"

text \<open>
  On a resume the bytes before the offset are hashed, in blocks of 1 MB, and the file is
  opened for appending; it is not cut at the offset.
\<close>

definition alpn_writer ::
  "'h hash_lib \<Rightarrow> alpn_writer_ctx \<Rightarrow> byte list list \<Rightarrow> filesystem \<Rightarrow> (string + string) \<times> filesystem" where
  "alpn_writer L x chunks fs =
     (let p = aw_path x in
      if aw_resume x \<and> (fs p = None \<or> \<not> io_readable (aw_io x) p) then
        (Inl ''No such file or directory'', fs)
      else if \<not> io_writable (aw_io x) p then (Inl ''Permission denied'', fs)
      else let f0 = (if aw_resume x then file_at p fs else []);
               h0 = (if aw_resume x
                     then foldl (hl_update L) (hl_new L)
                            (read_blocks 1048576 (take (unat (aw_offset x)) (file_at p fs)))
                     else hl_new L);
               (r, f) = write_chunks L (aw_writes x) chunks h0 f0
           in (res_bind r (\<lambda>h. Inr (to_hex (hl_finalize L h))), fs(p \<mapsto> f)))"

text \<open>Only a failed write is reported as an event.\<close>

definition writer_event :: "string \<Rightarrow> string + string \<Rightarrow> world \<Rightarrow> world" where
  "writer_event i r w =
     (case r of
        Inl e \<Rightarrow> if starts_with e ''Disk write failed: '' then emit (TransferError i e) w else w
      | Inr _ \<Rightarrow> w)"

section \<open>The receive loop\<close>

record alpn_recv_ctx =
  ax_writer :: alpn_writer_ctx
  ax_fs :: filesystem
  ax_id :: string
  ax_total :: u64

record alpn_recv_state =
  as_conn :: quic_conn
  as_world :: world
  as_chunks :: "byte list list"
  as_bytes :: u64

datatype alpn_ctl = AlpnContinue | AlpnWait nat | AlpnEnd "string + unit"

definition alpn_recv_data ::
  "'h hash_lib \<Rightarrow> alpn_recv_ctx \<Rightarrow> alpn_turn \<Rightarrow> byte list \<Rightarrow> alpn_recv_state
     \<Rightarrow> alpn_ctl \<times> alpn_recv_state" where
  "alpn_recv_data L x t bs s =
     (if qt_sees_writer t
         \<and> isl (fst (alpn_writer L (ax_writer x) (as_chunks s) (ax_fs x))) then
        (AlpnEnd (Inl ''Writer task died''), s)
      else let bytes_received = as_bytes s + len64 bs;
               total_received = aw_offset (ax_writer x) + bytes_received;
               w = (case qt_progress t of
                      None \<Rightarrow> as_world s
                    | Some speed \<Rightarrow>
                        emit (Progress (ax_id x) total_received (ax_total x) speed)
                          (set_bytes (ax_id x) total_received (as_world s)))
           in (AlpnContinue, s\<lparr>as_chunks := as_chunks s @ [bs], as_bytes := bytes_received,
                               as_world := w\<rparr>))"

definition alpn_cancelled :: "alpn_ctl" where
  "alpn_cancelled = AlpnEnd (Inl ''Transfer cancelled by user'')"

text \<open>
  The flag is looked up again in every turn; without an entry the turn cannot be paused or
  cancelled. A turn that finds its flag paused waits on this flag: the turns that follow,
  while the wait lasts, are given the flag (\<open>held\<close>) and do not look it up.
\<close>

definition alpn_recv_read ::
  "'h hash_lib \<Rightarrow> alpn_recv_ctx \<Rightarrow> alpn_turn \<Rightarrow> nat option \<Rightarrow> alpn_recv_state
     \<Rightarrow> alpn_ctl \<times> alpn_recv_state" where
  "alpn_recv_read L x t flag s =
     (let s = s\<lparr>as_world := apply_cmds (qt_user_read t) (as_world s)\<rparr> in
      if (case flag of Some r \<Rightarrow> is_cancelled (flag_at r (as_world s)) \<and> qt_cancel_wins t
                     | None \<Rightarrow> False) then (alpn_cancelled, s)
      else case quic_read (qt_arrived t) (as_conn s) of
             (Inl e, c) \<Rightarrow> (AlpnEnd (Inl e), s\<lparr>as_conn := c\<rparr>)
           | (Inr bs, c) \<Rightarrow>
               if bs = [] then (AlpnEnd (Inr ()), s\<lparr>as_conn := c\<rparr>)
               else alpn_recv_data L x t bs (s\<lparr>as_conn := c\<rparr>))"

definition alpn_recv_turn ::
  "'h hash_lib \<Rightarrow> alpn_recv_ctx \<Rightarrow> nat option \<Rightarrow> alpn_turn \<Rightarrow> alpn_recv_state
     \<Rightarrow> alpn_ctl \<times> alpn_recv_state" where
  "alpn_recv_turn L x held t s =
     (let s = s\<lparr>as_world := apply_cmds (qt_user t) (as_world s)\<rparr>;
          flag = (case held of Some r \<Rightarrow> Some r | None \<Rightarrow> w_flags (as_world s) (ax_id x))
      in case flag of
           None \<Rightarrow> alpn_recv_read L x t None s
         | Some r \<Rightarrow>
             (case wait_result (flag_at r (as_world s)) of
                None \<Rightarrow> (AlpnWait r, s)
              | Some True \<Rightarrow> (alpn_cancelled, s)
              | Some False \<Rightarrow> alpn_recv_read L x t flag s))"

fun alpn_recv_loop :: "'h hash_lib \<Rightarrow> alpn_recv_ctx \<Rightarrow> nat option \<Rightarrow> alpn_turn list \<Rightarrow> alpn_recv_state
    \<Rightarrow> ((string + unit) \<times> alpn_recv_state) option" where
  "alpn_recv_loop L x held [] s = None"
| "alpn_recv_loop L x held (t # ts) s =
     (case alpn_recv_turn L x held t s of
        (AlpnWait r, s') \<Rightarrow> alpn_recv_loop L x (Some r) ts s'
      | (AlpnContinue, s') \<Rightarrow> alpn_recv_loop L x None ts s'
      | (AlpnEnd r, s') \<Rightarrow> Some (r, s'))"

section \<open>The end of a transfer\<close>

type_synonym alpn_result = "(string + unit) \<times> quic_conn \<times> world \<times> filesystem"

text \<open>A failed writer ends the run at once, before anything is cleaned up.\<close>

definition alpn_recv_finish ::
  "'h hash_lib \<Rightarrow> alpn_recv_ctx \<Rightarrow> rat \<Rightarrow> string + unit \<Rightarrow> alpn_recv_state \<Rightarrow> alpn_result" where
  "alpn_recv_finish L x elapsed r s =
     (let p = aw_path (ax_writer x); i = ax_id x; c = as_conn s;
          (wr, fs) = alpn_writer L (ax_writer x) (as_chunks s) (ax_fs x);
          w = writer_event i wr (as_world s)
      in case wr of
           Inl e \<Rightarrow> (Inl e, c, w, fs)
         | Inr hash \<Rightarrow>
             (let w = remove_flag i w in
              case r of
                Inl e \<Rightarrow>
                  if mentions_cancel e then
                    (Inl e, c, remove_active i (emit (Cancelled i) w), remove_file p fs)
                  else
                    (Inl e, c,
                     remove_active i (emit (TransferError i (''Network error during receive: '' @ e)) w),
                     remove_file p fs)
              | Inr _ \<Rightarrow>
                  (Inr (), c, remove_active i (emit (Complete i (path_text p) hash elapsed) w), fs)))"

definition alpn_handle_incoming ::
  "'h hash_lib \<Rightarrow> alpn_recv_env \<Rightarrow> path \<Rightarrow> quic_conn \<Rightarrow> world \<Rightarrow> filesystem \<Rightarrow> alpn_result option" where
  "alpn_handle_incoming L E output_dir c w fs =
     (case ae_accept_bi E of
        Some e \<Rightarrow> Some (Inl e, c, w, fs)
      | None \<Rightarrow>
     (case quic_read_json (ac_req_dec (ae_codec E)) c of
        (Inl e, c) \<Rightarrow> Some (Inl e, c, w, fs)
      | (Inr rq, c) \<Rightarrow>
     (let i = tq_request_id rq;
          (rx, w) = alpn_recv_register rq w;
          w = apply_cmds (ae_answer E) w
      in if \<not> pending_answer rx w then
           (let (c, w) = alpn_recv_reject (ae_codec E) i c w in Some (Inr (), c, w, fs))
         else
     (let w = set_status i ''transferring'' w in
      case alpn_recv_prepare (ae_codec E) (ae_io E) output_dir rq fs c w of
        (Inl e, c, w) \<Rightarrow> Some (Inl e, c, w, fs)
      | (Inr (p, is_resume, resume_offset), c, w) \<Rightarrow>
     (let x = \<lparr>ax_writer = \<lparr>aw_io = ae_io E, aw_path = p, aw_resume = is_resume,
                 aw_offset = resume_offset, aw_writes = ae_writes E\<rparr>,
               ax_fs = fs, ax_id = i, ax_total = tq_file_size rq\<rparr>;
          s = \<lparr>as_conn = c, as_world = w, as_chunks = [], as_bytes = 0\<rparr>
      in map_option (\<lambda>(r, s). alpn_recv_finish L x (ae_elapsed E) r s)
           (alpn_recv_loop L x None (ae_turns E) s))))))"

end
