(* ===== verification/Alpn_Session.thy ===== *)
theory Alpn_Session
  imports Alpn_Send Alpn_Recv
begin

text \<open>
  The two ends of the QUIC protocol connected. A fresh transfer and a resume at a block
  boundary deliver the file; any other resume delivers a corrupt file and both programs
  report success with the same digest.
\<close>

section \<open>A session\<close>

definition alpn_session ::
  "'h hash_lib \<Rightarrow> alpn_send_env \<Rightarrow> alpn_recv_env \<Rightarrow> string \<Rightarrow> path \<Rightarrow> string \<Rightarrow> bool \<Rightarrow> path
     \<Rightarrow> world \<Rightarrow> filesystem \<Rightarrow> world \<Rightarrow> filesystem \<Rightarrow> byte list \<Rightarrow> byte list
     \<Rightarrow> (alpn_send_result \<times> alpn_result) option" where
  "alpn_session L SE RE i p name force out sw sfs rw rfs s_in r_in =
     (case alpn_send_file L SE i p name force (quic_open s_in) sw sfs of
        None \<Rightarrow> None
      | Some (r1, c1, w1) \<Rightarrow>
          (case alpn_handle_incoming L RE out (quic_open r_in) rw rfs of
             None \<Rightarrow> None
           | Some (r2, c2, w2, fs2) \<Rightarrow>
               if qc_out c1 = r_in \<and> qc_out c2 = s_in
               then Some ((r1, c1, w1), (r2, c2, w2, fs2)) else None))"

definition plain_request :: "alpn_send_env \<Rightarrow> string \<Rightarrow> path \<Rightarrow> string \<Rightarrow> bool \<Rightarrow> fdata \<Rightarrow> transfer_request" where
  "plain_request E i p name force f = \<lparr>tq_request_id = i, tq_sender_name = name,
     tq_sender_node_id = be_node_id E, tq_file_name = opt_default [] (file_name p),
     tq_file_size = len64 f, tq_resume_offset = 0, tq_force_restart = force\<rparr>"

text \<open>The codec carries this request and every accepting response.\<close>

definition alpn_codec_ready :: "alpn_codec \<Rightarrow> transfer_request \<Rightarrow> bool" where
  "alpn_codec_ready M rq \<longleftrightarrow>
     (\<exists>j. ac_req_enc M rq = Some j \<and> ac_req_dec M j = Some rq \<and> fits_json j)
   \<and> (\<forall>off. \<exists>j. ac_resp_enc M \<lparr>tr_accepted = True, tr_resume_offset = off\<rparr> = Some j
        \<and> ac_resp_dec M j = Some \<lparr>tr_accepted = True, tr_resume_offset = off\<rparr> \<and> fits_json j)"

definition alpn_setting ::
  "'h hash_lib \<Rightarrow> alpn_send_env \<Rightarrow> alpn_recv_env \<Rightarrow> string \<Rightarrow> path \<Rightarrow> string \<Rightarrow> bool \<Rightarrow> fdata
     \<Rightarrow> filesystem \<Rightarrow> bool" where
  "alpn_setting L SE RE i p name force f sfs \<longleftrightarrow>
     streaming_hash L \<and> sfs p = Some f \<and> io_readable (be_io SE) p \<and> length f < 2 ^ 62
   \<and> be_connect SE = Connected \<and> \<not> be_timeout SE \<and> be_finish SE = None
   \<and> (\<forall>t \<in> set (be_turns SE). qs_user t = [] \<and> qs_user_dequeue t = [] \<and> qs_user_write t = [])
   \<and> length (stream_blocks f) < length (be_turns SE)
   \<and> ae_codec RE = be_codec SE \<and> alpn_codec_ready (be_codec SE) (plain_request SE i p name force f)
   \<and> ae_accept_bi RE = None \<and> ae_answer RE = [RespondCmd i True] \<and> ae_writes RE = []
   \<and> ae_io RE = io_all \<and> (\<forall>t \<in> set (ae_turns RE). qt_user t = [] \<and> qt_user_read t = [])
   \<and> length f < length (ae_turns RE)"

section \<open>The sender's side\<close>

definition running_flag :: "string \<Rightarrow> world \<Rightarrow> bool" where
  "running_flag i w \<longleftrightarrow> (\<exists>r. w_flags w i = Some r \<and> flag_at r w = flag_new)"

lemma running_flag_simps [simp]:
  "running_flag i (emit e w) = running_flag i w"
  "running_flag i (set_bytes j n w) = running_flag i w"
  "running_flag i (set_status j s w) = running_flag i w"
  "running_flag i (snd (insert_flag i w))"
  by (simp_all add: running_flag_def)

lemma running_flag_status [simp]: "running_flag i (emit_send_status j s w) = running_flag i w"
  by (simp add: emit_send_status_def)

lemma running_wait: "wait_result flag_new = Some False"
  by (simp add: wait_result_def)

lemma alpn_send_chunk_ok:
  assumes "qs_user_write t = []" "\<not> flag_cancelled flag (bs_world s)" "qc_sends (bs_conn s) = []"
  shows "fst (alpn_send_chunk i off n t flag ch s) = ASendContinue"
    and "bs_conn (snd (alpn_send_chunk i off n t flag ch s))
      = (bs_conn s)\<lparr>qc_out := qc_out (bs_conn s) @ ch\<rparr>"
    and "bs_chunks (snd (alpn_send_chunk i off n t flag ch s)) = bs_chunks s"
    and "running_flag j (bs_world (snd (alpn_send_chunk i off n t flag ch s))) = running_flag j (bs_world s)"
  using assms by (simp_all add: alpn_send_chunk_def quic_write_ok Let_def split: option.splits)

lemma alpn_send_turn_ok:
  assumes "qs_user t = []" "qs_user_dequeue t = []" "running_flag i (bs_world s)"
  shows "\<exists>flag. \<not> flag_cancelled flag (bs_world s) \<and> alpn_send_turn_step i off n None t s =
    (case bs_chunks s of [] \<Rightarrow> (ASendDone, s)
     | ch # chs \<Rightarrow> alpn_send_chunk i off n t flag ch (s\<lparr>bs_chunks := chs\<rparr>))"
proof -
  obtain r where r: "w_flags (bs_world s) i = Some r" "flag_at r (bs_world s) = flag_new"
    using assms(3) by (auto simp: running_flag_def)
  then have "\<not> flag_cancelled (Some r) (bs_world s)" by (simp add: flag_cancelled_def)
  with r assms(1,2) running_wait show ?thesis
    by (intro exI [of _ "Some r"])
       (simp add: alpn_send_turn_step_def alpn_send_dequeue_def Let_def)
qed

lemma alpn_send_loop_ok:
  assumes "\<forall>t \<in> set ts. qs_user t = [] \<and> qs_user_dequeue t = [] \<and> qs_user_write t = []"
    and "length (bs_chunks s) < length ts" "qc_sends (bs_conn s) = []" "running_flag i (bs_world s)"
  shows "\<exists>s'. alpn_send_loop i off n None ts s = Some (Inr (), s')
    \<and> bs_conn s' = (bs_conn s)\<lparr>qc_out := qc_out (bs_conn s) @ concat (bs_chunks s)\<rparr>"
  using assms
proof (induction ts arbitrary: s)
  case Nil
  then show ?case by simp
next
  case (Cons t ts)
  obtain flag where nc: "\<not> flag_cancelled flag (bs_world s)"
    and turn: "alpn_send_turn_step i off n None t s =
      (case bs_chunks s of [] \<Rightarrow> (ASendDone, s)
       | ch # chs \<Rightarrow> alpn_send_chunk i off n t flag ch (s\<lparr>bs_chunks := chs\<rparr>))"
    using alpn_send_turn_ok [of t i s off n] Cons.prems by auto
  show ?case
  proof (cases "bs_chunks s")
    case Nil
    with turn show ?thesis by simp
  next
    case (Cons ch chs)
    let ?s = "s\<lparr>bs_chunks := chs\<rparr>"
    define s' where "s' = snd (alpn_send_chunk i off n t flag ch ?s)"
    have pre: "qs_user_write t = []" "\<not> flag_cancelled flag (bs_world ?s)" "qc_sends (bs_conn ?s) = []"
      using Cons.prems nc by simp_all
    note ck = alpn_send_chunk_ok [OF pre]
    have step: "alpn_send_turn_step i off n None t s = (ASendContinue, s')"
      using turn Cons ck(1) by (simp add: s'_def prod_eq_iff)
    have st: "bs_conn s' = (bs_conn s)\<lparr>qc_out := qc_out (bs_conn s) @ ch\<rparr>" "bs_chunks s' = chs"
      "running_flag i (bs_world s')"
      using ck Cons.prems(4) by (simp_all add: s'_def)
    have "\<exists>s''. alpn_send_loop i off n None ts s' = Some (Inr (), s'')
      \<and> bs_conn s'' = (bs_conn s')\<lparr>qc_out := qc_out (bs_conn s') @ concat (bs_chunks s')\<rparr>"
      by (rule Cons.IH) (use Cons.prems Cons st in simp_all)
    with step st Cons show ?thesis by simp
  qed
qed

lemma alpn_reader_ok:
  assumes "streaming_hash L" "fs p = Some f" "io_readable io p" "unat off < 2 ^ 63"
  shows "alpn_reader L io fs p off = (stream_blocks (drop (unat off) f), Inr (to_hex (blake3_hash L f)))"
proof -
  have c: "concat (stream_blocks xs) = xs" for xs by (simp add: stream_blocks_def STREAM_CHUNK_nat)
  have "hl_finalize L (foldl (hl_update L) (hl_new L)
      (stream_blocks (take (unat off) f) @ stream_blocks (drop (unat off) f))) = blake3_hash L f"
    using streaming_hash_segs [OF assms(1), of "stream_blocks (take (unat off) f) @ stream_blocks (drop (unat off) f)"]
    by (simp only: concat_append c append_take_drop_id)
  with assms show ?thesis by (simp add: alpn_reader_def Let_def)
qed

lemma alpn_sender_runs:
  assumes S: "alpn_setting L SE RE i p name force f sfs" and off: "unat off < 2 ^ 63"
    and req: "ac_req_enc (be_codec SE) (plain_request SE i p name force f) = Some jq"
    and resp: "ac_resp_dec (be_codec SE) jr = Some \<lparr>tr_accepted = True, tr_resume_offset = off\<rparr>"
      "fits_json jr"
  shows "\<exists>c w. alpn_send_file L SE i p name force (quic_open (json_frame jr)) sw sfs
      = Some (Inr (to_hex (blake3_hash L f)), c, w)
    \<and> qc_out c = json_frame jq @ drop (unat off) f \<and> w_flags w i = None \<and> w_active w i = None"
proof -
  let ?bs = "stream_blocks (drop (unat off) f)" and ?hash = "to_hex (blake3_hash L f)"
  have L: "streaming_hash L" and f: "sfs p = Some f" "io_readable (be_io SE) p"
    and ev: "be_connect SE = Connected" "\<not> be_timeout SE" "be_finish SE = None"
    using S by (simp_all add: alpn_setting_def)
  define w1 where "w1 = emit_send_status i ''connecting'' sw"
  define c1 where "c1 = (quic_open (json_frame jr))\<lparr>qc_out := json_frame jq\<rparr>"
  have conn: "alpn_send_connect (be_connect SE) i p sfs sw = (Inr (opt_default [] (file_name p), len64 f), w1)"
    by (simp add: alpn_send_connect_def ev f w1_def Let_def)
  obtain w2 where rq: "alpn_send_request SE i name (opt_default [] (file_name p)) (len64 f) force
      (quic_open (json_frame jr)) w1 = (Inr (), c1, w2)" and w2: "running_flag i w2"
    using req by (simp add: alpn_send_request_def plain_request_def quic_write_json_ok quic_open_def
        Let_def c1_def)
  define c2 where "c2 = c1\<lparr>qc_in := []\<rparr>"
  have "quic_read_json (ac_resp_dec (be_codec SE)) c1
      = (Inr \<lparr>tr_accepted = True, tr_resume_offset = off\<rparr>, c2)"
    unfolding c2_def using resp
    by (intro quic_read_json_ok [where j = jr]) (simp_all add: c1_def quic_open_def)
  then have rs: "alpn_send_response SE i c1 w2 = (Inr off, c2, emit_send_status i ''accepted'' w2)"
    by (simp add: alpn_send_response_def ev)
  define s where "s = \<lparr>bs_conn = c2, bs_world = emit_send_status i ''transferring''
    (emit_send_status i ''accepted'' w2), bs_chunks = ?bs, bs_sent = 0\<rparr>"
  have rd: "alpn_reader L (be_io SE) sfs p off = (?bs, Inr ?hash)"
    by (rule alpn_reader_ok [where fs = sfs, OF L f off])
  have "length ?bs \<le> length (stream_blocks f)"
    by (simp add: stream_blocks_def length_read_blocks_drop STREAM_CHUNK_nat)
  then have "length (bs_chunks s) < length (be_turns SE)"
    using S by (simp add: s_def alpn_setting_def)
  then have "\<exists>s'. alpn_send_loop i off (len64 f) None (be_turns SE) s = Some (Inr (), s')
      \<and> bs_conn s' = (bs_conn s)\<lparr>qc_out := qc_out (bs_conn s) @ concat (bs_chunks s)\<rparr>"
    using S w2 by (intro alpn_send_loop_ok)
      (simp_all add: alpn_setting_def s_def c2_def c1_def quic_open_def)
  then obtain s' where loop: "alpn_send_loop i off (len64 f) None (be_turns SE) s = Some (Inr (), s')"
    and out: "qc_out (bs_conn s') = json_frame jq @ drop (unat off) f"
    by (auto simp: s_def c2_def c1_def stream_blocks_def STREAM_CHUNK_nat)
  have "alpn_send_file L SE i p name force (quic_open (json_frame jr)) sw sfs
      = Some (alpn_send_finish SE i (Inr ?hash) (Inr ()) s')"
    using conn rq rs rd loop by (simp add: alpn_send_file_def s_def)
  with out show ?thesis
    by (simp add: alpn_send_finish_def reader_event_def ev emit_send_status_def Let_def)
qed

section \<open>The receiver's side\<close>

lemma write_chunks_ok:
  "write_chunks L [] cs h f = (Inr (foldl (hl_update L) h cs), f @ concat cs)"
  by (induction cs arbitrary: h f) auto

definition resumed_part :: "alpn_writer_ctx \<Rightarrow> filesystem \<Rightarrow> fdata" where
  "resumed_part x fs = (if aw_resume x then file_at (aw_path x) fs else [])"

lemma alpn_writer_ok:
  assumes "streaming_hash L" "aw_io x = io_all" "aw_writes x = []" "aw_resume x \<longrightarrow> fs (aw_path x) \<noteq> None"
    and "\<not> aw_resume x \<longrightarrow> aw_offset x = 0"
  shows "alpn_writer L x cs fs =
    (Inr (to_hex (blake3_hash L (take (unat (aw_offset x)) (resumed_part x fs) @ concat cs))),
     fs(aw_path x \<mapsto> resumed_part x fs @ concat cs))"
proof -
  let ?pre = "read_blocks 1048576 (take (unat (aw_offset x)) (resumed_part x fs))"
  have "hl_finalize L (foldl (hl_update L) (foldl (hl_update L) (hl_new L) ?pre) cs)
      = blake3_hash L (take (unat (aw_offset x)) (resumed_part x fs) @ concat cs)"
    using streaming_hash_segs [OF assms(1), of "?pre @ cs"] by (simp only: foldl_append concat_append
        concat_read_blocks zero_less_numeral)
  with assms show ?thesis
    by (cases "aw_resume x")
       (auto simp: alpn_writer_def write_chunks_ok io_all_def resumed_part_def Let_def)
qed

lemma alpn_recv_loop_ok:
  assumes "\<And>cs. \<not> isl (fst (alpn_writer L (ax_writer x) cs (ax_fs x)))"
    and "\<forall>t \<in> set ts. qt_user t = [] \<and> qt_user_read t = []"
    and "length (qc_in (as_conn s)) < length ts" "qc_error (as_conn s) = None"
    and "running_flag (ax_id x) (as_world s)"
  shows "\<exists>s'. alpn_recv_loop L x None ts s = Some (Inr (), s')
    \<and> as_conn s' = (as_conn s)\<lparr>qc_in := []\<rparr>
    \<and> concat (as_chunks s') = concat (as_chunks s) @ qc_in (as_conn s)"
  using assms(2-)
proof (induction ts arbitrary: s)
  case Nil
  then show ?case by simp
next
  case (Cons t ts)
  obtain r where r: "w_flags (as_world s) (ax_id x) = Some r" "flag_at r (as_world s) = flag_new"
    using Cons.prems(4) by (auto simp: running_flag_def)
  have turn: "alpn_recv_turn L x None t s = alpn_recv_read L x t (Some r) s"
    using r Cons.prems(1) running_wait by (simp add: alpn_recv_turn_def Let_def)
  show ?case
  proof (cases "qc_in (as_conn s) = []")
    case True
    then show ?thesis using turn r Cons.prems(1,3)
      by (simp add: alpn_recv_read_def quic_read_def Let_def)
  next
    case False
    obtain bs rest where q: "quic_read (qt_arrived t) (as_conn s) = (Inr bs, (as_conn s)\<lparr>qc_in := rest\<rparr>)"
      "bs \<noteq> []" "qc_in (as_conn s) = bs @ rest"
      using quic_read_some [OF False, of "qt_arrived t"] by blast
    let ?s = "s\<lparr>as_conn := (as_conn s)\<lparr>qc_in := rest\<rparr>\<rparr>"
    define s' where "s' = snd (alpn_recv_data L x t bs ?s)"
    have "fst (alpn_recv_data L x t bs ?s) = AlpnContinue"
      using assms(1) [of "as_chunks s"] by (simp add: alpn_recv_data_def Let_def)
    then have step: "alpn_recv_turn L x None t s = (AlpnContinue, s')"
      using turn r q Cons.prems(1) by (simp add: alpn_recv_read_def Let_def s'_def prod_eq_iff)
    have st: "as_conn s' = (as_conn s)\<lparr>qc_in := rest\<rparr>" "as_chunks s' = as_chunks s @ [bs]"
      "running_flag (ax_id x) (as_world s')"
      using assms(1) [of "as_chunks s"] Cons.prems(4)
      by (simp_all add: s'_def alpn_recv_data_def Let_def split: option.splits)
    have "0 < length bs" using q(2) by (cases bs) simp_all
    moreover have "length bs + length rest < Suc (length ts)" using Cons.prems(2) q(3) by simp
    ultimately have len: "length rest < length ts" by linarith
    have "\<exists>s''. alpn_recv_loop L x None ts s' = Some (Inr (), s'')
      \<and> as_conn s'' = (as_conn s')\<lparr>qc_in := []\<rparr>
      \<and> concat (as_chunks s'') = concat (as_chunks s') @ qc_in (as_conn s')"
      using Cons.prems len st by (intro Cons.IH) simp_all
    with step st q(3) show ?thesis by simp
  qed
qed

lemma alpn_receiver_runs:
  assumes S: "alpn_setting L SE RE i p name force f sfs"
    and tgt: "alpn_target out (plain_request SE i p name force f) rfs = (tgt, rsm)"
    and off: "off = alpn_resume_offset tgt rsm rfs"
    and jq: "ac_req_dec (be_codec SE) jq = Some (plain_request SE i p name force f)" "fits_json jq"
    and jr: "ac_resp_enc (be_codec SE) \<lparr>tr_accepted = True, tr_resume_offset = off\<rparr> = Some jr"
    and old: "old = (if rsm then file_at tgt rfs else [])"
  shows "\<exists>c w. alpn_handle_incoming L RE out (quic_open (json_frame jq @ drop (unat off) f)) rw rfs
      = Some (Inr (), c, w, rfs(tgt \<mapsto> old @ drop (unat off) f))
    \<and> qc_out c = json_frame jr \<and> w_flags w i = None \<and> w_active w i = None
    \<and> Complete i (path_text tgt) (to_hex (blake3_hash L (take (unat off) old @ drop (unat off) f)))
        (ae_elapsed RE) \<in> set (w_events w)"
proof -
  let ?rq = "plain_request SE i p name force f" and ?data = "drop (unat off) f"
  define c0 where "c0 = quic_open (json_frame jq @ ?data)"
  define c1 where "c1 = c0\<lparr>qc_in := ?data\<rparr>"
  have read: "quic_read_json (ac_req_dec (ae_codec RE)) c0 = (Inr ?rq, c1)"
    unfolding c1_def using S jq by (intro quic_read_json_ok) (simp_all add: alpn_setting_def c0_def quic_open_def)
  have id: "tq_request_id ?rq = i" by (simp add: plain_request_def)
  define w1 where "w1 = snd (alpn_recv_register ?rq rw)"
  define w2 where "w2 = set_status i ''transferring'' (apply_cmds (ae_answer RE) w1)"
  have rx: "alpn_recv_register ?rq rw = (length (w_oneshots rw), w1)"
    by (simp add: w1_def alpn_recv_register_def pending_register_def case_prod_beta Let_def)
  have ans: "pending_answer (length (w_oneshots rw)) (apply_cmds (ae_answer RE) w1)"
    using S by (simp add: alpn_setting_def w1_def alpn_recv_register_def id pending_register_def
        pending_respond_def pending_answer_def insert_flag_def case_prod_beta Let_def
        split: option.splits)
  have run: "running_flag i w2"
    using S by (simp add: w2_def alpn_setting_def w1_def alpn_recv_register_def id running_flag_def
        case_prod_beta Let_def flag_at_def)
  define c2 where "c2 = c1\<lparr>qc_out := json_frame jr\<rparr>"
  have prep: "alpn_recv_prepare (ae_codec RE) (ae_io RE) out ?rq rfs c1 w2 = (Inr (tgt, rsm, off), c2, w2)"
    using S jr by (simp add: alpn_recv_prepare_def tgt off alpn_setting_def io_all_def Let_def
        quic_write_json_ok c2_def c1_def c0_def quic_open_def)
  define x where "x = \<lparr>ax_writer = \<lparr>aw_io = ae_io RE, aw_path = tgt, aw_resume = rsm,
      aw_offset = off, aw_writes = ae_writes RE\<rparr>,
    ax_fs = rfs, ax_id = i, ax_total = tq_file_size ?rq\<rparr>"
  define s where "s = \<lparr>as_conn = c2, as_world = w2, as_chunks = [], as_bytes = 0\<rparr>"
  have rsm: "rsm \<longrightarrow> rfs tgt \<noteq> None" "\<not> rsm \<longrightarrow> off = 0"
    using tgt off by (auto simp: alpn_target_def alpn_resume_offset_def path_exists_def Let_def
        split: if_splits)
  have wr: "alpn_writer L (ax_writer x) cs rfs =
      (Inr (to_hex (blake3_hash L (take (unat off) old @ concat cs))), rfs(tgt \<mapsto> old @ concat cs))" for cs
    using S rsm alpn_writer_ok [of L "ax_writer x" rfs cs]
    by (simp add: alpn_setting_def x_def old resumed_part_def)
  have "\<exists>s'. alpn_recv_loop L x None (ae_turns RE) s = Some (Inr (), s')
      \<and> as_conn s' = (as_conn s)\<lparr>qc_in := []\<rparr>
      \<and> concat (as_chunks s') = concat (as_chunks s) @ qc_in (as_conn s)"
    using S run wr by (intro alpn_recv_loop_ok)
      (simp_all add: alpn_setting_def x_def s_def c2_def c1_def c0_def quic_open_def less_imp_diff_less)
  then obtain s' where loop: "alpn_recv_loop L x None (ae_turns RE) s = Some (Inr (), s')"
    and s': "qc_out (as_conn s') = json_frame jr" "concat (as_chunks s') = ?data"
    by (auto simp: s_def c2_def c1_def)
  have "alpn_handle_incoming L RE out c0 rw rfs = Some (alpn_recv_finish L x (ae_elapsed RE) (Inr ()) s')"
    using S read rx ans prep loop
    by (simp add: alpn_handle_incoming_def alpn_setting_def id w2_def x_def s_def Let_def)
  moreover have "ax_fs x = rfs" "aw_path (ax_writer x) = tgt" "ax_id x = i" by (simp_all add: x_def)
  ultimately show ?thesis
    by (simp add: alpn_recv_finish_def writer_event_def wr s' c0_def Let_def)
qed

section \<open>What arrives\<close>

lemma alpn_session_outcome:
  assumes S: "alpn_setting L SE RE i p name force f sfs"
    and tgt: "alpn_target out (plain_request SE i p name force f) rfs = (tgt, rsm)"
    and off: "off = alpn_resume_offset tgt rsm rfs"
    and old: "old = (if rsm then file_at tgt rfs else [])" and small: "length old < 2 ^ 62"
  shows "\<exists>s_in r_in c1 w1 c2 w2.
    alpn_session L SE RE i p name force out sw sfs rw rfs s_in r_in =
      Some ((Inr (to_hex (blake3_hash L f)), c1, w1), (Inr (), c2, w2, rfs(tgt \<mapsto> old @ drop (unat off) f)))
    \<and> w_flags w1 i = None \<and> w_active w1 i = None \<and> w_flags w2 i = None \<and> w_active w2 i = None
    \<and> Complete i (path_text tgt) (to_hex (blake3_hash L (take (unat off) old @ drop (unat off) f)))
        (ae_elapsed RE) \<in> set (w_events w2)"
proof -
  have off63: "unat off < 2 ^ 63"
  proof (cases rsm)
    case True
    then obtain g where g: "rfs tgt = Some g"
      using tgt by (auto simp: alpn_target_def path_exists_def Let_def split: if_splits)
    with True old have "old = g" by (simp add: file_at_def opt_default_def)
    then have "unat (len64 g) < 2 ^ 62" using small by (simp add: unat_len64)
    moreover have "unat (align_block STREAM_CHUNK_SIZE (len64 g)) \<le> unat (len64 g)"
      by (simp add: align_block_nat)
    ultimately show ?thesis using True g by (simp add: off alpn_resume_offset_def)
  qed (simp add: off alpn_resume_offset_def)
  obtain jq where jq: "ac_req_enc (be_codec SE) (plain_request SE i p name force f) = Some jq"
    "ac_req_dec (be_codec SE) jq = Some (plain_request SE i p name force f)" "fits_json jq"
    using S by (auto simp: alpn_setting_def alpn_codec_ready_def)
  obtain jr where jr: "ac_resp_enc (be_codec SE) \<lparr>tr_accepted = True, tr_resume_offset = off\<rparr> = Some jr"
    "ac_resp_dec (be_codec SE) jr = Some \<lparr>tr_accepted = True, tr_resume_offset = off\<rparr>" "fits_json jr"
    using S unfolding alpn_setting_def alpn_codec_ready_def by blast
  obtain c1 w1 where s: "alpn_send_file L SE i p name force (quic_open (json_frame jr)) sw sfs
      = Some (Inr (to_hex (blake3_hash L f)), c1, w1)" "qc_out c1 = json_frame jq @ drop (unat off) f"
    "w_flags w1 i = None" "w_active w1 i = None"
    using alpn_sender_runs [OF S off63 jq(1) jr(2,3)] by blast
  obtain c2 w2 where r: "alpn_handle_incoming L RE out (quic_open (qc_out c1)) rw rfs
      = Some (Inr (), c2, w2, rfs(tgt \<mapsto> old @ drop (unat off) f))" "qc_out c2 = json_frame jr"
    "w_flags w2 i = None" "w_active w2 i = None"
    "Complete i (path_text tgt) (to_hex (blake3_hash L (take (unat off) old @ drop (unat off) f)))
        (ae_elapsed RE) \<in> set (w_events w2)"
    using alpn_receiver_runs [OF S tgt off jq(2,3) jr(1) old] unfolding s(2) by blast
  show ?thesis
    by (rule exI [of _ "qc_out c2"], rule exI [of _ "qc_out c1"])
       (use s(1,3,4) r in \<open>simp add: alpn_session_def r(2)\<close>)
qed

text \<open>
  C6. A fresh QUIC transfer delivers the file: when the name is free or a restart is
  forced, both programs succeed, the file appears under a path that did not exist before
  (unless every numbered name is taken), nothing else changes, both report its digest, and
  the transfer has left the tables of flags and of active transfers on both sides.
\<close>

theorem alpn_session_delivers:
  assumes "alpn_setting L SE RE i p name force f sfs"
    and "force \<or> rfs (path_join out (path_of (opt_default [] (file_name p)))) = None"
  shows "\<exists>s_in r_in c1 w1 c2 w2 tgt.
    alpn_session L SE RE i p name force out sw sfs rw rfs s_in r_in =
      Some ((Inr (to_hex (blake3_hash L f)), c1, w1), (Inr (), c2, w2, rfs(tgt \<mapsto> f)))
    \<and> tgt = unique_path rfs (path_join out (path_of (opt_default [] (file_name p))))
    \<and> w_flags w1 i = None \<and> w_active w1 i = None \<and> w_flags w2 i = None \<and> w_active w2 i = None
    \<and> Complete i (path_text tgt) (to_hex (blake3_hash L f)) (ae_elapsed RE) \<in> set (w_events w2)"
proof -
  let ?t = "unique_path rfs (path_join out (path_of (opt_default [] (file_name p))))"
  have "alpn_target out (plain_request SE i p name force f) rfs = (?t, False)"
    using assms(2) by (auto simp: alpn_target_def plain_request_def path_exists_def Let_def)
  from alpn_session_outcome [OF assms(1) this refl refl, of sw rw] show ?thesis
    by (auto simp: alpn_resume_offset_def)
qed

lemma alpn_resumes:
  assumes "alpn_setting L SE RE i p name False f sfs"
    and tgt: "tgt = path_join out (path_of (opt_default [] (file_name p)))" "rfs tgt = Some g"
    and g: "length g < 2 ^ 62"
  shows "\<exists>s_in r_in c1 w1 c2 w2.
    alpn_session L SE RE i p name False out sw sfs rw rfs s_in r_in =
      Some ((Inr (to_hex (blake3_hash L f)), c1, w1),
            (Inr (), c2, w2, rfs(tgt \<mapsto> g @ drop (length g div 4194304 * 4194304) f)))
    \<and> Complete i (path_text tgt) (to_hex (blake3_hash L (take (length g div 4194304 * 4194304) g
          @ drop (length g div 4194304 * 4194304) f))) (ae_elapsed RE) \<in> set (w_events w2)"
proof -
  have t: "alpn_target out (plain_request SE i p name False f) rfs = (tgt, True)"
    using tgt by (simp add: alpn_target_def plain_request_def path_exists_def Let_def)
  have u: "unat (len64 g) = length g" using g by (simp add: unat_len64)
  have o: "unat (alpn_resume_offset tgt True rfs) = length g div 4194304 * 4194304"
    using tgt(2) by (simp add: alpn_resume_offset_def align_block_nat STREAM_CHUNK_nat u)
  from alpn_session_outcome [OF assms(1) t refl refl, of sw rw] show ?thesis
    using tgt(2) g by (simp add: o file_at_def opt_default_def) blast
qed

text \<open>
  C7. Silent corruption on resume: when the receiver already holds a prefix of the file
  (or all of it) that does not end at a 4 MB boundary, the data from the last boundary on is appended to
  the whole prefix. Both programs report success, the digest in the receiver's completion
  event equals the sender's, and yet the stored file is longer than the sent one.
\<close>

theorem alpn_unaligned_resume_corrupts:
  assumes "alpn_setting L SE RE i p name False f sfs"
    and "tgt = path_join out (path_of (opt_default [] (file_name p)))" "rfs tgt = Some g"
    and "f = g @ rest" "length g mod 4194304 \<noteq> 0"
  shows "\<exists>s_in r_in c1 w1 c2 w2 stored.
    alpn_session L SE RE i p name False out sw sfs rw rfs s_in r_in =
      Some ((Inr (to_hex (blake3_hash L f)), c1, w1), (Inr (), c2, w2, rfs(tgt \<mapsto> stored)))
    \<and> Complete i (path_text tgt) (to_hex (blake3_hash L f)) (ae_elapsed RE) \<in> set (w_events w2)
    \<and> length f < length stored"
proof -
  let ?o = "length g div 4194304 * 4194304"
  have f: "length f < 2 ^ 62" using assms(1) by (simp add: alpn_setting_def)
  then have g: "length g < 2 ^ 62" using assms(4) by simp
  have "?o + length g mod 4194304 = length g" by simp
  then have o: "?o < length g" using assms(5) by linarith
  then have "take ?o g = take ?o f" using assms(4) by simp
  then have e: "take ?o g @ drop ?o f = f" by simp
  have "length f < length (g @ drop ?o f)" using o assms(4) by simp
  then show ?thesis
    using alpn_resumes [where rfs = rfs and tgt = tgt, OF assms(1-3) g, of sw rw]
    unfolding e by blast
qed

text \<open>
  A resume at a block boundary is correct: a prefix of whole 4 MB blocks is kept and
  completed, the target becomes the sender's file and both digests are its digest.
\<close>

theorem alpn_aligned_resume_correct:
  assumes "alpn_setting L SE RE i p name False f sfs"
    and "tgt = path_join out (path_of (opt_default [] (file_name p)))" "rfs tgt = Some g"
    and "f = g @ rest" "length g mod 4194304 = 0"
  shows "\<exists>s_in r_in c1 w1 c2 w2.
    alpn_session L SE RE i p name False out sw sfs rw rfs s_in r_in =
      Some ((Inr (to_hex (blake3_hash L f)), c1, w1), (Inr (), c2, w2, rfs(tgt \<mapsto> f)))
    \<and> Complete i (path_text tgt) (to_hex (blake3_hash L f)) (ae_elapsed RE) \<in> set (w_events w2)"
proof -
  have "length f < 2 ^ 62" using assms(1) by (simp add: alpn_setting_def)
  then have g: "length g < 2 ^ 62" using assms(4) by simp
  have o: "length g div 4194304 * 4194304 = length g"
    using assms(5) div_mult_mod_eq [of "length g" 4194304] by simp
  show ?thesis
    using alpn_resumes [where rfs = rfs and tgt = tgt, OF assms(1-3) g, of sw rw] by (simp add: o assms(4))
qed

section \<open>A concrete session\<close>

definition demo_name :: string where "demo_name = ''/a/b''"

definition demo_alpn_codec :: "transfer_request \<Rightarrow> alpn_codec" where
  "demo_alpn_codec rq = \<lparr>ac_req_enc = (\<lambda>r. if r = rq then Some [1] else None),
     ac_req_dec = (\<lambda>j. if j = [1] then Some rq else None),
     ac_resp_enc = (\<lambda>r. Some ((if tr_accepted r then 1 else 0) # u64_to_be (tr_resume_offset r))),
     ac_resp_dec = (\<lambda>j. case j of [] \<Rightarrow> None
        | b # bs \<Rightarrow> Some \<lparr>tr_accepted = (b = 1), tr_resume_offset = u64_from_be bs\<rparr>)\<rparr>"

definition demo_alpn_SE :: "fdata \<Rightarrow> alpn_send_env" where
  "demo_alpn_SE f =
     (let rq = \<lparr>tq_request_id = ''r1'', tq_sender_name = ''me'', tq_sender_node_id = ''n1'',
            tq_file_name = opt_default [] (file_name (path_of demo_name)), tq_file_size = len64 f,
            tq_resume_offset = 0, tq_force_restart = False\<rparr>
      in \<lparr>be_codec = demo_alpn_codec rq, be_io = io_all, be_node_id = ''n1'', be_connect = Connected,
          be_timeout = False,
          be_turns = replicate (Suc (length (stream_blocks f)))
            \<lparr>qs_user = [], qs_user_dequeue = [], qs_user_write = [], qs_progress = None\<rparr>,
          be_finish = None\<rparr>)"

definition demo_alpn_RE :: "fdata \<Rightarrow> alpn_recv_env" where
  "demo_alpn_RE f = \<lparr>ae_codec = be_codec (demo_alpn_SE f), ae_io = io_all, ae_accept_bi = None,
     ae_answer = [RespondCmd ''r1'' True],
     ae_turns = replicate (Suc (length f)) \<lparr>qt_user = [], qt_user_read = [], qt_cancel_wins = False,
       qt_arrived = 1, qt_progress = None, qt_sees_writer = False\<rparr>,
     ae_writes = [], ae_elapsed = 1\<rparr>"

lemma demo_alpn_setting:
  "length f < 2 ^ 62 \<Longrightarrow>
   alpn_setting demo_hash (demo_alpn_SE f) (demo_alpn_RE f) ''r1'' (path_of demo_name) ''me'' False f
     [path_of demo_name \<mapsto> f]"
  using demo_hash_streaming
  by (simp add: alpn_setting_def demo_alpn_SE_def demo_alpn_RE_def alpn_codec_ready_def
      plain_request_def demo_alpn_codec_def io_all_def fits_json_def Let_def)

definition demo_alpn_target :: path where
  "demo_alpn_target = path_join (path_of ''/out'') (path_of (opt_default [] (file_name (path_of demo_name))))"

lemma alpn_session_delivers_witness:
  "\<exists>s_in r_in c1 w1 c2 w2 tgt.
    alpn_session demo_hash (demo_alpn_SE [1, 2]) (demo_alpn_RE [1, 2]) ''r1'' (path_of demo_name) ''me''
      False (path_of ''/out'') world_new [path_of demo_name \<mapsto> [1, 2]] world_new Map.empty s_in r_in =
      Some ((Inr (to_hex (blake3_hash demo_hash [1, 2])), c1, w1),
        (Inr (), c2, w2, Map.empty(tgt \<mapsto> [1, 2])))
    \<and> tgt = unique_path Map.empty (path_join (path_of ''/out'')
        (path_of (opt_default [] (file_name (path_of demo_name)))))
    \<and> w_flags w1 ''r1'' = None \<and> w_active w1 ''r1'' = None \<and> w_flags w2 ''r1'' = None \<and> w_active w2 ''r1'' = None
    \<and> Complete ''r1'' (path_text tgt) (to_hex (blake3_hash demo_hash [1, 2]))
        (ae_elapsed (demo_alpn_RE [1, 2])) \<in> set (w_events w2)"
  by (rule alpn_session_delivers [OF demo_alpn_setting]) simp_all

lemma alpn_unaligned_resume_corrupts_witness:
  "\<exists>s_in r_in c1 w1 c2 w2 stored.
    alpn_session demo_hash (demo_alpn_SE [1, 2]) (demo_alpn_RE [1, 2]) ''r1'' (path_of demo_name) ''me''
      False (path_of ''/out'') world_new [path_of demo_name \<mapsto> [1, 2]] world_new
      (Map.empty(demo_alpn_target \<mapsto> [1])) s_in r_in =
      Some ((Inr (to_hex (blake3_hash demo_hash [1, 2])), c1, w1),
        (Inr (), c2, w2, Map.empty(demo_alpn_target \<mapsto> [1], demo_alpn_target \<mapsto> stored)))
    \<and> Complete ''r1'' (path_text demo_alpn_target) (to_hex (blake3_hash demo_hash [1, 2]))
        (ae_elapsed (demo_alpn_RE [1, 2])) \<in> set (w_events w2)
    \<and> length [1, 2 :: byte] < length stored"
  by (rule alpn_unaligned_resume_corrupts [OF demo_alpn_setting demo_alpn_target_def, where g = "[1]"])
     simp_all

lemma alpn_aligned_resume_correct_witness:
  "\<exists>s_in r_in c1 w1 c2 w2.
    alpn_session demo_hash (demo_alpn_SE [1, 2]) (demo_alpn_RE [1, 2]) ''r1'' (path_of demo_name) ''me''
      False (path_of ''/out'') world_new [path_of demo_name \<mapsto> [1, 2]] world_new
      (Map.empty(demo_alpn_target \<mapsto> [])) s_in r_in =
      Some ((Inr (to_hex (blake3_hash demo_hash [1, 2])), c1, w1),
        (Inr (), c2, w2, Map.empty(demo_alpn_target \<mapsto> [], demo_alpn_target \<mapsto> [1, 2])))
    \<and> Complete ''r1'' (path_text demo_alpn_target) (to_hex (blake3_hash demo_hash [1, 2]))
        (ae_elapsed (demo_alpn_RE [1, 2])) \<in> set (w_events w2)"
  by (rule alpn_aligned_resume_correct [OF demo_alpn_setting demo_alpn_target_def, where g = "[]"])
     simp_all

end
