(* ===== verification/Cancel.thy ===== *)
theory Cancel
  imports Tcp_Recv Alpn_Recv
begin

text \<open>
  Cancelling a receiving transfer, across the two protocols and the two user interfaces.
  The TCP receiver keeps a reference to its flag; the QUIC receiver looks the flag up in
  the table in every turn, and keeps it only while it waits in a pause. The desktop's cancel
  command cancels the flag and then removes it from the table; the mobile one only cancels it.
\<close>

section \<open>A run in which nobody acts\<close>

definition undisturbed :: "alpn_turn \<Rightarrow> alpn_turn" where
  "undisturbed t = t\<lparr>qt_user := [], qt_user_read := []\<rparr>"

text \<open>What a run of the receiver leaves: its result, the connection and the files.\<close>

definition alpn_outcome ::
  "'h hash_lib \<Rightarrow> alpn_recv_ctx \<Rightarrow> rat \<Rightarrow> (string + unit) \<times> alpn_recv_state
     \<Rightarrow> (string + unit) \<times> quic_conn \<times> filesystem" where
  "alpn_outcome L x elapsed = (\<lambda>(r, s). let (res, c, w, fs) = alpn_recv_finish L x elapsed r s in (res, c, fs))"

text \<open>Two states that differ at most in the registries, the flag being gone in one and idle in the other.\<close>

definition same_transfer :: "alpn_recv_state \<Rightarrow> alpn_recv_state \<Rightarrow> bool" where
  "same_transfer s s2 \<longleftrightarrow> as_conn s = as_conn s2 \<and> as_chunks s = as_chunks s2 \<and> as_bytes s = as_bytes s2"

definition idle_flag :: "string \<Rightarrow> nat \<Rightarrow> world \<Rightarrow> bool" where
  "idle_flag i r w \<longleftrightarrow> w_flags w i = Some r \<and> \<not> is_paused (flag_at r w) \<and> \<not> is_cancelled (flag_at r w)"

lemma idle_flag_simps [simp]:
  "idle_flag i r (emit e w) = idle_flag i r w" "idle_flag i r (set_bytes j n w) = idle_flag i r w"
  by (simp_all add: idle_flag_def)

lemma outcome_same:
  "same_transfer s s2 \<Longrightarrow> alpn_outcome L x el (r, s) = alpn_outcome L x el (r, s2)"
  by (simp add: alpn_outcome_def alpn_recv_finish_def same_transfer_def Let_def split: sum.splits prod.splits)

lemma data_unseen:
  assumes "same_transfer s s2" "w_flags (as_world s) (ax_id x) = None" "idle_flag (ax_id x) r (as_world s2)"
    and "alpn_recv_data L x t bs s = (c, s')" "alpn_recv_data L x (undisturbed t) bs s2 = (c2, s2')"
  shows "c = c2 \<and> same_transfer s' s2' \<and> w_flags (as_world s') (ax_id x) = None
    \<and> idle_flag (ax_id x) r (as_world s2') \<and> (\<forall>q. c \<noteq> AlpnWait q)"
  using assms
  by (auto simp: alpn_recv_data_def undisturbed_def same_transfer_def Let_def split: if_splits option.splits)

lemma read_unseen:
  assumes "same_transfer s s2" "w_flags (as_world s) (ax_id x) = None" "idle_flag (ax_id x) r (as_world s2)"
    and "alpn_recv_read L x t None s = (c, s')" "alpn_recv_read L x (undisturbed t) (Some r) s2 = (c2, s2')"
  shows "c = c2 \<and> same_transfer s' s2' \<and> w_flags (as_world s') (ax_id x) = None
    \<and> idle_flag (ax_id x) r (as_world s2') \<and> (\<forall>q. c \<noteq> AlpnWait q)"
proof -
  let ?s = "s\<lparr>as_world := apply_cmds (qt_user_read t) (as_world s)\<rparr>"
  have gone: "w_flags (as_world ?s) (ax_id x) = None" using apply_cmds_no_entry(2) [OF assms(2)] by simp
  have same: "same_transfer ?s s2" using assms(1) by (simp add: same_transfer_def)
  have clear: "\<not> is_cancelled (flag_at r (as_world s2))" using assms(3) by (simp add: idle_flag_def)
  obtain a d where rd: "quic_read (qt_arrived t) (as_conn ?s) = (a, d)" by fastforce
  have rd2: "quic_read (qt_arrived (undisturbed t)) (as_conn s2) = (a, d)"
    using rd same by (simp add: undisturbed_def same_transfer_def)
  have "same_transfer (?s\<lparr>as_conn := d\<rparr>) (s2\<lparr>as_conn := d\<rparr>)" using same by (simp add: same_transfer_def)
  note D = data_unseen [OF this, of x r L t]
  have u: "qt_user_read (undisturbed t) = []" by (simp add: undisturbed_def)
  show ?thesis
  proof (cases "\<exists>e. a = Inl e \<or> a = Inr []")
    case True
    with rd rd2 u clear assms(3-5) gone same show ?thesis
      by (auto simp: alpn_recv_read_def same_transfer_def Let_def)
  next
    case False
    then obtain bs where bs: "a = Inr bs" "bs \<noteq> []" by (cases a) auto
    from assms(4,5) rd rd2 u clear bs have
      "alpn_recv_data L x t bs (?s\<lparr>as_conn := d\<rparr>) = (c, s')"
      "alpn_recv_data L x (undisturbed t) bs (s2\<lparr>as_conn := d\<rparr>) = (c2, s2')"
      by (simp_all add: alpn_recv_read_def Let_def)
    moreover have "w_flags (as_world (?s\<lparr>as_conn := d\<rparr>)) (ax_id x) = None"
      "idle_flag (ax_id x) r (as_world (s2\<lparr>as_conn := d\<rparr>))" using gone assms(3) by simp_all
    ultimately show ?thesis using D by blast
  qed
qed

lemma loop_unseen:
  assumes "same_transfer s s2" "w_flags (as_world s) (ax_id x) = None" "idle_flag (ax_id x) r (as_world s2)"
  shows "map_option (alpn_outcome L x el) (alpn_recv_loop L x None ts s)
    = map_option (alpn_outcome L x el) (alpn_recv_loop L x None (map undisturbed ts) s2)"
  using assms
proof (induction ts arbitrary: s s2)
  case (Cons t ts)
  let ?s = "s\<lparr>as_world := apply_cmds (qt_user t) (as_world s)\<rparr>"
  have gone: "w_flags (as_world ?s) (ax_id x) = None" using apply_cmds_no_entry(2) [OF Cons.prems(2)] by simp
  have same: "same_transfer ?s s2" using Cons.prems(1) by (simp add: same_transfer_def)
  obtain c s' where A: "alpn_recv_read L x t None ?s = (c, s')" by fastforce
  obtain c2 s2' where B: "alpn_recv_read L x (undisturbed t) (Some r) s2 = (c2, s2')" by fastforce
  note R = read_unseen [OF same gone Cons.prems(3) A B]
  have "alpn_recv_turn L x None t s = (c, s')" using gone A by (simp add: alpn_recv_turn_def Let_def)
  moreover have "alpn_recv_turn L x None (undisturbed t) s2 = (c2, s2')"
    using Cons.prems(3) B by (simp add: alpn_recv_turn_def idle_flag_def wait_result_def undisturbed_def Let_def)
  ultimately show ?case using R Cons.IH [of s' s2'] outcome_same [of s' s2' L x el] by (cases c) auto
qed simp

section \<open>Where a cancel is seen\<close>

lemma wait_cancelled: "wait_result (flag_cancel f) = Some True"
  by (simp add: wait_result_def)

lemma cancel_reaches:
  assumes "w_flags w i = Some r" "r < length (w_flag_store w)" "cmd \<in> {CancelCmd i, GuiCancelCmd i}"
  shows "flag_at r (apply_cmd cmd w) = flag_cancel (flag_at r w)"
  using assms by (auto simp: flag_at_signal)

text \<open>
  C13. Where a cancel of a receiving transfer is seen. The TCP receiver returns at the next
  turn after either command. The QUIC receiver does so after the command of the mobile
  application, and after that of the desktop while it waits in a pause. But when it is not
  paused and the desktop's cancel falls between two turns, the cancel is lost for good:
  whatever the user does later, the receiver goes on to the same result, the same answer on
  the connection and the same files as if nobody had done anything.
\<close>

theorem cancel_between_turns:
  assumes "w_flags w i = Some r" "r < length (w_flag_store w)"
    and tcp: "rs_world s = w" "rc_id x = i" "rc_flag x = r" "rt_user t = [cmd]"
    and quic: "as_world s' = w" "ax_id x' = i" "qt_user t' = [cmd]" and "cmd \<in> {CancelCmd i, GuiCancelCmd i}"
  shows "(\<exists>v. tcp_recv_loop x (t # ts) s = Some (Inl ''cancelled'', v))
    \<and> alpn_recv_loop L x' (Some r) (t' # ts') s'
        = Some (Inl ''Transfer cancelled by user'', s'\<lparr>as_world := apply_cmd cmd w\<rparr>)
    \<and> (cmd = CancelCmd i \<longrightarrow> alpn_recv_loop L x' None (t' # ts') s'
        = Some (Inl ''Transfer cancelled by user'', s'\<lparr>as_world := apply_cmd cmd w\<rparr>))
    \<and> (cmd = GuiCancelCmd i \<and> \<not> is_paused (flag_at r w) \<and> \<not> is_cancelled (flag_at r w) \<longrightarrow>
        map_option (alpn_outcome L x' el) (alpn_recv_loop L x' None (t' # ts') s')
          = map_option (alpn_outcome L x' el) (alpn_recv_loop L x' None (map undisturbed (t' # ts')) s'))"
proof (intro conjI impI)
  note C = cancel_reaches [OF assms(1,2,10)]
  show "\<exists>v. tcp_recv_loop x (t # ts) s = Some (Inl ''cancelled'', v)"
    using C tcp wait_cancelled by (simp add: tcp_recv_turn_def Let_def)
  show "alpn_recv_loop L x' (Some r) (t' # ts') s'
      = Some (Inl ''Transfer cancelled by user'', s'\<lparr>as_world := apply_cmd cmd w\<rparr>)"
    using C quic wait_cancelled by (simp add: alpn_recv_turn_def alpn_cancelled_def Let_def)
  show "alpn_recv_loop L x' None (t' # ts') s'
      = Some (Inl ''Transfer cancelled by user'', s'\<lparr>as_world := apply_cmd cmd w\<rparr>)" if "cmd = CancelCmd i"
    using C quic wait_cancelled assms(1) that by (simp add: alpn_recv_turn_def alpn_cancelled_def Let_def)
  assume lost: "cmd = GuiCancelCmd i \<and> \<not> is_paused (flag_at r w) \<and> \<not> is_cancelled (flag_at r w)"
  let ?t = "t'\<lparr>qt_user := []\<rparr>" and ?s = "s'\<lparr>as_world := apply_cmd cmd w\<rparr>"
  have gone: "w_flags (as_world ?s) (ax_id x') = None" using lost quic(2) by simp
  have "alpn_recv_turn L x' None t' s' = alpn_recv_turn L x' None ?t ?s"
  proof -
    have "alpn_recv_data L x' t' = alpn_recv_data L x' ?t" by (intro ext) (simp add: alpn_recv_data_def)
    then have "alpn_recv_read L x' t' None ?s = alpn_recv_read L x' ?t None ?s"
      by (simp add: alpn_recv_read_def Let_def split: sum.split prod.split)
    with quic(1,3) gone show ?thesis by (simp add: alpn_recv_turn_def Let_def)
  qed
  then have "alpn_recv_loop L x' None (t' # ts') s' = alpn_recv_loop L x' None (?t # ts') ?s" by simp
  moreover have "undisturbed ?t = undisturbed t'" by (simp add: undisturbed_def)
  moreover have "same_transfer ?s s'" "idle_flag (ax_id x') r (as_world s')"
    using lost quic(1,2) assms(1) by (simp_all add: same_transfer_def idle_flag_def)
  ultimately show "map_option (alpn_outcome L x' el) (alpn_recv_loop L x' None (t' # ts') s')
      = map_option (alpn_outcome L x' el) (alpn_recv_loop L x' None (map undisturbed (t' # ts')) s')"
    using loop_unseen [OF _ gone, of s' r L el "?t # ts'"] by simp
qed

section \<open>A concrete cancel\<close>

definition demo_cancel_turn :: "user_cmd list \<Rightarrow> alpn_turn" where
  "demo_cancel_turn cs = \<lparr>qt_user = cs, qt_user_read = [], qt_cancel_wins = True, qt_arrived = 1,
     qt_progress = None, qt_sees_writer = False\<rparr>"

definition demo_cancel_ctx :: alpn_recv_ctx where
  "demo_cancel_ctx = \<lparr>ax_writer = \<lparr>aw_io = io_all, aw_path = path_of ''/o'', aw_resume = False, aw_offset = 0,
     aw_writes = []\<rparr>, ax_fs = Map.empty, ax_id = ''q'', ax_total = 1\<rparr>"

definition demo_cancel_state :: alpn_recv_state where
  "demo_cancel_state = \<lparr>as_conn = quic_open [7], as_world = snd (insert_flag ''q'' world_new), as_chunks = [], as_bytes = 0\<rparr>"

text \<open>The desktop's cancel falls before the first turn; the transfer completes all the same.\<close>

lemma cancel_between_turns_witness:
  "\<exists>o1. map_option (alpn_outcome demo_hash demo_cancel_ctx 0) (alpn_recv_loop demo_hash demo_cancel_ctx None
      [demo_cancel_turn [GuiCancelCmd ''q''], demo_cancel_turn [CancelCmd ''q'']] demo_cancel_state) = Some (Inr (), o1)
     \<and> snd o1 = [path_of ''/o'' \<mapsto> [7]]"
proof -
  let ?w = "as_world demo_cancel_state" and ?ts = "[demo_cancel_turn [CancelCmd ''q'']]"
  let ?t = "demo_cancel_turn [GuiCancelCmd ''q'']"
  have w: "w_flags ?w ''q'' = Some 0" "0 < length (w_flag_store ?w)" "flag_at 0 ?w = flag_new"
    by (simp_all add: demo_cancel_state_def world_new_def flag_at_def)
  have lost: "map_option (alpn_outcome demo_hash demo_cancel_ctx 0) (alpn_recv_loop demo_hash demo_cancel_ctx None (?t # ?ts) demo_cancel_state)
      = map_option (alpn_outcome demo_hash demo_cancel_ctx 0)
          (alpn_recv_loop demo_hash demo_cancel_ctx None (map undisturbed (?t # ?ts)) demo_cancel_state)"
    by (rule cancel_between_turns [THEN conjunct2, THEN conjunct2, THEN conjunct2, rule_format, OF w(1,2), where cmd = "GuiCancelCmd ''q''"
          and x = "\<lparr>rc_writer = \<lparr>wc_crypto = demo_crypto, wc_io = io_all, wc_key = [], wc_prefix = [],
              wc_path = path_of ''/o'', wc_resume = False, wc_writes = []\<rparr>, rc_fs = Map.empty,
              rc_addr = [], rc_id = ''q'', rc_flag = 0, rc_total = 1\<rparr>"
          and t = "\<lparr>rt_user = [GuiCancelCmd ''q''], rt_progress = None, rt_sees_writer = False\<rparr>"
          and s = "\<lparr>rs_conn = conn_open [], rs_world = ?w, rs_blocks = [], rs_block_index = 0,
              rs_bytes = 0, rs_hash = []\<rparr>"])
       (simp_all add: w demo_cancel_ctx_def demo_cancel_turn_def)
  have "wait_result flag_new = Some False" by (simp add: wait_result_def)
  then have "alpn_recv_loop demo_hash demo_cancel_ctx None (map undisturbed (?t # ?ts)) demo_cancel_state
      = Some (Inr (), demo_cancel_state\<lparr>as_conn := (quic_open [7])\<lparr>qc_in := []\<rparr>, as_chunks := [[7]], as_bytes := 1\<rparr>)"
    using w(1,3)
    by (simp add: alpn_recv_turn_def alpn_recv_read_def alpn_recv_data_def undisturbed_def demo_cancel_turn_def
        demo_cancel_ctx_def demo_cancel_state_def quic_read_def quic_open_def len64_def Let_def)
  then show ?thesis unfolding lost
    by (simp add: alpn_outcome_def alpn_recv_finish_def alpn_writer_def demo_cancel_ctx_def io_all_def Let_def)
qed

end
