(* ===== verification/Compression.thy ===== *)
theory Compression
  imports Paths
begin

text \<open>
  \<open>p2ptransfer-core/src/compress/\<close>: the detector that decides from a path's extension and
  a file's first bytes whether compressing is worth it, and the Zstd and LZ4 wrappers. The
  codecs are third-party code, the parameters \<open>zstd_lib\<close> and \<open>lz4_lib\<close>; the state of the
  Zstd wrapper is the thread-local table of compressors, one per level.
\<close>

section \<open>Detector (detector.rs)\<close>

definition ALREADY_COMPRESSED_EXTENSIONS :: "string list" where
  "ALREADY_COMPRESSED_EXTENSIONS =
    [''zip'', ''gz'', ''gzip'', ''bz2'', ''xz'', ''zst'', ''zstd'', ''lz4'', ''lzma'', ''rar'',
     ''7z'', ''tgz'', ''tar'', ''zlib'', ''mp3'', ''mp4'', ''m4a'', ''m4v'', ''mkv'', ''avi'',
     ''mov'', ''wmv'', ''flv'', ''webm'', ''jpg'', ''jpeg'', ''png'', ''gif'', ''webp'', ''bmp'',
     ''tiff'', ''ico'', ''pdf'', ''docx'', ''xlsx'', ''pptx'', ''woff'', ''woff2'', ''ttf'', ''otf'']"

definition COMPRESSED_MAGIC_BYTES :: "(byte list \<times> string) list" where
  "COMPRESSED_MAGIC_BYTES =
    [([0x1f, 0x8b], ''gzip''),
     ([0x1f, 0x9d], ''zlib (compress)''),
     ([0x42, 0x5a, 0x68], ''bzip2''),
     ([0x50, 0x4b, 0x03, 0x04], ''zip/docx/xlsx/pptx''),
     ([0x52, 0x61, 0x72, 0x21, 0x1a, 0x07], ''rar''),
     ([0x28, 0xb5, 0x2f, 0xfd], ''zstd''),
     ([0x89, 0x50, 0x4e, 0x47, 0x0d, 0x0a, 0x1a, 0x0a], ''png''),
     ([0xff, 0xd8, 0xff], ''jpeg''),
     ([0x00, 0x00, 0x00, 0x18, 0x66, 0x74, 0x79, 0x70], ''mp4''),
     ([0x1a, 0x45, 0xdf, 0xa3], ''webm/mkv''),
     ([0x47, 0x49, 0x46, 0x38], ''gif''),
     ([0x52, 0x49, 0x46, 0x46], ''webp''),
     ([0x25, 0x50, 0x44, 0x46], ''pdf'')]"

text \<open>
  \<open>to_lowercase\<close> on the ASCII letters. (Unicode has one more letter, the Kelvin sign, whose
  lower case is an ASCII letter; it is not modelled.)
\<close>

definition lower_char :: "char \<Rightarrow> char" where
  "lower_char c = (let n = (of_char c :: nat) in
     if 65 \<le> n \<and> n \<le> 90 then char_of (n + 32) else c)"

definition to_lowercase :: "string \<Rightarrow> string" where
  "to_lowercase s = map lower_char s"

definition extension_listed :: "path \<Rightarrow> bool" where
  "extension_listed p =
     (case path_extension p of
        Some ext \<Rightarrow> to_lowercase ext \<in> set ALREADY_COMPRESSED_EXTENSIONS
      | None \<Rightarrow> False)"

definition is_likely_compressed :: "path \<Rightarrow> byte list \<Rightarrow> bool" where
  "is_likely_compressed p first_bytes =
     (if extension_listed p then True
      else list_ex (\<lambda>(magic, _). length first_bytes \<ge> length magic
                      \<and> take (length magic) first_bytes = magic)
             COMPRESSED_MAGIC_BYTES)"

definition is_likely_compressed_fast :: "path \<Rightarrow> byte list \<Rightarrow> bool" where
  "is_likely_compressed_fast p first_bytes = extension_listed p"

lemma lower_char_idem [simp]: "lower_char (lower_char c) = lower_char c"
  by (auto simp: lower_char_def Let_def)

lemma to_lowercase_idem [simp]: "to_lowercase (to_lowercase s) = to_lowercase s"
  by (simp add: to_lowercase_def)

lemma fast_implies_full:
  "is_likely_compressed_fast p bs \<Longrightarrow> is_likely_compressed p bs'"
  by (simp add: is_likely_compressed_fast_def is_likely_compressed_def)

lemma magic_detected:
  "(m, n) \<in> set COMPRESSED_MAGIC_BYTES \<Longrightarrow> is_likely_compressed p (m @ rest)"
  by (auto simp: is_likely_compressed_def list_ex_iff intro!: bexI [of _ "(m, n)"])

lemma full_iff:
  "is_likely_compressed p bs \<longleftrightarrow>
     is_likely_compressed_fast p bs
     \<or> (\<exists>m n r. (m, n) \<in> set COMPRESSED_MAGIC_BYTES \<and> bs = m @ r)"
proof
  assume "is_likely_compressed p bs"
  then show "is_likely_compressed_fast p bs
     \<or> (\<exists>m n r. (m, n) \<in> set COMPRESSED_MAGIC_BYTES \<and> bs = m @ r)"
    by (auto simp: is_likely_compressed_def is_likely_compressed_fast_def list_ex_iff
        split: if_splits) (metis append_take_drop_id)
next
  assume "is_likely_compressed_fast p bs
     \<or> (\<exists>m n r. (m, n) \<in> set COMPRESSED_MAGIC_BYTES \<and> bs = m @ r)"
  then show "is_likely_compressed p bs"
    using fast_implies_full magic_detected by blast
qed

section \<open>Zstd (zstd.rs)\<close>

record 'c zstd_lib =
  z_new :: "int \<Rightarrow> 'c option"
  z_bulk :: "'c \<Rightarrow> byte list \<Rightarrow> byte list option"
  z_stream_encode :: "int \<Rightarrow> byte list \<Rightarrow> byte list option"
  z_stream_decode :: "byte list \<Rightarrow> byte list option"

definition MAX_LEVEL :: int where "MAX_LEVEL = 22"
definition DEFAULT_LEVEL :: int where "DEFAULT_LEVEL = 3"
definition FAST_LEVEL :: int where "FAST_LEVEL = 3"

definition clamp_level :: "int \<Rightarrow> int" where
  "clamp_level level = (if level < 1 then 1 else if MAX_LEVEL < level then MAX_LEVEL else level)"

text \<open>The \<open>COMPRESSORS\<close> table is looked up, filled on a miss and then used.\<close>

datatype zstd_error = ZstdPanic string | ZstdFailed string

definition zstd_compress ::
  "'c zstd_lib \<Rightarrow> (int \<rightharpoonup> 'c) \<Rightarrow> byte list \<Rightarrow> int
     \<Rightarrow> (zstd_error + byte list) \<times> (int \<rightharpoonup> 'c)" where
  "zstd_compress Z comps data level0 =
     (let level = clamp_level level0 in
      case (case comps level of Some c \<Rightarrow> Some c | None \<Rightarrow> z_new Z level) of
        None \<Rightarrow> (Inl (ZstdPanic ''Failed to create zstd compressor''), comps)
      | Some c \<Rightarrow>
          (ok_or (ZstdFailed ''Zstd compression failed'') (z_bulk Z c data), comps(level \<mapsto> c)))"

definition zstd_decompress :: "'c zstd_lib \<Rightarrow> byte list \<Rightarrow> zstd_error + byte list" where
  "zstd_decompress Z data = ok_or (ZstdFailed ''Zstd decompression failed'') (z_stream_decode Z data)"

definition compress_parallel :: "'c zstd_lib \<Rightarrow> byte list \<Rightarrow> int \<Rightarrow> zstd_error + byte list" where
  "compress_parallel Z data level =
     ok_or (ZstdFailed ''Zstd parallel compression failed'')
       (z_stream_encode Z (clamp_level level) data)"

definition compress_with_dictionary ::
  "'c zstd_lib \<Rightarrow> byte list \<Rightarrow> int \<Rightarrow> byte list \<Rightarrow> zstd_error + byte list" where
  "compress_with_dictionary Z data level dictionary =
     ok_or (ZstdFailed ''Zstd dictionary compression failed'')
       (z_stream_encode Z (clamp_level level) data)"

text \<open>What the program relies on: decoding inverts bulk and streaming encoding.\<close>

definition zstd_roundtrip :: "'c zstd_lib \<Rightarrow> bool" where
  "zstd_roundtrip Z \<longleftrightarrow>
     (\<forall>l c d e. z_new Z l = Some c \<longrightarrow> z_bulk Z c d = Some e \<longrightarrow> z_stream_decode Z e = Some d)
     \<and> (\<forall>l d e. z_stream_encode Z l d = Some e \<longrightarrow> z_stream_decode Z e = Some d)"

definition comps_ok :: "'c zstd_lib \<Rightarrow> (int \<rightharpoonup> 'c) \<Rightarrow> bool" where
  "comps_ok Z comps \<longleftrightarrow> (\<forall>l c. comps l = Some c \<longrightarrow> 1 \<le> l \<and> l \<le> MAX_LEVEL \<and> z_new Z l = Some c)"

lemma clamp_level_bounds: "1 \<le> clamp_level l \<and> clamp_level l \<le> MAX_LEVEL"
  by (simp add: clamp_level_def MAX_LEVEL_def)

lemma comps_ok_empty: "comps_ok Z Map.empty"
  by (simp add: comps_ok_def)

lemma zstd_compress_comps_ok:
  "comps_ok Z comps \<Longrightarrow> zstd_compress Z comps data level = (r, comps') \<Longrightarrow> comps_ok Z comps'"
  using clamp_level_bounds [of level]
  by (auto simp: zstd_compress_def comps_ok_def Let_def split: option.splits if_splits)

text \<open>The table only caches: the answer does not depend on which levels were used before.\<close>

lemma zstd_compress_cache_independent:
  "comps_ok Z comps \<Longrightarrow>
   fst (zstd_compress Z comps data level) = fst (zstd_compress Z Map.empty data level)"
  by (auto simp: zstd_compress_def comps_ok_def Let_def split: option.splits)

lemma zstd_compress_decompress:
  assumes "zstd_roundtrip Z" "comps_ok Z comps" "zstd_compress Z comps data level = (Inr e, comps')"
  shows "zstd_decompress Z e = Inr data"
  using assms
  by (fastforce simp: zstd_compress_def comps_ok_def zstd_roundtrip_def zstd_decompress_def
      ok_or_def Let_def split: option.splits)

section \<open>LZ4 (lz4.rs)\<close>

record lz4_lib =
  lz4_prepend_size :: "byte list \<Rightarrow> byte list"
  lz4_size_prepended :: "byte list \<Rightarrow> byte list option"

definition lz4_compress :: "lz4_lib \<Rightarrow> byte list \<Rightarrow> string + byte list" where
  "lz4_compress Z data = Inr (lz4_prepend_size Z data)"

definition lz4_decompress :: "lz4_lib \<Rightarrow> byte list \<Rightarrow> string + byte list" where
  "lz4_decompress Z data = ok_or ''LZ4 decompression failed'' (lz4_size_prepended Z data)"

text \<open>A codec for the witnesses: a level byte, then the data.\<close>

definition demo_zstd :: "int zstd_lib" where
  "demo_zstd = \<lparr>z_new = Some, z_bulk = (\<lambda>c d. Some (word_of_int c # d)),
     z_stream_encode = (\<lambda>l d. Some (word_of_int l # d)),
     z_stream_decode = (\<lambda>e. case e of [] \<Rightarrow> None | _ # d \<Rightarrow> Some d)\<rparr>"

lemma demo_zstd_roundtrip: "zstd_roundtrip demo_zstd"
  by (simp add: zstd_roundtrip_def demo_zstd_def)

end
