(* ===== verification/Cli_Wire.thy ===== *)
theory Cli_Wire
  imports Tcp_Wire Compression Net_Addr
begin

text \<open>
  What the commands of \<open>desktop/p2ptransfer-cli/src/main.rs\<close> share on the wire: a tagged
  message is a byte in front of the payload, framed by \<open>network/tcp.rs\<close>; a chunk is its
  index in four little-endian bytes, a flag saying whether it is compressed, and the
  ciphertext. Tagged messages are a third instance of the contract of a message transport.
\<close>

definition TAG_SESSION_JOIN :: byte where "TAG_SESSION_JOIN = 0x07"

lemmas cli_tags = tag_defs TAG_SESSION_JOIN_def

section \<open>Tagged messages\<close>

type_synonym tagged = "byte \<times> byte list"

definition send_tagged :: "tagged \<Rightarrow> byte list" where
  "send_tagged = (\<lambda>(tag, payload). send_message (tag # payload))"

definition receive_tagged :: "byte list \<Rightarrow> string + tagged \<times> byte list" where
  "receive_tagged s =
     res_bind (receive_message s) (\<lambda>(data, rest).
       case data of [] \<Rightarrow> Inl ''Empty message'' | tag # payload \<Rightarrow> Inr ((tag, payload), rest))"

definition fits_tagged :: "tagged \<Rightarrow> bool" where
  "fits_tagged = (\<lambda>(tag, payload). length payload < 67108864)"

lemma fits_tagged_payload: "fits_tagged (t, p) \<longleftrightarrow> fits_payload (t # p)"
  by (auto simp: fits_tagged_def fits_payload_def)

interpretation tagged: message_transport send_tagged receive_tagged fits_tagged
proof
  fix m rest
  assume "fits_tagged m"
  then show "receive_tagged (send_tagged m @ rest) = Inr (m, rest)"
    by (cases m) (simp add: send_tagged_def receive_tagged_def fits_tagged_payload tcp.get_put)
next
  fix m k
  assume "fits_tagged m" "k < length (send_tagged m)"
  then show "\<exists>e. receive_tagged (take k (send_tagged m)) = Inl e"
    using tcp.get_truncated [of "fst m # snd m" k]
    by (cases m) (auto simp: send_tagged_def receive_tagged_def fits_tagged_payload)
qed

definition tag_send :: "byte \<Rightarrow> byte list \<Rightarrow> conn \<Rightarrow> (string + unit) \<times> conn" where
  "tag_send tag payload c = conn_send (tag # payload) c"

definition tag_receive :: "conn \<Rightarrow> (string + tagged) \<times> conn" where
  "tag_receive c =
     (case receive_message (cn_in c) of
        Inl e \<Rightarrow> (Inl e, c)
      | Inr ([], rest) \<Rightarrow> (Inl ''Empty message'', c\<lparr>cn_in := rest\<rparr>)
      | Inr (tag # payload, rest) \<Rightarrow> (Inr (tag, payload), c\<lparr>cn_in := rest\<rparr>))"

lemma tag_receive_put [wire]:
  "cn_in c = send_tagged m @ rest \<Longrightarrow> fits_tagged m \<Longrightarrow>
   tag_receive c = (Inr m, c\<lparr>cn_in := rest\<rparr>)"
  by (cases m)
     (simp add: tag_receive_def send_tagged_def fits_tagged_payload tcp.get_put)

lemma tag_send_ok [wire]:
  "cn_sends c = [] \<Longrightarrow>
   tag_send t p c = (Inr (), c\<lparr>cn_out := cn_out c @ send_tagged (t, p)\<rparr>)"
  by (simp add: tag_send_def send_tagged_def conn_send_ok)

section \<open>Hexadecimal digests\<close>

definition format_hex :: "byte list \<Rightarrow> string" where
  "format_hex bytes = foldl (\<lambda>s b. s @ hex_byte b) [] bytes"

lemma format_hex_to_hex: "format_hex bs = to_hex bs"
proof -
  have "foldl (\<lambda>s b. s @ hex_byte b) acc bs = acc @ concat (map hex_byte bs)" for acc
    by (induction bs arbitrary: acc) simp_all
  then show ?thesis by (simp add: format_hex_def to_hex_def)
qed

section \<open>Chunk frames\<close>

definition cli_chunk_frame :: "u64 \<Rightarrow> byte \<Rightarrow> byte list \<Rightarrow> byte list" where
  "cli_chunk_frame chunk_index flag encrypted = u32_to_le (ucast chunk_index) @ flag # encrypted"

text \<open>Reading a frame: the index, the compression flag and the ciphertext.\<close>

definition cli_parse_chunk :: "byte list \<Rightarrow> (u64 \<times> bool \<times> byte list) option" where
  "cli_parse_chunk payload =
     (if length payload < 5 then None
      else Some (ucast (u32_from_le (take 4 payload)), payload ! 4 \<noteq> 0, drop 5 payload))"

definition ack_payload :: "u64 \<Rightarrow> byte list" where
  "ack_payload chunk_index = u32_to_le (ucast chunk_index)"

lemma ucast_u32_back:
  assumes "unat i < 4294967296"
  shows "ucast (ucast (i :: u64) :: u32) = i"
proof -
  have "unat (ucast (ucast i :: u32) :: u64) = unat i mod 4294967296"
    by (simp add: unsigned_ucast_eq unsigned_take_bit_eq take_bit_nat_def)
  with assms show ?thesis by (simp add: word_unat_eq_iff)
qed

lemma cli_parse_frame:
  "unat i < 4294967296 \<Longrightarrow>
   cli_parse_chunk (cli_chunk_frame i fl e) = Some (i, fl \<noteq> 0, e)"
  by (simp add: cli_parse_chunk_def cli_chunk_frame_def nth_append u32_le_roundtrip ucast_u32_back)

section \<open>Connecting and exchanging keys\<close>

definition try_connect_fallback :: "bool \<Rightarrow> ipv4 \<times> u16 \<Rightarrow> string + unit" where
  "try_connect_fallback connects peer_addr =
     (if connects then Inr ()
      else Inl (''Failed to connect to '' @ show_socket_addr peer_addr @ ''.'' @ [CHR 0x0A, CHR 0x0A]
        @ ''Check that the receiver is listening on port '' @ show_nat (unat (snd peer_addr))
        @ '' at that IP address.''))"

text \<open>The client's side; \<open>during\<close> tells the first key exchange from a repeated one.\<close>

definition cli_client_hello ::
  "crypto_lib \<Rightarrow> byte list \<Rightarrow> string \<Rightarrow> conn \<Rightarrow> (string + byte list) \<times> conn" where
  "cli_client_hello C secret during c =
     (let kx = ecdh_new C secret in
      case tag_send TAG_CLIENT_HELLO (public_key_bytes kx) c of
        (Inl e, c) \<Rightarrow> (Inl e, c)
      | (Inr _, c) \<Rightarrow>
          (case tag_receive c of
             (Inl e, c) \<Rightarrow> (Inl e, c)
           | (Inr (hello_tag, server_pub), c) \<Rightarrow>
               if hello_tag \<noteq> TAG_SERVER_HELLO then
                 (Inl (''Expected SERVER_HELLO during '' @ during @ '', got tag='' @ show_nat (unat hello_tag)), c)
               else if length server_pub \<noteq> 32 then (Inl ''Invalid server public key length'', c)
               else (session_key C kx server_pub, c)))"

text \<open>The new key and a new nonce prefix; on an error the old ones stay.\<close>

definition redo_handshake ::
  "crypto_lib \<Rightarrow> byte list \<Rightarrow> (nat \<Rightarrow> u32) \<Rightarrow> byte list \<times> byte list \<Rightarrow> conn
     \<Rightarrow> (string + unit) \<times> (byte list \<times> byte list) \<times> conn" where
  "redo_handshake C secret rng old c =
     (case cli_client_hello C secret ''re-handshake'' c of
        (Inl e, c) \<Rightarrow> (Inl e, old, c)
      | (Inr new_key, c) \<Rightarrow> (Inr (), (new_key, generate_nonce_prefix rng), c))"

text \<open>
  The server's side, in \<open>ReceiverHandler::run\<close> and \<open>cmd_slow_receive\<close>. A failed send of the
  error message is reported instead of the error. \<open>bad_key\<close> is the text for a key of the
  wrong length.
\<close>

definition cli_refuse :: "string \<Rightarrow> string \<Rightarrow> conn \<Rightarrow> (string + 'a) \<times> conn" where
  "cli_refuse told reported c =
     (case tag_send TAG_ERROR (bytes_of told) c of
        (Inl e, c) \<Rightarrow> (Inl e, c)
      | (Inr _, c) \<Rightarrow> (Inl reported, c))"

definition cli_server_key ::
  "crypto_lib \<Rightarrow> byte list \<Rightarrow> string \<Rightarrow> tagged \<Rightarrow> conn \<Rightarrow> (string + byte list) \<times> conn" where
  "cli_server_key C secret bad_key m c =
     (case m of (tag, client_pub) \<Rightarrow>
      if tag \<noteq> TAG_CLIENT_HELLO then
        cli_refuse ''Expected CLIENT_HELLO'' (''Expected CLIENT_HELLO, got tag='' @ show_nat (unat tag)) c
      else if length client_pub \<noteq> 32 then (Inl bad_key, c)
      else let kx = ecdh_new C secret in
        case tag_send TAG_SERVER_HELLO (public_key_bytes kx) c of
          (Inl e, c) \<Rightarrow> (Inl e, c)
        | (Inr _, c) \<Rightarrow> (session_key C kx client_pub, c))"

section \<open>One chunk, acknowledged (send_chunk_with_ack)\<close>

fun zstd_text :: "zstd_error \<Rightarrow> string" where
  "zstd_text (ZstdPanic e) = e"
| "zstd_text (ZstdFailed e) = e"

definition check_ack :: "u64 \<Rightarrow> string + tagged \<Rightarrow> string + unit" where
  "check_ack chunk_index r =
     (case r of
        Inl e \<Rightarrow> Inl ''Failed to receive ACK''
      | Inr (tag, ack) \<Rightarrow>
          if tag = TAG_ERROR then Inl (''Peer error: '' @ utf8_lossy ack)
          else if tag \<noteq> TAG_CHUNK_ACK then
            Inl (''Expected CHUNK_ACK, got tag='' @ show_nat (unat tag))
          else if length ack < 4 then
            Inl (''Malformed CHUNK_ACK (len='' @ show_nat (length ack) @ '')'')
          else let ack_index = ucast (u32_from_le (take 4 ack)) in
            if ack_index \<noteq> chunk_index then
              Inl (''Chunk index mismatch: sent '' @ show_nat (unat chunk_index) @ '', receiver acked ''
                @ show_nat (unat ack_index))
            else Inr ())"

text \<open>The result is the number of bytes of the chunk; the table of compressors is threaded through.\<close>

definition send_chunk_with_ack ::
  "crypto_lib \<Rightarrow> 'z zstd_lib \<Rightarrow> io_env \<Rightarrow> filesystem \<Rightarrow> path \<Rightarrow> transfer_metadata \<Rightarrow> u64 \<Rightarrow> int
     \<Rightarrow> byte list \<Rightarrow> byte list \<Rightarrow> (int \<rightharpoonup> 'z) \<Rightarrow> conn \<Rightarrow> (string + int) \<times> (int \<rightharpoonup> 'z) \<times> conn" where
  "send_chunk_with_ack C Z io fs p md chunk_index compression key prefix comps c =
     (case prepare_chunk io fs p md chunk_index of
        Inl e \<Rightarrow> (Inl e, comps, c)
      | Inr chunk_data \<Rightarrow>
     (let chunk_len = int (length chunk_data);
          should_compress = (chunk_len \<ge> 64 \<and> \<not> is_likely_compressed p chunk_data);
          (payload, comps) =
            (if should_compress \<and> compression > 0 then zstd_compress Z comps chunk_data compression
             else (Inr chunk_data, comps));
          compressed_flag = (if should_compress \<and> compression > 0 then 1 else 0)
      in case payload of
           Inl z \<Rightarrow> (Inl (zstd_text z), comps, c)
         | Inr payload \<Rightarrow>
     (case encrypt C key (build_nonce prefix chunk_index) payload of
        Inl e \<Rightarrow> (Inl e, comps, c)
      | Inr encrypted \<Rightarrow>
     (case tag_send TAG_CHUNK (cli_chunk_frame chunk_index compressed_flag encrypted) c of
        (Inl e, c) \<Rightarrow> (Inl ''Failed to send chunk'', comps, c)
      | (Inr _, c) \<Rightarrow>
     (case tag_receive c of (r, c) \<Rightarrow>
        (res_bind (check_ack chunk_index r) (\<lambda>_. Inr chunk_len), comps, c))))))"

text \<open>What a receiver makes of the body of a chunk frame.\<close>

definition open_chunk ::
  "crypto_lib \<Rightarrow> 'z zstd_lib \<Rightarrow> byte list \<Rightarrow> byte list \<Rightarrow> u64 \<Rightarrow> bool \<Rightarrow> byte list
     \<Rightarrow> string + byte list" where
  "open_chunk C Z key prefix recv_index compressed encrypted =
     res_bind (decrypt C key (build_nonce prefix recv_index) encrypted) (\<lambda>decrypted.
       if compressed then res_map_err zstd_text (zstd_decompress Z decrypted) else Inr decrypted)"

lemma check_ack_own [wire]: "unat i < 4294967296 \<Longrightarrow> check_ack i (Inr (TAG_CHUNK_ACK, ack_payload i)) = Inr ()"
  by (simp add: check_ack_def ack_payload_def cli_tags u32_le_roundtrip ucast_u32_back)

end
