(* ===== verification/Resume.thy ===== *)
theory Resume
  imports Paths "HOL-Library.Multiset"
begin

text \<open>
  \<open>p2ptransfer-core/src/transfer/resume.rs\<close>: the SQLite tables of transfers and contacts.
  A table is the list of its rows in insertion order; each operation is the SQL statement
  of the source, with the current time and the random id as arguments. A violated primary
  key is an error; failures of the disk under SQLite are not modelled. The locale
  \<open>record_log\<close> is what callers rely on: an operation on one id changes that record as
  specified, leaves the others alone, and does nothing, silently, when the id is unknown.
\<close>

section \<open>Status\<close>

datatype transfer_status = Pending | InProgress | Paused | Completed | Failed

fun as_str :: "transfer_status \<Rightarrow> string" where
  "as_str Pending = ''pending''"
| "as_str InProgress = ''in_progress''"
| "as_str Paused = ''paused''"
| "as_str Completed = ''completed''"
| "as_str Failed = ''failed''"

definition from_status_str :: "string \<Rightarrow> transfer_status option" where
  "from_status_str s =
     (if s = ''pending'' then Some Pending
      else if s = ''in_progress'' then Some InProgress
      else if s = ''paused'' then Some Paused
      else if s = ''completed'' then Some Completed
      else if s = ''failed'' then Some Failed
      else None)"

lemma from_as_str [simp]: "from_status_str (as_str st) = Some st"
  by (cases st) (simp_all add: from_status_str_def)

lemma from_status_str_Some: "from_status_str s = Some st \<longleftrightarrow> s = as_str st"
  by (cases st) (auto simp: from_status_str_def)

section \<open>Tables\<close>

record transfer_row =
  row_id :: string
  row_peer_addr :: string
  row_file_path :: string
  row_file_size :: int
  row_bytes_transferred :: int
  row_checksum :: "string option"
  row_status :: string
  row_created_at :: int
  row_updated_at :: int

record transfer_record =
  tr_id :: string
  tr_peer_addr :: string
  tr_file_path :: string
  tr_file_size :: int
  tr_bytes_transferred :: int
  tr_checksum :: "string option"
  tr_status :: transfer_status
  tr_created_at :: int
  tr_updated_at :: int

record contact =
  ct_name :: string
  ct_peer_id :: string
  ct_last_known_ip :: string
  ct_last_known_port :: u16
  ct_last_seen :: int

record resume_db =
  db_transfers :: "transfer_row list"
  db_contacts :: "contact list"
  db_data_dir :: path

text \<open>\<open>TransferResumeManager::new\<close> on a fresh data directory creates both tables.\<close>

definition resume_new :: "path \<Rightarrow> resume_db" where
  "resume_new data_dir = \<lparr>db_transfers = [], db_contacts = [], db_data_dir = data_dir\<rparr>"

definition db_path :: "resume_db \<Rightarrow> path" where
  "db_path db = path_join (db_data_dir db) (path_of ''transfers.db'')"

definition record_of_row :: "transfer_row \<Rightarrow> transfer_record" where
  "record_of_row r =
     \<lparr>tr_id = row_id r, tr_peer_addr = row_peer_addr r, tr_file_path = row_file_path r,
      tr_file_size = row_file_size r, tr_bytes_transferred = row_bytes_transferred r,
      tr_checksum = row_checksum r,
      tr_status = opt_default Failed (from_status_str (row_status r)),
      tr_created_at = row_created_at r, tr_updated_at = row_updated_at r\<rparr>"

section \<open>Transfers\<close>

definition create_transfer ::
  "resume_db \<Rightarrow> string \<Rightarrow> string \<Rightarrow> int \<Rightarrow> string \<Rightarrow> int \<Rightarrow> (string + string) \<times> resume_db" where
  "create_transfer db peer_addr p file_size uuid now =
     (if uuid \<in> row_id ` set (db_transfers db) then
        (Inl ''Failed to insert transfer record'', db)
      else (Inr uuid, db\<lparr>db_transfers := db_transfers db @
        [\<lparr>row_id = uuid, row_peer_addr = peer_addr, row_file_path = p,
          row_file_size = file_size, row_bytes_transferred = 0, row_checksum = None,
          row_status = ''pending'', row_created_at = now, row_updated_at = now\<rparr>]\<rparr>))"

text \<open>\<open>UPDATE transfers SET \<dots> WHERE id = ?\<close>\<close>

definition update_rows :: "string \<Rightarrow> (transfer_row \<Rightarrow> transfer_row) \<Rightarrow> resume_db \<Rightarrow> resume_db" where
  "update_rows i g db =
     db\<lparr>db_transfers := map (\<lambda>r. if row_id r = i then g r else r) (db_transfers db)\<rparr>"

definition update_transfer_status ::
  "resume_db \<Rightarrow> string \<Rightarrow> transfer_status \<Rightarrow> int \<Rightarrow> resume_db" where
  "update_transfer_status db i status now =
     update_rows i (\<lambda>r. r\<lparr>row_status := as_str status, row_updated_at := now\<rparr>) db"

definition update_progress :: "resume_db \<Rightarrow> string \<Rightarrow> int \<Rightarrow> int \<Rightarrow> resume_db" where
  "update_progress db i bytes now =
     update_rows i (\<lambda>r. r\<lparr>row_bytes_transferred := bytes, row_status := ''in_progress'',
       row_updated_at := now\<rparr>) db"

definition pause_transfer :: "resume_db \<Rightarrow> string \<Rightarrow> int \<Rightarrow> int \<Rightarrow> resume_db" where
  "pause_transfer db i bytes now =
     update_rows i (\<lambda>r. r\<lparr>row_bytes_transferred := bytes, row_status := ''paused'',
       row_updated_at := now\<rparr>) db"

text \<open>The size is queried first; a missing row makes it 0.\<close>

definition complete_transfer :: "resume_db \<Rightarrow> string \<Rightarrow> string \<Rightarrow> int \<Rightarrow> resume_db" where
  "complete_transfer db i checksum now =
     (let size = (case List.find (\<lambda>r. row_id r = i) (db_transfers db) of
                    Some r \<Rightarrow> row_file_size r | None \<Rightarrow> 0)
      in update_rows i (\<lambda>r. r\<lparr>row_bytes_transferred := size, row_checksum := Some checksum,
           row_status := ''completed'', row_updated_at := now\<rparr>) db)"

definition fail_transfer :: "resume_db \<Rightarrow> string \<Rightarrow> int \<Rightarrow> resume_db" where
  "fail_transfer db i now =
     update_rows i (\<lambda>r. r\<lparr>row_status := ''failed'', row_updated_at := now\<rparr>) db"

definition get_transfer :: "resume_db \<Rightarrow> string \<Rightarrow> transfer_record option" where
  "get_transfer db i =
     map_option record_of_row (List.find (\<lambda>r. row_id r = i) (db_transfers db))"

text \<open>\<open>ORDER BY updated_at DESC\<close>; rows updated in the same second keep their order.\<close>

definition list_transfers :: "resume_db \<Rightarrow> transfer_record list" where
  "list_transfers db = map record_of_row (sort_key (\<lambda>r. - row_updated_at r) (db_transfers db))"

definition delete_transfer :: "resume_db \<Rightarrow> string \<Rightarrow> resume_db" where
  "delete_transfer db i = db\<lparr>db_transfers := filter (\<lambda>r. row_id r \<noteq> i) (db_transfers db)\<rparr>"

text \<open>
  The product \<open>retention_days * 86400\<close> is a wrapping \<open>u64\<close> product, cast to \<open>i64\<close>.
\<close>

definition cleanup_cutoff :: "u64 \<Rightarrow> int \<Rightarrow> int" where
  "cleanup_cutoff retention_days now = as_i64 (of_i64 (now - as_i64 (retention_days * 86400)))"

definition cleanup_old_transfers :: "resume_db \<Rightarrow> u64 \<Rightarrow> int \<Rightarrow> nat \<times> resume_db" where
  "cleanup_old_transfers db retention_days now =
     (let cutoff = cleanup_cutoff retention_days now;
          old = (\<lambda>r. row_updated_at r < cutoff \<and> row_status r \<in> {''completed'', ''failed''})
      in (length (filter old (db_transfers db)),
          db\<lparr>db_transfers := filter (\<lambda>r. \<not> old r) (db_transfers db)\<rparr>))"

section \<open>Contacts\<close>

definition upsert_contact ::
  "resume_db \<Rightarrow> string \<Rightarrow> string \<Rightarrow> string \<Rightarrow> u16 \<Rightarrow> int \<Rightarrow> resume_db" where
  "upsert_contact db name peer_id ip port now =
     (if name \<in> ct_name ` set (db_contacts db) then
        db\<lparr>db_contacts := map (\<lambda>c. if ct_name c = name then
             c\<lparr>ct_peer_id := peer_id, ct_last_known_ip := ip, ct_last_known_port := port,
               ct_last_seen := now\<rparr> else c) (db_contacts db)\<rparr>
      else db\<lparr>db_contacts := db_contacts db @
        [\<lparr>ct_name = name, ct_peer_id = peer_id, ct_last_known_ip = ip,
          ct_last_known_port = port, ct_last_seen = now\<rparr>]\<rparr>)"

definition get_contact :: "resume_db \<Rightarrow> string \<Rightarrow> contact option" where
  "get_contact db name = List.find (\<lambda>c. ct_name c = name) (db_contacts db)"

definition list_contacts :: "resume_db \<Rightarrow> contact list" where
  "list_contacts db = sort_key ct_name (db_contacts db)"

definition delete_contact :: "resume_db \<Rightarrow> string \<Rightarrow> resume_db" where
  "delete_contact db name = db\<lparr>db_contacts := filter (\<lambda>c. ct_name c \<noteq> name) (db_contacts db)\<rparr>"

section \<open>Well-formed databases\<close>

text \<open>The primary keys and the \<open>CHECK\<close> of the status column.\<close>

definition db_wf :: "resume_db \<Rightarrow> bool" where
  "db_wf db \<longleftrightarrow> distinct (map row_id (db_transfers db))
     \<and> (\<forall>r \<in> set (db_transfers db). row_status r \<in> range as_str)
     \<and> distinct (map ct_name (db_contacts db))"

lemma status_literals:
  "''pending'' = as_str Pending" "''in_progress'' = as_str InProgress"
  "''paused'' = as_str Paused" "''completed'' = as_str Completed" "''failed'' = as_str Failed"
  by simp_all

lemma literal_in_range [simp]:
  "''pending'' \<in> range as_str" "''in_progress'' \<in> range as_str" "''paused'' \<in> range as_str"
  "''completed'' \<in> range as_str" "''failed'' \<in> range as_str"
  by (simp_all only: status_literals rangeI)

lemma db_wf_update_rows:
  assumes "db_wf db" "\<And>r. row_id (g r) = row_id r"
    and "\<And>r. row_status r \<in> range as_str \<Longrightarrow> row_status (g r) \<in> range as_str"
  shows "db_wf (update_rows i g db)"
proof -
  have "map row_id (map (\<lambda>r. if row_id r = i then g r else r) rs) = map row_id rs" for rs
    using assms(2) by simp
  with assms show ?thesis
    by (auto simp: db_wf_def update_rows_def simp del: map_map)
qed

lemma distinct_filter_ids: "distinct (map h xs) \<Longrightarrow> distinct (map h (filter P xs))"
  by (induction xs) auto

lemma db_wf_new: "db_wf (resume_new d)"
  by (simp add: db_wf_def resume_new_def)

lemma db_wf_create:
  "db_wf db \<Longrightarrow> create_transfer db pa p n u now = (r, db') \<Longrightarrow> db_wf db'"
  by (auto simp: db_wf_def create_transfer_def split: if_splits)

lemma db_wf_delete: "db_wf db \<Longrightarrow> db_wf (delete_transfer db i)"
  by (auto simp: db_wf_def delete_transfer_def distinct_filter_ids)

lemma db_wf_cleanup: "db_wf db \<Longrightarrow> db_wf (snd (cleanup_old_transfers db d now))"
  by (auto simp: db_wf_def cleanup_old_transfers_def Let_def distinct_filter_ids)

lemma db_wf_upsert: "db_wf db \<Longrightarrow> db_wf (upsert_contact db n p ip port now)"
proof -
  assume wf: "db_wf db"
  let ?g = "\<lambda>c::contact. if ct_name c = n then c\<lparr>ct_peer_id := p, ct_last_known_ip := ip,
      ct_last_known_port := port, ct_last_seen := now\<rparr> else c"
  have "map ct_name (map ?g cs) = map ct_name cs" for cs by simp
  then have "distinct (map ct_name (map ?g (db_contacts db)))"
    using wf by (simp only: db_wf_def)
  with wf show ?thesis
    by (simp add: db_wf_def upsert_contact_def del: map_map)
qed

lemma db_wf_delete_contact: "db_wf db \<Longrightarrow> db_wf (delete_contact db n)"
  by (auto simp: db_wf_def delete_contact_def distinct_filter_ids)

section \<open>The contract of the log\<close>

locale record_log =
  fixes lookup :: "'db \<Rightarrow> 'k \<Rightarrow> 'r option"
    and perform :: "'op \<Rightarrow> 'db \<Rightarrow> 'db"
    and target :: "'op \<Rightarrow> 'k"
    and effect :: "'op \<Rightarrow> 'r \<Rightarrow> 'r option"
  assumes perform_target:
      "lookup (perform op db) (target op) = Option.bind (lookup db (target op)) (effect op)"
    and perform_frame: "k \<noteq> target op \<Longrightarrow> lookup (perform op db) k = lookup db k"
    and perform_absent: "lookup db (target op) = None \<Longrightarrow> perform op db = db"
begin

lemma perform_lookup:
  "lookup (perform op db) k =
     (if k = target op then Option.bind (lookup db k) (effect op) else lookup db k)"
  by (simp add: perform_target perform_frame)

text \<open>A run acts on each record through the operations aimed at it, in their order.\<close>

lemma run_lookup:
  "lookup (fold perform ops db) k =
     fold (\<lambda>op r. Option.bind r (effect op)) (filter (\<lambda>op. target op = k) ops) (lookup db k)"
  by (induction ops arbitrary: db) (auto simp: perform_lookup)

lemma run_absent:
  "\<forall>op \<in> set ops. lookup db (target op) = None \<Longrightarrow> fold perform ops db = db"
  by (induction ops) (auto simp: perform_absent)

lemma run_frame:
  "\<forall>op \<in> set ops. target op \<noteq> k \<Longrightarrow> lookup (fold perform ops db) k = lookup db k"
  by (induction ops arbitrary: db) (auto simp: perform_frame)

end

section \<open>The database as such a log\<close>

datatype log_op =
  OpStatus string transfer_status int
| OpProgress string int int
| OpPause string int int
| OpComplete string string int
| OpFail string int
| OpDelete string

fun op_id :: "log_op \<Rightarrow> string" where
  "op_id (OpStatus i _ _) = i"
| "op_id (OpProgress i _ _) = i"
| "op_id (OpPause i _ _) = i"
| "op_id (OpComplete i _ _) = i"
| "op_id (OpFail i _) = i"
| "op_id (OpDelete i) = i"

fun db_perform :: "log_op \<Rightarrow> resume_db \<Rightarrow> resume_db" where
  "db_perform (OpStatus i st now) db = update_transfer_status db i st now"
| "db_perform (OpProgress i n now) db = update_progress db i n now"
| "db_perform (OpPause i n now) db = pause_transfer db i n now"
| "db_perform (OpComplete i c now) db = complete_transfer db i c now"
| "db_perform (OpFail i now) db = fail_transfer db i now"
| "db_perform (OpDelete i) db = delete_transfer db i"

fun op_effect :: "log_op \<Rightarrow> transfer_record \<Rightarrow> transfer_record option" where
  "op_effect (OpStatus i st now) r = Some (r\<lparr>tr_status := st, tr_updated_at := now\<rparr>)"
| "op_effect (OpProgress i n now) r =
     Some (r\<lparr>tr_bytes_transferred := n, tr_status := InProgress, tr_updated_at := now\<rparr>)"
| "op_effect (OpPause i n now) r =
     Some (r\<lparr>tr_bytes_transferred := n, tr_status := Paused, tr_updated_at := now\<rparr>)"
| "op_effect (OpComplete i c now) r =
     Some (r\<lparr>tr_bytes_transferred := tr_file_size r, tr_checksum := Some c,
             tr_status := Completed, tr_updated_at := now\<rparr>)"
| "op_effect (OpFail i now) r = Some (r\<lparr>tr_status := Failed, tr_updated_at := now\<rparr>)"
| "op_effect (OpDelete i) r = None"

lemma find_update_rows:
  assumes "\<And>r. row_id (g r) = row_id r"
  shows "List.find (\<lambda>r. row_id r = k) (map (\<lambda>r. if row_id r = i then g r else r) rs) =
    (if k = i then map_option g (List.find (\<lambda>r. row_id r = k) rs)
     else List.find (\<lambda>r. row_id r = k) rs)"
  using assms by (induction rs) auto

lemma find_delete_rows:
  "List.find (\<lambda>r. row_id r = k) (filter (\<lambda>r. row_id r \<noteq> i) rs) =
    (if k = i then None else List.find (\<lambda>r. row_id r = k) rs)"
  by (induction rs) auto

lemma update_rows_absent:
  "List.find (\<lambda>r. row_id r = i) (db_transfers db) = None \<Longrightarrow> update_rows i g db = db"
proof -
  assume "List.find (\<lambda>r. row_id r = i) (db_transfers db) = None"
  then have "map (\<lambda>r. if row_id r = i then g r else r) (db_transfers db) = db_transfers db"
    by (auto simp: find_None_iff intro: map_idI)
  then show ?thesis by (simp add: update_rows_def)
qed

lemma opt_default_Some [simp]: "opt_default d (Some x) = x" "opt_default d None = d"
  by (simp_all add: opt_default_def)

lemmas update_defs = update_transfer_status_def update_progress_def pause_transfer_def
  complete_transfer_def fail_transfer_def

lemma get_update_rows:
  assumes "\<And>r. row_id (g r) = row_id r"
  shows "get_transfer (update_rows i g db) k =
    (if k = i then map_option (record_of_row \<circ> g) (List.find (\<lambda>r. row_id r = k) (db_transfers db))
     else get_transfer db k)"
  by (simp add: get_transfer_def update_rows_def find_update_rows [OF assms]
      option.map_comp)

lemma from_status_literals [simp]:
  "from_status_str ''pending'' = Some Pending"
  "from_status_str ''in_progress'' = Some InProgress"
  "from_status_str ''paused'' = Some Paused"
  "from_status_str ''completed'' = Some Completed"
  "from_status_str ''failed'' = Some Failed"
  by (simp_all add: from_status_str_def)

lemma update_rows_target:
  assumes "\<And>r. row_id (g r) = row_id r"
    and "\<And>r. List.find (\<lambda>r. row_id r = i) (db_transfers db) = Some r \<Longrightarrow>
           e (record_of_row r) = Some (record_of_row (g r))"
  shows "get_transfer (update_rows i g db) i = Option.bind (get_transfer db i) e"
  using assms
  by (cases "List.find (\<lambda>r. row_id r = i) (db_transfers db)")
     (simp_all add: get_update_rows [OF assms(1)], simp_all add: get_transfer_def)

lemma db_perform_target:
  "get_transfer (db_perform op db) (op_id op) =
     Option.bind (get_transfer db (op_id op)) (op_effect op)"
proof (cases op)
  case (OpDelete i)
  then show ?thesis
    by (cases "List.find (\<lambda>r. row_id r = i) (db_transfers db)")
       (simp_all add: delete_transfer_def get_transfer_def find_delete_rows)
qed (auto simp: update_defs Let_def record_of_row_def intro!: update_rows_target)

lemma db_perform_frame:
  "k \<noteq> op_id op \<Longrightarrow> get_transfer (db_perform op db) k = get_transfer db k"
  by (cases op)
     (simp_all add: update_defs get_update_rows Let_def delete_transfer_def get_transfer_def
       find_delete_rows update_rows_def find_update_rows)

lemma db_perform_absent: "get_transfer db (op_id op) = None \<Longrightarrow> db_perform op db = db"
proof (cases op)
  case (OpDelete i)
  assume "get_transfer db (op_id op) = None"
  with OpDelete have "filter (\<lambda>r. row_id r \<noteq> i) (db_transfers db) = db_transfers db"
    by (auto simp: get_transfer_def find_None_iff intro: filter_True)
  with OpDelete show ?thesis by (simp add: delete_transfer_def)
qed (auto simp: update_defs Let_def get_transfer_def update_rows_absent)

interpretation rlog: record_log get_transfer db_perform op_id op_effect
  by unfold_locales (simp_all add: db_perform_target db_perform_frame db_perform_absent)

lemma db_wf_perform: "db_wf db \<Longrightarrow> db_wf (db_perform op db)"
  by (cases op) (auto simp: update_defs Let_def db_wf_delete intro!: db_wf_update_rows)

text \<open>
  C9. The database is a log of the operations: after any sequence of updates and deletions
  the record of each id is the result of the operations aimed at that id alone, applied in
  their order to the old record; an id that has no record gets none, silently; the primary
  keys and the status column stay well-formed.
\<close>

theorem resume_runs:
  assumes "db_wf db"
  shows "get_transfer (fold db_perform ops db) i =
      fold (\<lambda>op r. Option.bind r (op_effect op)) (filter (\<lambda>op. op_id op = i) ops)
        (get_transfer db i)
    \<and> ((\<forall>op \<in> set ops. get_transfer db (op_id op) = None) \<longrightarrow> fold db_perform ops db = db)
    \<and> db_wf (fold db_perform ops db)"
proof -
  have "db_wf (fold db_perform ops db)"
    using assms by (induction ops arbitrary: db) (simp_all add: db_wf_perform)
  then show ?thesis by (simp add: rlog.run_lookup rlog.run_absent)
qed

definition demo_db :: resume_db where
  "demo_db = snd (create_transfer (resume_new (path_of ''/d'')) ''10.0.0.2:9877'' ''a'' 10 ''t1'' 5)"

lemma resume_runs_witness:
  "get_transfer (fold db_perform [OpProgress ''t1'' 4 6, OpFail ''t2'' 7, OpComplete ''t1'' ''ff'' 8] demo_db) ''t1''
    = fold (\<lambda>op r. Option.bind r (op_effect op))
        (filter (\<lambda>op. op_id op = ''t1'')
          [OpProgress ''t1'' 4 6, OpFail ''t2'' 7, OpComplete ''t1'' ''ff'' 8])
        (get_transfer demo_db ''t1'')"
proof -
  have "db_wf demo_db"
    unfolding demo_db_def
    by (rule db_wf_create [OF db_wf_new, where r = "Inr ''t1''"])
       (simp add: create_transfer_def resume_new_def)
  then show ?thesis by (rule resume_runs [THEN conjunct1])
qed

section \<open>Cleaning up\<close>

lemma as_of_i64: "- (2 ^ 63) \<le> x \<Longrightarrow> x < 2 ^ 63 \<Longrightarrow> as_i64 (of_i64 x) = x"
  by (simp add: as_i64_def of_i64_def sint_sbintrunc' signed_take_bit_int_eq_self)

lemma cleanup_cutoff_small:
  assumes "unat days * 86400 < 2 ^ 63" "0 \<le> now" "now < 2 ^ 63"
  shows "cleanup_cutoff days now = now - int (unat days * 86400)"
proof -
  define k where "k = unat days * 86400"
  have "k < 2 ^ 63" using assms(1) by (simp only: k_def)
  then have k: "int k < 2 ^ 63" by simp
  have "unat (days * 86400) = k"
    using assms(1) unat_mult_u64 [of days 86400] by (simp add: k_def)
  then have "days * 86400 = of_i64 (int k)"
    by (metis of_i64_def word_of_int_uint uint_nat)
  then have "as_i64 (days * 86400) = int k"
    using k as_of_i64 [of "int k"] by simp
  moreover have "as_i64 (of_i64 (now - int k)) = now - int k"
    using k assms(2,3) by (intro as_of_i64) linarith+
  ultimately show ?thesis by (simp add: cleanup_cutoff_def flip: k_def)
qed

definition is_finished :: "transfer_row \<Rightarrow> bool" where
  "is_finished r \<longleftrightarrow> row_status r = as_str Completed \<or> row_status r = as_str Failed"

lemma cleanup_split:
  "cleanup_old_transfers db days now = (n, db') \<Longrightarrow>
   db_transfers db' = filter (\<lambda>r. \<not> (row_updated_at r < cleanup_cutoff days now \<and> is_finished r))
     (db_transfers db)
   \<and> n + length (db_transfers db') = length (db_transfers db)
   \<and> db_contacts db' = db_contacts db"
  using sum_length_filter_compl [of "\<lambda>r. row_updated_at r < cleanup_cutoff days now
    \<and> row_status r \<in> {''completed'', ''failed''}" "db_transfers db"]
  by (auto simp: cleanup_old_transfers_def is_finished_def Let_def)

text \<open>
  C10. While \<open>retention_days * 86400\<close> fits an \<open>i64\<close>, a cleanup removes exactly the
  completed and failed transfers last updated more than that many days ago, reports their
  number, and keeps all other records in their order and the contacts.
\<close>

theorem cleanup_removes_expired:
  assumes "cleanup_old_transfers db days now = (n, db')"
    and "unat days * 86400 < 2 ^ 63" "0 \<le> now" "now < 2 ^ 63"
  shows "db_transfers db' =
      filter (\<lambda>r. \<not> (is_finished r \<and> row_updated_at r + int (unat days) * 86400 < now))
        (db_transfers db)
    \<and> n + length (db_transfers db') = length (db_transfers db)
    \<and> db_contacts db' = db_contacts db"
proof -
  have "row_updated_at r < cleanup_cutoff days now
    \<longleftrightarrow> row_updated_at r + int (unat days) * 86400 < now" for r :: transfer_row
    using cleanup_cutoff_small [OF assms(2-4)] by auto
  then show ?thesis using cleanup_split [OF assms(1)] by (auto intro!: filter_cong)
qed

lemma cleanup_removes_expired_witness:
  "\<exists>n db'. cleanup_old_transfers (fail_transfer demo_db ''t1'' 7) 1 100000 = (n, db')
    \<and> n = 1 \<and> db_transfers db' = []"
proof -
  obtain n db' where c: "cleanup_old_transfers (fail_transfer demo_db ''t1'' 7) 1 100000 = (n, db')"
    by fastforce
  with cleanup_removes_expired [OF c] have "n = 1 \<and> db_transfers db' = []"
    by (auto simp: demo_db_def create_transfer_def resume_new_def fail_transfer_def
        update_rows_def is_finished_def)
  with c show ?thesis by blast
qed

text \<open>
  The product wraps: a retention of \<open>u64::MAX\<close> days, meant as "for ever", puts the
  cutoff one day into the future, so every completed or failed transfer is deleted, those
  of this second included.
\<close>

theorem cleanup_max_retention_deletes_all:
  assumes "cleanup_old_transfers db (- 1) now = (n, db')"
    and "0 \<le> now" "now < 2 ^ 62" "\<forall>r \<in> set (db_transfers db). row_updated_at r \<le> now"
  shows "db_transfers db' = filter (\<lambda>r. \<not> is_finished r) (db_transfers db)"
proof -
  have "as_i64 (- 86400) = - 86400"
    using as_of_i64 [of "- 86400"] by (simp add: of_i64_def)
  then have "cleanup_cutoff (- 1) now = now + 86400"
    using assms(2,3) as_of_i64 [of "now + 86400"] by (simp add: cleanup_cutoff_def)
  with cleanup_split [OF assms(1)] assms(4) show ?thesis by (auto intro!: filter_cong)
qed

lemma cleanup_max_retention_deletes_all_witness:
  "db_transfers (snd (cleanup_old_transfers (complete_transfer demo_db ''t1'' ''ff'' 7) (- 1) 7)) = []"
proof -
  let ?db = "complete_transfer demo_db ''t1'' ''ff'' 7"
  have rows: "\<forall>r \<in> set (db_transfers ?db). row_updated_at r = 7 \<and> is_finished r"
    by (simp add: demo_db_def create_transfer_def resume_new_def complete_transfer_def
        update_rows_def is_finished_def)
  obtain n db' where c: "cleanup_old_transfers ?db (- 1) 7 = (n, db')" by fastforce
  then have "db_transfers db' = filter (\<lambda>r. \<not> is_finished r) (db_transfers ?db)"
    using rows by (rule_tac cleanup_max_retention_deletes_all) auto
  with c rows show ?thesis by (simp add: filter_empty_conv)
qed

section \<open>Listing and contacts\<close>

lemma sorted_wrt_sort_key: "sorted_wrt (\<lambda>a b. h a \<le> h b) (sort_key h xs)"
  using sorted_sort_key [of h xs] by (simp add: sorted_wrt_map)

text \<open>
  \<open>list_transfers\<close> returns each record once, most recently updated first.
\<close>

theorem list_transfers_recent_first:
  "mset (list_transfers db) = mset (map record_of_row (db_transfers db))
    \<and> sorted_wrt (\<lambda>a b. tr_updated_at b \<le> tr_updated_at a) (list_transfers db)"
  using sorted_wrt_sort_key [of "\<lambda>r. - row_updated_at r" "db_transfers db"]
  by (simp add: list_transfers_def sorted_wrt_map record_of_row_def)

lemma find_upsert:
  "List.find (\<lambda>c. ct_name c = m) (map (\<lambda>c. if ct_name c = n then c\<lparr>ct_peer_id := p,
      ct_last_known_ip := ip, ct_last_known_port := port, ct_last_seen := now\<rparr> else c) cs) =
   (if m = n then map_option (\<lambda>c. c\<lparr>ct_peer_id := p, ct_last_known_ip := ip,
      ct_last_known_port := port, ct_last_seen := now\<rparr>) (List.find (\<lambda>c. ct_name c = m) cs)
    else List.find (\<lambda>c. ct_name c = m) cs)"
  by (induction cs) auto

lemma find_snoc_contact:
  "n \<notin> ct_name ` set cs \<Longrightarrow> ct_name c = n \<Longrightarrow>
   List.find (\<lambda>c. ct_name c = m) (cs @ [c]) =
     (if m = n then Some c else List.find (\<lambda>c. ct_name c = m) cs)"
  by (induction cs) auto

lemma find_contact_Some:
  "n \<in> ct_name ` set cs \<Longrightarrow> \<exists>c. List.find (\<lambda>c. ct_name c = n) cs = Some c \<and> ct_name c = n"
  by (induction cs) auto

text \<open>
  The contact table is a map: an upsert makes the name hold exactly the given values,
  whether or not it was there, and a deletion removes it; no other name changes.
\<close>

theorem contacts_are_a_map:
  "get_contact (upsert_contact db n p ip port now) m =
      (if m = n then Some \<lparr>ct_name = n, ct_peer_id = p, ct_last_known_ip = ip,
         ct_last_known_port = port, ct_last_seen = now\<rparr>
       else get_contact db m)
    \<and> get_contact (delete_contact db n) m = (if m = n then None else get_contact db m)"
proof
  show "get_contact (upsert_contact db n p ip port now) m =
      (if m = n then Some \<lparr>ct_name = n, ct_peer_id = p, ct_last_known_ip = ip,
         ct_last_known_port = port, ct_last_seen = now\<rparr>
       else get_contact db m)"
    using find_contact_Some [of n "db_contacts db"]
    by (auto simp: get_contact_def upsert_contact_def find_upsert find_snoc_contact)
  have "List.find (\<lambda>c. ct_name c = m) (filter (\<lambda>c. ct_name c \<noteq> n) cs) =
      (if m = n then None else List.find (\<lambda>c. ct_name c = m) cs)" for cs :: "contact list"
    by (induction cs) auto
  then show "get_contact (delete_contact db n) m = (if m = n then None else get_contact db m)"
    by (simp add: get_contact_def delete_contact_def)
qed

end
