(* ===== verification/Cli_Recv.thy ===== *)
theory Cli_Recv
  imports Cli_Wire Resume "HOL-Library.AList"
begin

text \<open>
  \<open>ReceiverHandler::run\<close> of \<open>desktop/p2ptransfer-cli/src/main.rs\<close>: the key exchange, the
  opening of a transfer or the joining of a running one, and the pipeline in which a
  reader, one task per chunk, a hasher and the acknowledging loop run concurrently. The
  pipeline is a step function whose choices (which task goes on, which finished task is
  joined, whether the next frame is taken first) are inputs, so that a list of choices is
  one schedule and a theorem over all lists is one over all interleavings.
\<close>

section \<open>The state of the listener\<close>

record cli_shared =
  sh_path :: path
  sh_meta :: transfer_metadata
  sh_session :: string
  sh_received :: u64

text \<open>\<open>Arc<SharedTransferState>\<close> is a reference into \<open>ch_shared\<close>; \<open>ch_active\<close> is \<open>active_transfers\<close>.\<close>

record cli_host =
  ch_shared :: "cli_shared list"
  ch_active :: "string \<rightharpoonup> nat"
  ch_db :: resume_db
  ch_fs :: filesystem

record 'z cli_recv_env =
  ce_crypto :: crypto_lib
  ce_zstd :: "'z zstd_lib"
  ce_codec :: meta_codec
  ce_io :: io_env
  ce_secret :: "byte list"
  ce_addr :: string
  ce_uuid :: string
  ce_now :: int

section \<open>Opening and joining\<close>

text \<open>
  \<open>total_chunks - 1\<close> wraps around for a peer that announces no chunks; a chunk size of 0
  panics.
\<close>

definition cli_start_chunk :: "transfer_metadata \<Rightarrow> u64 \<Rightarrow> string + u64" where
  "cli_start_chunk md resume_offset =
     (if md_chunk_size md = 0 then Inl ''attempt to divide by zero''
      else Inr (min (resume_offset div md_chunk_size md) (md_total_chunks md - 1)))"

definition cli_accept :: "nat \<Rightarrow> conn \<Rightarrow> cli_host \<Rightarrow> (string + nat) \<times> conn \<times> cli_host" where
  "cli_accept r c h =
     (case tag_send TAG_METADATA (bytes_of ''ACCEPT'') c of
        (Inl e, c) \<Rightarrow> (Inl e, c, h)
      | (Inr _, c) \<Rightarrow> (Inr r, c, h))"

definition cli_join :: "string \<Rightarrow> conn \<Rightarrow> cli_host \<Rightarrow> (string + nat) \<times> conn \<times> cli_host" where
  "cli_join join_session_id c h =
     (case ch_active h join_session_id of
        Some r \<Rightarrow> cli_accept r c h
      | None \<Rightarrow>
          (let (e, c) = cli_refuse ''Unknown session'' ''Unknown session_id for TAG_SESSION_JOIN'' c
           in (e, c, h)))"

text \<open>
  The file is opened without truncation and then cut or extended to the announced size. The
  id of the new database record is dropped.
\<close>

definition cli_open ::
  "'z cli_recv_env \<Rightarrow> path \<Rightarrow> byte list \<Rightarrow> conn \<Rightarrow> cli_host \<Rightarrow> (string + nat) \<times> conn \<times> cli_host" where
  "cli_open E output_dir payload c h =
     (case mc_dec (ce_codec E) payload of
        None \<Rightarrow> (Inl ''Failed to parse TransferMetadata'', c, h)
      | Some md \<Rightarrow>
     (let p = path_join output_dir (path_of (md_file_name md)) in
      if (case parent p of Some d \<Rightarrow> \<not> io_mkdir (ce_io E) d | None \<Rightarrow> False) then
        (Inl ''Permission denied'', c, h)
      else if \<not> io_writable (ce_io E) p then (Inl ''Failed to open output file'', c, h)
      else let f = file_at p (ch_fs h); h = h\<lparr>ch_fs := (ch_fs h)(p \<mapsto> f)\<rparr> in
      if 2 ^ 63 \<le> unat (md_file_size md) then (Inl ''Invalid argument'', c, h)
      else let h = h\<lparr>ch_fs := (ch_fs h)(p \<mapsto> set_len (unat (md_file_size md)) f)\<rparr> in
      case create_transfer (ch_db h) (ce_addr E) (path_text p) (as_i64 (md_file_size md))
             (ce_uuid E) (ce_now E) of
        (Inl e, db) \<Rightarrow> (Inl e, c, h)
      | (Inr _, db) \<Rightarrow>
     (let h = h\<lparr>ch_db := db\<rparr> in
      case (if md_is_resume md then cli_start_chunk md (md_resume_offset md) else Inr 0) of
        Inl e \<Rightarrow> (Inl e, c, h)
      | Inr start_chunk \<Rightarrow>
          let r = length (ch_shared h);
              h = h\<lparr>ch_shared := ch_shared h @
                     [\<lparr>sh_path = p, sh_meta = md, sh_session = md_session_id md,
                       sh_received = start_chunk\<rparr>],
                   ch_active := (ch_active h)(md_session_id md \<mapsto> r)\<rparr>
          in cli_accept r c h)))"

text \<open>
  The first two messages of a connection. A peer that sends an error ends the run without
  an error (the inner \<open>None\<close>).
\<close>

definition cli_recv_begin ::
  "'z cli_recv_env \<Rightarrow> path \<Rightarrow> conn \<Rightarrow> cli_host
     \<Rightarrow> (string + (byte list \<times> nat) option) \<times> conn \<times> cli_host" where
  "cli_recv_begin E output_dir c h =
     (case tag_receive c of
        (Inl e, c) \<Rightarrow> (Inl e, c, h)
      | (Inr m, c) \<Rightarrow>
     (if fst m = TAG_ERROR then (Inr None, c, h)
      else case cli_server_key (ce_crypto E) (ce_secret E) ''Invalid key'' m c of
        (Inl e, c) \<Rightarrow> (Inl e, c, h)
      | (Inr key, c) \<Rightarrow>
     (case tag_receive c of
        (Inl e, c) \<Rightarrow> (Inl e, c, h)
      | (Inr (tag, payload), c) \<Rightarrow>
     (if tag = TAG_ERROR then (Inr None, c, h)
      else if tag = TAG_SESSION_JOIN then
        (let (r, c, h) = cli_join (utf8_lossy payload) c h
         in (res_bind r (\<lambda>i. Inr (Some (key, i))), c, h))
      else if tag = TAG_METADATA then
        (let (r, c, h) = cli_open E output_dir payload c h
         in (res_bind r (\<lambda>i. Inr (Some (key, i))), c, h))
      else
        (let (e, c) = cli_refuse ''Expected METADATA or SESSION_JOIN''
               (''Expected METADATA or SESSION_JOIN, got tag='' @ show_nat (unat tag)) c
         in (e, c, h))))))"

section \<open>The hasher\<close>

text \<open>
  The hasher task takes chunks in any order, buffers those that come early and updates the
  digest in the order of the indices. It starts to count at 0, whatever the first chunk of
  the transfer is.
\<close>

type_synonym 'h hasher = "u64 \<times> (u64 \<times> byte list) list \<times> 'h"

lemma length_delete_less: "map_of buf k = Some d \<Longrightarrow> length (AList.delete k buf) < length buf"
  by (induction buf) (auto simp: le_imp_less_Suc length_delete_le)

function hash_drain :: "'h hash_lib \<Rightarrow> 'h hasher \<Rightarrow> 'h hasher" where
  "hash_drain L (expected, buffered, h) =
     (case map_of buffered expected of
        None \<Rightarrow> (expected, buffered, h)
      | Some chunk_data \<Rightarrow>
          hash_drain L (expected + 1, AList.delete expected buffered, hl_update L h chunk_data))"
  by pat_completeness auto

termination
  by (relation "measure (\<lambda>(L, _, buf, _). length buf)") (auto dest: length_delete_less)

declare hash_drain.simps [simp del]

definition hash_push :: "'h hash_lib \<Rightarrow> u64 \<times> byte list \<Rightarrow> 'h hasher \<Rightarrow> 'h hasher" where
  "hash_push L m = (\<lambda>(expected, buffered, h).
     hash_drain L (expected, AList.update (fst m) (snd m) buffered, h))"

definition hash_verdict ::
  "'h hash_lib \<Rightarrow> u64 \<Rightarrow> byte list \<Rightarrow> (u64 \<times> byte list) list \<Rightarrow> bool" where
  "hash_verdict L expected_total expected_checksum msgs =
     (let (expected, buffered, h) = fold (hash_push L) msgs (0, [], hl_new L)
      in expected = expected_total \<and> hl_finalize L h = expected_checksum)"

section \<open>The pipeline\<close>

text \<open>
  A chunk task decrypts and decompresses its chunk, writes it under the lock of the file,
  sends it to the hasher and returns its index. Joined tasks keep their place in the list.
\<close>

datatype cli_task =
    TaskSealed u64 bool "byte list"
  | TaskWritten u64 "byte list"
  | TaskDone "string + u64"
  | TaskJoined

datatype cli_phase = PhRunning | PhVerifying | PhEnded "string + unit"

record cli_pipe =
  cp_conn :: conn
  cp_tasks :: "cli_task list"
  cp_hash :: "(u64 \<times> byte list) list"
  cp_phase :: cli_phase

record 'z cli_ctx =
  cx_crypto :: crypto_lib
  cx_zstd :: "'z zstd_lib"
  cx_key :: "byte list"
  cx_ref :: nat

text \<open>
  The choices of a schedule: take the next frame; let a task write (a failing write has
  written a prefix); let a task send to the hasher; join a finished task; verify. The
  integer is the time of a database update.
\<close>

datatype cli_choice =
    ChFrame int
  | ChWrite nat "(nat \<times> string) option"
  | ChHash nat
  | ChJoin nat int
  | ChVerify int

type_synonym cli_sys = "cli_pipe \<times> cli_host"

abbreviation shared_at :: "'z cli_ctx \<Rightarrow> cli_host \<Rightarrow> cli_shared" where
  "shared_at x h \<equiv> ch_shared h ! cx_ref x"

abbreviation meta_at :: "'z cli_ctx \<Rightarrow> cli_host \<Rightarrow> transfer_metadata" where
  "meta_at x h \<equiv> sh_meta (shared_at x h)"

text \<open>\<open>pipeline_error\<close>: the record is marked as failed and the run ends; the peer is not told.\<close>

definition cli_broken :: "'z cli_ctx \<Rightarrow> int \<Rightarrow> string \<Rightarrow> cli_sys \<Rightarrow> cli_sys" where
  "cli_broken x now e = (\<lambda>(pp, h).
     (pp\<lparr>cp_phase := PhEnded (Inl (''Receiver pipeline broken: '' @ e))\<rparr>,
      h\<lparr>ch_db := fail_transfer (ch_db h) (sh_session (shared_at x h)) now\<rparr>))"

definition cli_step_frame :: "'z cli_ctx \<Rightarrow> int \<Rightarrow> cli_sys \<Rightarrow> cli_sys" where
  "cli_step_frame x now = (\<lambda>(pp, h).
     case tag_receive (cp_conn pp) of
       (Inl e, c) \<Rightarrow> cli_broken x now e (pp\<lparr>cp_conn := c\<rparr>, h)
     | (Inr (tag, payload), c) \<Rightarrow>
         let pp = pp\<lparr>cp_conn := c\<rparr> in
         if tag = TAG_ERROR then cli_broken x now ''Peer error'' (pp, h)
         else case (if tag = TAG_CHUNK then cli_parse_chunk payload else None) of
           None \<Rightarrow> cli_broken x now ''Malformed chunk'' (pp, h)
         | Some (recv_index, compressed, encrypted) \<Rightarrow>
             (pp\<lparr>cp_tasks := cp_tasks pp @ [TaskSealed recv_index compressed encrypted]\<rparr>, h))"

definition cli_write_chunk ::
  "path \<Rightarrow> usize \<Rightarrow> u64 \<Rightarrow> byte list \<Rightarrow> (nat \<times> string) option \<Rightarrow> filesystem
     \<Rightarrow> (string + unit) \<times> filesystem" where
  "cli_write_chunk p chunk_size recv_index chunk_data outcome fs =
     (let offset = recv_index * chunk_size; f = file_at p fs in
      if 2 ^ 63 \<le> unat offset then (Inl ''Invalid argument'', fs)
      else case outcome of
        Some (n, e) \<Rightarrow> (Inl e, fs(p \<mapsto> write_at (unat offset) (take n chunk_data) f))
      | None \<Rightarrow> (Inr (), fs(p \<mapsto> write_at (unat offset) chunk_data f)))"

definition cli_step_write ::
  "'z cli_ctx \<Rightarrow> nat \<Rightarrow> (nat \<times> string) option \<Rightarrow> cli_sys \<Rightarrow> cli_sys option" where
  "cli_step_write x k outcome = (\<lambda>(pp, h).
     if k < length (cp_tasks pp) then
       case cp_tasks pp ! k of
         TaskSealed recv_index compressed encrypted \<Rightarrow>
           (let md = meta_at x h in
            case open_chunk (cx_crypto x) (cx_zstd x) (cx_key x) (md_nonce_prefix md)
                   recv_index compressed encrypted of
              Inl e \<Rightarrow> Some (pp\<lparr>cp_tasks := (cp_tasks pp)[k := TaskDone (Inl e)]\<rparr>, h)
            | Inr chunk_data \<Rightarrow>
                let (r, fs) = cli_write_chunk (sh_path (shared_at x h)) (md_chunk_size md)
                      recv_index chunk_data outcome (ch_fs h);
                    t = (case r of Inl e \<Rightarrow> TaskDone (Inl e) | Inr _ \<Rightarrow> TaskWritten recv_index chunk_data)
                in Some (pp\<lparr>cp_tasks := (cp_tasks pp)[k := t]\<rparr>, h\<lparr>ch_fs := fs\<rparr>))
       | _ \<Rightarrow> None
     else None)"

definition cli_step_hash :: "nat \<Rightarrow> cli_sys \<Rightarrow> cli_sys option" where
  "cli_step_hash k = (\<lambda>(pp, h).
     if k < length (cp_tasks pp) then
       case cp_tasks pp ! k of
         TaskWritten recv_index chunk_data \<Rightarrow>
           Some (pp\<lparr>cp_hash := cp_hash pp @ [(recv_index, chunk_data)],
                    cp_tasks := (cp_tasks pp)[k := TaskDone (Inr recv_index)]\<rparr>, h)
       | _ \<Rightarrow> None
     else None)"

text \<open>
  \<open>fetch_add\<close> on the counter all connections of the transfer share. The connection that
  counts the last chunk goes on to the verification.
\<close>

definition cli_count_chunk :: "'z cli_ctx \<Rightarrow> int \<Rightarrow> cli_sys \<Rightarrow> cli_sys" where
  "cli_count_chunk x now = (\<lambda>(pp, h).
     (let s = shared_at x h; md = sh_meta s; count = sh_received s + 1 in
      (pp\<lparr>cp_phase := (if count = md_total_chunks md then PhVerifying else PhRunning)\<rparr>,
       h\<lparr>ch_shared := (ch_shared h)[cx_ref x := s\<lparr>sh_received := count\<rparr>],
         ch_db := update_progress (ch_db h) (sh_session s)
                    (as_i64 (count * md_chunk_size md)) now\<rparr>)))"

definition cli_step_join :: "'z cli_ctx \<Rightarrow> nat \<Rightarrow> int \<Rightarrow> cli_sys \<Rightarrow> cli_sys option" where
  "cli_step_join x k now = (\<lambda>(pp, h).
     if k < length (cp_tasks pp) then
       case cp_tasks pp ! k of
         TaskDone r \<Rightarrow>
           (let pp = pp\<lparr>cp_tasks := (cp_tasks pp)[k := TaskJoined]\<rparr> in
            case r of
              Inl e \<Rightarrow> Some (cli_broken x now e (pp, h))
            | Inr recv_index \<Rightarrow>
                (case tag_send TAG_CHUNK_ACK (ack_payload recv_index) (cp_conn pp) of
                   (Inl e, c) \<Rightarrow> Some (cli_broken x now e (pp\<lparr>cp_conn := c\<rparr>, h))
                 | (Inr _, c) \<Rightarrow> Some (cli_count_chunk x now (pp\<lparr>cp_conn := c\<rparr>, h))))
       | _ \<Rightarrow> None
     else None)"

text \<open>The hasher ends when every task has dropped its sender.\<close>

fun task_finished :: "cli_task \<Rightarrow> bool" where
  "task_finished (TaskDone r) = True"
| "task_finished TaskJoined = True"
| "task_finished _ = False"

definition cli_step_verify :: "'h hash_lib \<Rightarrow> 'z cli_ctx \<Rightarrow> int \<Rightarrow> cli_sys \<Rightarrow> cli_sys" where
  "cli_step_verify L x now = (\<lambda>(pp, h).
     (let s = shared_at x h; md = sh_meta s;
          is_valid = hash_verdict L (md_total_chunks md) (md_checksum md) (cp_hash pp);
          c = (if is_valid then snd (tag_send TAG_COMPLETE (md_checksum md) (cp_conn pp))
               else snd (tag_send TAG_ERROR (bytes_of ''Checksum mismatch'') (cp_conn pp)));
          db = (if is_valid
                then complete_transfer (ch_db h) (sh_session s) (format_hex (md_checksum md)) now
                else fail_transfer (ch_db h) (sh_session s) now)
      in (pp\<lparr>cp_conn := c, cp_phase := PhEnded (Inr ())\<rparr>,
          h\<lparr>ch_db := db, ch_active := (ch_active h)(sh_session s := None)\<rparr>)))"

text \<open>
  One step; \<open>None\<close> when the choice is not possible in the state. Tasks may go on after the
  pipeline has ended, until they are aborted.
\<close>

fun cli_step :: "'h hash_lib \<Rightarrow> 'z cli_ctx \<Rightarrow> cli_choice \<Rightarrow> cli_sys \<Rightarrow> cli_sys option" where
  "cli_step L x (ChFrame now) s =
     (if cp_phase (fst s) = PhRunning then Some (cli_step_frame x now s) else None)"
| "cli_step L x (ChWrite k outcome) s = cli_step_write x k outcome s"
| "cli_step L x (ChHash k) s = cli_step_hash k s"
| "cli_step L x (ChJoin k now) s =
     (if cp_phase (fst s) = PhRunning then cli_step_join x k now s else None)"
| "cli_step L x (ChVerify now) s =
     (if cp_phase (fst s) = PhVerifying \<and> list_all task_finished (cp_tasks (fst s))
      then Some (cli_step_verify L x now s) else None)"

text \<open>A schedule; choices that are not possible are skipped.\<close>

fun cli_run :: "'h hash_lib \<Rightarrow> 'z cli_ctx \<Rightarrow> cli_choice list \<Rightarrow> cli_sys \<Rightarrow> cli_sys" where
  "cli_run L x [] s = s"
| "cli_run L x (ch # cs) s =
     cli_run L x cs (case cli_step L x ch s of None \<Rightarrow> s | Some s' \<Rightarrow> s')"

fun cli_moves :: "'h hash_lib \<Rightarrow> 'z cli_ctx \<Rightarrow> cli_choice list \<Rightarrow> cli_sys \<Rightarrow> nat" where
  "cli_moves L x [] s = 0"
| "cli_moves L x (ch # cs) s =
     (case cli_step L x ch s of
        None \<Rightarrow> cli_moves L x cs s
      | Some s' \<Rightarrow> Suc (cli_moves L x cs s'))"

text \<open>The whole of \<open>ReceiverHandler::run\<close> under one schedule.\<close>

definition cli_receive ::
  "'h hash_lib \<Rightarrow> 'z cli_recv_env \<Rightarrow> path \<Rightarrow> cli_choice list \<Rightarrow> conn \<Rightarrow> cli_host
     \<Rightarrow> (string + cli_phase option) \<times> conn \<times> cli_host" where
  "cli_receive L E output_dir cs c h =
     (case cli_recv_begin E output_dir c h of
        (Inl e, c, h) \<Rightarrow> (Inl e, c, h)
      | (Inr None, c, h) \<Rightarrow> (Inr None, c, h)
      | (Inr (Some (key, r)), c, h) \<Rightarrow>
          let x = \<lparr>cx_crypto = ce_crypto E, cx_zstd = ce_zstd E, cx_key = key, cx_ref = r\<rparr>;
              (pp, h) = cli_run L x cs (\<lparr>cp_conn = c, cp_tasks = [], cp_hash = [],
                                         cp_phase = PhRunning\<rparr>, h)
          in (Inr (Some (cp_phase pp)), cp_conn pp, h))"

end
