(* ===== verification/Cli_Send.thy ===== *)
theory Cli_Send
  imports Cli_Recv
begin

text \<open>
  \<open>cmd_send\<close> of \<open>desktop/p2ptransfer-cli/src/main.rs\<close>: the choice of the peer and of the
  record to resume, the handshake, and the pipeline in which up to eight tasks encode
  chunks, a channel of sixteen frames and a reorder buffer lie before the socket, and
  acknowledgements are counted. As in the receiver a list of choices is one schedule.
\<close>

section \<open>The record to resume\<close>

definition cli_same_transfer :: "path \<Rightarrow> string \<Rightarrow> transfer_record \<Rightarrow> bool" where
  "cli_same_transfer p peer t \<longleftrightarrow>
     path_of (tr_file_path t) = p
     \<and> (tr_peer_addr t = peer \<or> tr_peer_addr t = ''127.0.0.1:9877'' \<or> contains_str (tr_peer_addr t) peer)
     \<and> tr_status t \<noteq> Completed \<and> tr_status t \<noteq> Failed"

text \<open>
  The session id and the offset. Printing the first eight bytes of the id of the record
  panics when it has fewer.
\<close>

definition cli_session ::
  "path \<Rightarrow> string \<Rightarrow> u64 \<Rightarrow> string \<Rightarrow> int \<Rightarrow> resume_db \<Rightarrow> (string + string \<times> u64) \<times> resume_db" where
  "cli_session p peer file_size uuid now db =
     (case List.find (cli_same_transfer p peer) (list_transfers db) of
        Some r \<Rightarrow>
          if length (tr_id r) < 8 then (Inl ''byte index 8 is out of bounds'', db)
          else (Inr (tr_id r, of_i64 (max (tr_bytes_transferred r) 0)), db)
      | None \<Rightarrow>
          (case create_transfer db peer (path_text p) (as_i64 file_size) uuid now of
             (Inl e, db) \<Rightarrow> (Inl e, db)
           | (Inr i, db) \<Rightarrow> (Inr (i, 0), db)))"

definition cli_resume_fields :: "u64 \<Rightarrow> transfer_metadata \<Rightarrow> transfer_metadata" where
  "cli_resume_fields resume_offset md =
     (if resume_offset > 0 then md\<lparr>md_resume_offset := resume_offset, md_is_resume := True\<rparr> else md)"

definition cli_effective_compression :: "string \<Rightarrow> int \<Rightarrow> int" where
  "cli_effective_compression peer compression =
     (if starts_with peer ''192.168.'' \<or> starts_with peer ''10.'' then 0 else compression)"

section \<open>Up to the pipeline\<close>

record ('h, 'z) cli_send_env =
  se_hash :: "'h hash_lib"
  se_crypto :: crypto_lib
  se_zstd :: "'z zstd_lib"
  se_codec :: meta_codec
  se_io :: io_env
  se_fs :: filesystem
  se_secret :: "byte list"
  se_rng :: "nat \<Rightarrow> u32"
  se_session_uuid :: string
  se_record_uuid :: string
  se_connects :: bool

text \<open>The address dialled: that of the contact of this name, if there is one.\<close>

definition cli_resolve :: "resume_db \<Rightarrow> string \<Rightarrow> string" where
  "cli_resolve db peer =
     (case get_contact db peer of
        Some c \<Rightarrow> ct_last_known_ip c @ '':'' @ show_nat (unat (ct_last_known_port c))
      | None \<Rightarrow> peer)"

definition cli_send_connect :: "('h, 'z) cli_send_env \<Rightarrow> path \<Rightarrow> string \<Rightarrow> resume_db \<Rightarrow> string + unit" where
  "cli_send_connect E p peer db =
     (if se_fs E p = None then Inl (''Path does not exist: '' @ path_text p)
      else case parse_socket_addr (cli_resolve db peer) of
        None \<Rightarrow> Inl ''Cannot resolve peer''
      | Some peer_addr \<Rightarrow> try_connect_fallback (se_connects E) peer_addr)"

definition cli_check_accept :: "tagged \<Rightarrow> string + unit" where
  "cli_check_accept = (\<lambda>(tag, response).
     if tag = TAG_ERROR then Inl (''Peer rejected: '' @ utf8_lossy response)
     else if tag \<noteq> TAG_METADATA \<or> response \<noteq> bytes_of ''ACCEPT'' then
       Inl (''Peer rejected transfer (unexpected response tag='' @ show_nat (unat tag) @ '')'')
     else Inr ())"

text \<open>The metadata, the key, the session id and the offset, when the peer has accepted.\<close>

definition cli_send_begin ::
  "('h, 'z) cli_send_env \<Rightarrow> path \<Rightarrow> string \<Rightarrow> usize \<Rightarrow> int \<Rightarrow> conn \<Rightarrow> resume_db
     \<Rightarrow> (string + transfer_metadata \<times> byte list \<times> string \<times> u64) \<times> conn \<times> resume_db" where
  "cli_send_begin E p peer chunk_size now c db =
     (case cli_send_connect E p peer db of
        Inl e \<Rightarrow> (Inl e, c, db)
      | Inr _ \<Rightarrow>
     (case cli_client_hello (se_crypto E) (se_secret E) ''handshake'' c of
        (Inl e, c) \<Rightarrow> (Inl e, c, db)
      | (Inr enc_key, c) \<Rightarrow>
     (case create_metadata (se_hash E) (se_io E) (se_fs E) p chunk_size False (se_session_uuid E) of
        Inl e \<Rightarrow> (Inl e, c, db)
      | Inr md \<Rightarrow>
     (let md = md\<lparr>md_nonce_prefix := generate_nonce_prefix (se_rng E)\<rparr> in
      case cli_session p peer (md_file_size md) (se_record_uuid E) now db of
        (Inl e, db) \<Rightarrow> (Inl e, c, db)
      | (Inr (session_id, resume_offset), db) \<Rightarrow>
     (let md = cli_resume_fields resume_offset md in
      case mc_enc (se_codec E) md of
        None \<Rightarrow> (Inl ''Serialization failed'', c, db)
      | Some meta_json \<Rightarrow>
     (case tag_send TAG_METADATA meta_json c of
        (Inl e, c) \<Rightarrow> (Inl e, c, db)
      | (Inr _, c) \<Rightarrow>
     (case tag_receive c of
        (Inl e, c) \<Rightarrow> (Inl e, c, db)
      | (Inr m, c) \<Rightarrow>
          (res_bind (cli_check_accept m) (\<lambda>_. Inr (md, enc_key, session_id, resume_offset)), c, db))))))))"

section \<open>Encoding a chunk\<close>

text \<open>What one task does with its chunk; a failing compression falls back to the plain chunk.\<close>

definition cli_encode_chunk ::
  "crypto_lib \<Rightarrow> 'z zstd_lib \<Rightarrow> path \<Rightarrow> int \<Rightarrow> byte list \<Rightarrow> byte list \<Rightarrow> u64 \<Rightarrow> byte list
     \<Rightarrow> (int \<rightharpoonup> 'z) \<Rightarrow> (string + byte list) \<times> (int \<rightharpoonup> 'z)" where
  "cli_encode_chunk C Z p level key prefix chunk_index chunk_data comps =
     (let should_compress = (level > 0 \<and> 64 \<le> length chunk_data \<and> \<not> is_likely_compressed_fast p chunk_data);
          (z, comps) = (if should_compress then zstd_compress Z comps chunk_data level
                        else (Inl (ZstdFailed ''''), comps))
      in case (case z of
                 Inr d \<Rightarrow> Inr (d, 1)
               | Inl (ZstdPanic e) \<Rightarrow> Inl (''Task panicked: '' @ e)
               | Inl (ZstdFailed _) \<Rightarrow> Inr (chunk_data, 0)) of
           Inl e \<Rightarrow> (Inl e, comps)
         | Inr (payload, flag) \<Rightarrow>
             (case encrypt C key (build_nonce prefix chunk_index) payload of
                Inl e \<Rightarrow> (Inl (''Encryption failed: '' @ e), comps)
              | Inr encrypted \<Rightarrow> (Inr (cli_chunk_frame chunk_index flag encrypted), comps)))"

section \<open>The pipeline\<close>

record 'z cli_tx_ctx =
  xe_crypto :: crypto_lib
  xe_zstd :: "'z zstd_lib"
  xe_io :: io_env
  xe_fs :: filesystem
  xe_path :: path
  xe_md :: transfer_metadata
  xe_key :: "byte list"
  xe_level :: int
  xe_session :: string

datatype cli_tx_phase = TxRunning | TxLeft | TxEnded "string + unit"

text \<open>
  \<open>tx_spawn\<close> is the loop that reads chunks and spawns tasks, at \<open>tx_next\<close>; \<open>tx_tasks\<close> are
  the running tasks with the chunk they hold; \<open>tx_net\<close> and \<open>tx_err\<close> are the channels. The
  counter of bytes is an \<open>i64\<close>, kept as a word.
\<close>

record 'z cli_tx =
  tx_spawn :: bool
  tx_next :: u64
  tx_tasks :: "(u64 \<times> byte list) list"
  tx_comps :: "int \<rightharpoonup> 'z"
  tx_net :: "(u64 \<times> byte list) list"
  tx_err :: "string list"
  tx_buf :: "(u64 \<times> byte list) list"
  tx_to_send :: u64
  tx_to_ack :: u64
  tx_bytes :: u64
  tx_db :: resume_db
  tx_conn :: conn
  tx_paused :: bool
  tx_phase :: cli_tx_phase

definition cli_tx_start ::
  "(int \<rightharpoonup> 'z) \<Rightarrow> u64 \<Rightarrow> u64 \<Rightarrow> resume_db \<Rightarrow> conn \<Rightarrow> 'z cli_tx" where
  "cli_tx_start comps start_chunk resume_offset db c =
     \<lparr>tx_spawn = True, tx_next = start_chunk, tx_tasks = [], tx_comps = comps, tx_net = [],
      tx_err = [], tx_buf = [], tx_to_send = start_chunk, tx_to_ack = start_chunk,
      tx_bytes = resume_offset, tx_db = db, tx_conn = c, tx_paused = False, tx_phase = TxRunning\<rparr>"

text \<open>
  The integer is the time of a database update. \<open>XSpawn\<close> is one turn of the reading loop,
  \<open>XFinish k\<close> the end of a task, \<open>XTake\<close>, \<open>XAck\<close> and \<open>XErr\<close> the branches of the select,
  \<open>XPause\<close> the signal of the user, \<open>XVerify\<close> what follows the loop.
\<close>

datatype cli_tx_choice =
    XSpawn
  | XFinish nat
  | XTake int
  | XAck int
  | XErr int
  | XPause
  | XVerify int

text \<open>The loop reads the next chunk when fewer than eight tasks run.\<close>

definition tx_step_spawn :: "'z cli_tx_ctx \<Rightarrow> 'z cli_tx \<Rightarrow> 'z cli_tx option" where
  "tx_step_spawn x s =
     (if tx_spawn s \<and> length (tx_tasks s) < 8 then
        if md_total_chunks (xe_md x) \<le> tx_next s \<or> tx_paused s then Some (s\<lparr>tx_spawn := False\<rparr>)
        else case prepare_chunk (xe_io x) (xe_fs x) (xe_path x) (xe_md x) (tx_next s) of
          Inl e \<Rightarrow>
            if tx_err s = [] then Some (s\<lparr>tx_spawn := False, tx_err := [''Disk read failed: '' @ e]\<rparr>)
            else None
        | Inr chunk_data \<Rightarrow>
            Some (s\<lparr>tx_tasks := tx_tasks s @ [(tx_next s, chunk_data)], tx_next := tx_next s + 1\<rparr>)
      else None)"

definition tx_step_finish :: "'z cli_tx_ctx \<Rightarrow> nat \<Rightarrow> 'z cli_tx \<Rightarrow> 'z cli_tx option" where
  "tx_step_finish x k s =
     (if k < length (tx_tasks s) then
        (let (chunk_index, chunk_data) = tx_tasks s ! k;
             (r, comps) = cli_encode_chunk (xe_crypto x) (xe_zstd x) (xe_path x) (xe_level x)
               (xe_key x) (md_nonce_prefix (xe_md x)) chunk_index chunk_data (tx_comps s);
             s = s\<lparr>tx_comps := comps, tx_tasks := take k (tx_tasks s) @ drop (Suc k) (tx_tasks s)\<rparr>
         in case r of
              Inl e \<Rightarrow> if tx_err s = [] then Some (s\<lparr>tx_err := [e]\<rparr>) else None
            | Inr frame \<Rightarrow>
                if length (tx_net s) < 16 then Some (s\<lparr>tx_net := tx_net s @ [(chunk_index, frame)]\<rparr>)
                else None)
      else None)"

text \<open>Frames leave the buffer in the order of their indices.\<close>

function tx_drain ::
  "(u64 \<times> byte list) list \<Rightarrow> u64 \<Rightarrow> conn \<Rightarrow> (string + unit) \<times> (u64 \<times> byte list) list \<times> u64 \<times> conn" where
  "tx_drain buffered next_to_send c =
     (case map_of buffered next_to_send of
        None \<Rightarrow> (Inr (), buffered, next_to_send, c)
      | Some frame \<Rightarrow>
          (let buffered = AList.delete next_to_send buffered in
           case tag_send TAG_CHUNK frame c of
             (Inl e, c) \<Rightarrow> (Inl e, buffered, next_to_send, c)
           | (Inr _, c) \<Rightarrow> tx_drain buffered (next_to_send + 1) c))"
  by pat_completeness auto

termination
  by (relation "measure (\<lambda>(buf, _). length buf)") (auto dest: length_delete_less)

declare tx_drain.simps [simp del]

text \<open>After every branch that goes on, the pause flag ends the loop.\<close>

definition tx_turn_end :: "'z cli_tx \<Rightarrow> 'z cli_tx" where
  "tx_turn_end s = (if tx_paused s then s\<lparr>tx_phase := TxLeft\<rparr> else s)"

definition tx_fail :: "'z cli_tx_ctx \<Rightarrow> int \<Rightarrow> string \<Rightarrow> 'z cli_tx \<Rightarrow> 'z cli_tx" where
  "tx_fail x now e s =
     s\<lparr>tx_db := fail_transfer (tx_db s) (xe_session x) now, tx_phase := TxEnded (Inl e)\<rparr>"

definition tx_step_take :: "'z cli_tx_ctx \<Rightarrow> int \<Rightarrow> 'z cli_tx \<Rightarrow> 'z cli_tx option" where
  "tx_step_take x now s =
     (let in_flight = tx_to_send s - tx_to_ack s in
      if in_flight < 32 then
        case tx_net s of
          [] \<Rightarrow> None
        | (chunk_index, frame) # net \<Rightarrow>
            (let (r, buf, next_to_send, c) =
                   tx_drain (AList.update chunk_index frame (tx_buf s)) (tx_to_send s) (tx_conn s);
                 s = s\<lparr>tx_net := net, tx_buf := buf, tx_to_send := next_to_send, tx_conn := c\<rparr>
             in Some (case r of
                  Inl e \<Rightarrow> tx_fail x now (''Network send failed: '' @ e) s
                | Inr _ \<Rightarrow> tx_turn_end s))
      else None)"

definition cli_acked_len :: "transfer_metadata \<Rightarrow> u64 \<Rightarrow> u64" where
  "cli_acked_len md next_to_ack =
     (let actual_len = (if next_to_ack = md_total_chunks md - 1 then md_file_size md mod md_chunk_size md
                        else md_chunk_size md)
      in if actual_len = 0 then md_chunk_size md else actual_len)"

text \<open>A failed read arrives as an error message of the peer.\<close>

definition cli_reply :: "conn \<Rightarrow> tagged \<times> conn" where
  "cli_reply c =
     (case tag_receive c of
        (Inl e, c) \<Rightarrow> ((TAG_ERROR, bytes_of (''Read failed: '' @ e)), c)
      | (Inr m, c) \<Rightarrow> (m, c))"

definition tx_step_ack :: "'z cli_tx_ctx \<Rightarrow> int \<Rightarrow> 'z cli_tx \<Rightarrow> 'z cli_tx" where
  "tx_step_ack x now s =
     (let ((tag, ack), c) = cli_reply (tx_conn s); s = s\<lparr>tx_conn := c\<rparr> in
      if tag = TAG_CHUNK_ACK then
        (let bytes_sent = tx_bytes s + cli_acked_len (xe_md x) (tx_to_ack s);
             s = s\<lparr>tx_bytes := bytes_sent,
                   tx_db := update_progress (tx_db s) (xe_session x) (as_i64 bytes_sent) now,
                   tx_to_ack := tx_to_ack s + 1\<rparr>
         in if tx_to_ack s = md_total_chunks (xe_md x) then s\<lparr>tx_phase := TxLeft\<rparr> else tx_turn_end s)
      else if tag = TAG_ERROR then tx_fail x now (''Peer error: '' @ utf8_lossy ack) s
      else if tag = TAG_COMPLETE then tx_fail x now ''Unexpected COMPLETE tag before all chunks acked'' s
      else tx_fail x now (''Expected CHUNK_ACK, got tag='' @ show_nat (unat tag)) s)"

definition tx_step_err :: "'z cli_tx_ctx \<Rightarrow> int \<Rightarrow> 'z cli_tx \<Rightarrow> 'z cli_tx option" where
  "tx_step_err x now s =
     (case tx_err s of
        [] \<Rightarrow> None
      | err # errs \<Rightarrow> Some (tx_fail x now (''Pipeline error: '' @ err) (s\<lparr>tx_err := errs\<rparr>)))"

text \<open>
  A paused transfer, or one whose acknowledgements are not complete, returns without an
  error; otherwise the receiver's verdict is awaited.
\<close>

definition tx_step_verify :: "'z cli_tx_ctx \<Rightarrow> int \<Rightarrow> 'z cli_tx \<Rightarrow> 'z cli_tx" where
  "tx_step_verify x now s =
     (let md = xe_md x in
      if tx_paused s \<or> tx_to_ack s < md_total_chunks md then s\<lparr>tx_phase := TxEnded (Inr ())\<rparr>
      else let ((tag, response), c) = cli_reply (tx_conn s); s = s\<lparr>tx_conn := c\<rparr> in
        if tag = TAG_COMPLETE then
          if take (min (length response) 32) response \<noteq> md_checksum md then
            tx_fail x now ''Checksum mismatch: receiver hash differs from sender'' s
          else s\<lparr>tx_db := complete_transfer (tx_db s) (xe_session x) (format_hex (md_checksum md)) now,
                 tx_phase := TxEnded (Inr ())\<rparr>
        else if tag = TAG_ERROR then tx_fail x now (''Receiver reported error: '' @ utf8_lossy response) s
        else tx_fail x now (''Unexpected response after transfer: tag='' @ show_nat (unat tag)) s)"

text \<open>Spawned tasks go on when the loop has been left; the branches of the select do not.\<close>

fun tx_step :: "'z cli_tx_ctx \<Rightarrow> cli_tx_choice \<Rightarrow> 'z cli_tx \<Rightarrow> 'z cli_tx option" where
  "tx_step x XSpawn s = tx_step_spawn x s"
| "tx_step x (XFinish k) s = tx_step_finish x k s"
| "tx_step x (XTake now) s = (if tx_phase s = TxRunning then tx_step_take x now s else None)"
| "tx_step x (XAck now) s = (if tx_phase s = TxRunning then Some (tx_step_ack x now s) else None)"
| "tx_step x (XErr now) s = (if tx_phase s = TxRunning then tx_step_err x now s else None)"
| "tx_step x XPause s = Some (s\<lparr>tx_paused := True\<rparr>)"
| "tx_step x (XVerify now) s = (if tx_phase s = TxLeft then Some (tx_step_verify x now s) else None)"

fun tx_run :: "'z cli_tx_ctx \<Rightarrow> cli_tx_choice list \<Rightarrow> 'z cli_tx \<Rightarrow> 'z cli_tx" where
  "tx_run x [] s = s"
| "tx_run x (ch # cs) s = tx_run x cs (case tx_step x ch s of None \<Rightarrow> s | Some s' \<Rightarrow> s')"

text \<open>The whole command under one schedule.\<close>

definition cmd_send ::
  "('h, 'z) cli_send_env \<Rightarrow> path \<Rightarrow> string \<Rightarrow> int \<Rightarrow> usize \<Rightarrow> cli_tx_choice list \<Rightarrow> int
     \<Rightarrow> conn \<Rightarrow> resume_db \<Rightarrow> (string + cli_tx_phase) \<times> conn \<times> resume_db" where
  "cmd_send E p peer compression chunk_size cs now c db =
     (case cli_send_begin E p peer chunk_size now c db of
        (Inl e, c, db) \<Rightarrow> (Inl e, c, db)
      | (Inr (md, enc_key, session_id, resume_offset), c, db) \<Rightarrow>
     (case cli_start_chunk md resume_offset of
        Inl e \<Rightarrow> (Inl e, c, db)
      | Inr start_chunk \<Rightarrow>
          let x = \<lparr>xe_crypto = se_crypto E, xe_zstd = se_zstd E, xe_io = se_io E, xe_fs = se_fs E,
                   xe_path = p, xe_md = md, xe_key = enc_key,
                   xe_level = cli_effective_compression peer compression, xe_session = session_id\<rparr>;
              s = tx_run x cs (cli_tx_start Map.empty start_chunk resume_offset db c)
          in (Inr (tx_phase s), tx_conn s, tx_db s)))"

end
