(* ===== verification/Cli_Order.thy ===== *)
theory Cli_Order
  imports Cli_Send
begin

text \<open>
  The pipeline of the sender of the command line tool: an invariant of every schedule, by
  which frames leave in the order of their indices whatever the order in which the tasks
  finish, and no frame is lost; and what its count of acknowledgements does not see.
\<close>

section \<open>The reorder buffer\<close>

lemma tag_send_cases:
  assumes "tag_send t p c = (r, c')"
  obtains "r = Inr ()" "cn_out c' = cn_out c @ send_tagged (t, p)" "cn_in c' = cn_in c"
    | e where "r = Inl e" "cn_out c' = cn_out c" "cn_in c' = cn_in c"
  using assms
  by (auto simp: tag_send_def conn_send_def send_tagged_def split: list.splits option.splits)

lemma AList_delete_filter: "AList.delete k xs = filter (\<lambda>(i, _). i \<noteq> k) xs"
  by (induction xs) auto

definition cli_chunks :: "(nat \<Rightarrow> byte list) \<Rightarrow> nat \<Rightarrow> nat \<Rightarrow> byte list" where
  "cli_chunks F a m = concat (map (\<lambda>i. send_tagged (TAG_CHUNK, F i)) [a..<m])"

lemma cli_chunks_Suc: "a \<le> m \<Longrightarrow> cli_chunks F a (Suc m) = cli_chunks F a m @ send_tagged (TAG_CHUNK, F m)"
  by (simp add: cli_chunks_def)

lemma cli_chunks_self [simp]: "cli_chunks F a a = []"
  by (simp add: cli_chunks_def)

lemma cli_chunks_append: "a \<le> m \<Longrightarrow> m \<le> n \<Longrightarrow> cli_chunks F a m @ cli_chunks F m n = cli_chunks F a n"
  using upt_add_eq_append [of a m "n - m"] by (simp add: cli_chunks_def)

text \<open>A buffer of frames that are still to be sent, each under its own index.\<close>

definition frames_ok :: "(nat \<Rightarrow> byte list) \<Rightarrow> nat \<Rightarrow> nat \<Rightarrow> (u64 \<times> byte list) list \<Rightarrow> bool" where
  "frames_ok F m n buf \<longleftrightarrow> (\<forall>(i, f) \<in> set buf. f = F (unat i) \<and> m \<le> unat i \<and> unat i < n)"

lemma frames_ok_less:
  assumes "frames_ok F (unat m) n buf" "n < 2 ^ 64"
  shows "frames_ok F (unat (m + 1)) n (filter (\<lambda>(i, _). i \<noteq> m) buf)"
proof -
  have "unat (m + 1) \<le> unat i" if "i \<noteq> m" "unat m \<le> unat i" for i :: u64
  proof -
    have "m < i" using that by (simp add: word_less_nat_alt le_less word_unat_eq_iff)
    then show ?thesis using inc_le word_le_nat_alt by blast
  qed
  with assms(1) show ?thesis by (auto simp: frames_ok_def)
qed

lemma unat_inc: "unat (m :: u64) < n \<Longrightarrow> n < 2 ^ 64 \<Longrightarrow> unat (m + 1) = Suc (unat m)"
  by (simp add: unat_word_ariths)

lemma tx_drain_order:
  assumes "tx_drain buf m c = (r, buf', m', c')" "frames_ok F (unat m) n buf" "n < 2 ^ 64"
    "unat m \<le> n"
  shows "unat m \<le> unat m' \<and> unat m' \<le> n \<and> frames_ok F (unat m') n buf'
    \<and> cn_out c' = cn_out c @ cli_chunks F (unat m) (unat m') \<and> cn_in c' = cn_in c
    \<and> {i. unat m \<le> unat i \<and> unat i < unat m'} \<subseteq> fst ` set buf \<and> fst ` set buf' \<subseteq> fst ` set buf
    \<and> (distinct (map fst buf) \<longrightarrow> distinct (map fst buf'))
    \<and> (r = Inr () \<longrightarrow> map_of buf' m' = None
          \<and> fst ` set buf = fst ` set buf' \<union> {i. unat m \<le> unat i \<and> unat i < unat m'})"
  using assms
proof (induction buf m c rule: tx_drain.induct)
  case (1 buf m c)
  note IH = 1(1) and run = 1(2) and ok0 = 1(3) and n = 1(4) and mn = 1(5)
  show ?case
  proof (cases "map_of buf m")
    case None
    with 1 show ?thesis by (auto simp: tx_drain.simps [of buf m c])
  next
    case (Some frame)
    let ?buf = "AList.delete m buf"
    have m: "frame = F (unat m)" "unat m < n"
      using map_of_SomeD [OF Some] ok0 by (auto simp: frames_ok_def)
    note s = unat_inc [OF m(2) n]
    have ok: "frames_ok F (unat (m + 1)) n ?buf"
      using frames_ok_less [OF ok0 n] by (simp add: AList_delete_filter)
    obtain r1 c1 where send: "tag_send TAG_CHUNK frame c = (r1, c1)" by (cases "tag_send TAG_CHUNK frame c")
    then show ?thesis
    proof (cases rule: tag_send_cases)
      case 1
      with Some send run have run1: "tx_drain ?buf (m + 1) c1 = (r, buf', m', c')"
        by (simp add: tx_drain.simps [of buf m c] Let_def)
      from 1(1) send have "tag_send TAG_CHUNK frame c = (Inr (), c1)" by simp
      from IH [OF Some refl this [symmetric] refl run1 ok n] s m(2)
      have rest: "Suc (unat m) \<le> unat m'" "unat m' \<le> n" "frames_ok F (unat m') n buf'"
          "cn_out c' = cn_out c1 @ cli_chunks F (Suc (unat m)) (unat m')" "cn_in c' = cn_in c1"
          "{i. Suc (unat m) \<le> unat i \<and> unat i < unat m'} \<subseteq> fst ` set ?buf" "fst ` set buf' \<subseteq> fst ` set ?buf"
          "distinct (map fst ?buf) \<Longrightarrow> distinct (map fst buf')"
          "r = Inr () \<Longrightarrow> map_of buf' m' = None
            \<and> fst ` set ?buf = fst ` set buf' \<union> {i. Suc (unat m) \<le> unat i \<and> unat i < unat m'}"
        by simp_all
      have "cli_chunks F (unat m) (unat m') = send_tagged (TAG_CHUNK, frame) @ cli_chunks F (Suc (unat m)) (unat m')"
        using rest(1) m(1) by (simp add: cli_chunks_def upt_conv_Cons)
      moreover have keys: "fst ` set buf = insert m (fst ` set ?buf)"
        using map_of_SomeD [OF Some] by (force simp: AList_delete_filter image_iff)
      have range: "{i. unat m \<le> unat i \<and> unat i < unat m'}
          = insert m {i. Suc (unat m) \<le> unat i \<and> unat i < unat m'}"
        using rest(1) by (auto simp: word_unat_eq_iff)
      moreover have "distinct (map fst buf) \<Longrightarrow> distinct (map fst ?buf)" by (simp add: distinct_delete)
      ultimately show ?thesis using rest 1(2,3) unfolding keys range by auto
    next
      case (2 e)
      with Some send run have "r = Inl e" "buf' = ?buf" "m' = m" "c' = c1"
        by (auto simp: tx_drain.simps [of buf m c] Let_def)
      with 2 ok0 mn show ?thesis by (auto simp: frames_ok_def AList_delete_filter distinct_map_filter)
    qed
  qed
qed

section \<open>Encoding does not depend on the schedule\<close>

lemma cli_encode_independent:
  assumes "comps_ok Z comps"
  shows "fst (cli_encode_chunk C Z p l k pre i d comps) = fst (cli_encode_chunk C Z p l k pre i d Map.empty)"
    "comps_ok Z (snd (cli_encode_chunk C Z p l k pre i d comps))"
proof -
  obtain r comps' where z: "zstd_compress Z comps d l = (r, comps')" by (cases "zstd_compress Z comps d l")
  obtain r0 comps0 where z0: "zstd_compress Z Map.empty d l = (r0, comps0)" by (cases "zstd_compress Z Map.empty d l")
  have "r = r0" using zstd_compress_cache_independent [OF assms, of d l] z z0 by simp
  moreover have "comps_ok Z comps'" by (rule zstd_compress_comps_ok [OF assms z])
  ultimately show "fst (cli_encode_chunk C Z p l k pre i d comps) = fst (cli_encode_chunk C Z p l k pre i d Map.empty)"
    "comps_ok Z (snd (cli_encode_chunk C Z p l k pre i d comps))"
    using assms
    by (simp_all add: cli_encode_chunk_def Let_def z z0 case_prod_unfold del: encrypt_Inr
        split: sum.split zstd_error.split)
qed

definition tx_chunk :: "'z cli_tx_ctx \<Rightarrow> nat \<Rightarrow> byte list" where
  "tx_chunk x i = (case prepare_chunk (xe_io x) (xe_fs x) (xe_path x) (xe_md x) (of_nat i) of
     Inr d \<Rightarrow> d | Inl e \<Rightarrow> [])"

definition tx_frame :: "'z cli_tx_ctx \<Rightarrow> nat \<Rightarrow> byte list" where
  "tx_frame x i = (case fst (cli_encode_chunk (xe_crypto x) (xe_zstd x) (xe_path x) (xe_level x)
       (xe_key x) (md_nonce_prefix (xe_md x)) (of_nat i) (tx_chunk x i) Map.empty) of
     Inr f \<Rightarrow> f | Inl e \<Rightarrow> [])"

section \<open>The invariant of the sender\<close>

text \<open>Nothing has failed.\<close>

definition tx_fine :: "'z cli_tx \<Rightarrow> bool" where
  "tx_fine s \<longleftrightarrow> tx_err s = [] \<and> (\<forall>e. tx_phase s \<noteq> TxEnded (Inl e))"

abbreviation tx_held :: "'z cli_tx \<Rightarrow> u64 set" where
  "tx_held s \<equiv> fst ` (set (tx_tasks s) \<union> set (tx_net s) \<union> set (tx_buf s))"

definition tx_inv :: "'z cli_tx_ctx \<Rightarrow> u64 \<Rightarrow> byte list \<Rightarrow> 'z cli_tx \<Rightarrow> bool" where
  "tx_inv x a out s \<longleftrightarrow> (let F = tx_frame x; n = unat (md_total_chunks (xe_md x)) in
     comps_ok (xe_zstd x) (tx_comps s)
     \<and> unat a \<le> unat (tx_to_send s) \<and> unat (tx_to_send s) \<le> unat (tx_next s) \<and> unat (tx_next s) \<le> n
     \<and> (\<forall>(i, d) \<in> set (tx_tasks s). d = tx_chunk x (unat i) \<and> unat i < unat (tx_next s)
          \<and> unat (tx_to_send s) \<le> unat i)
     \<and> frames_ok F (unat (tx_to_send s)) (unat (tx_next s)) (tx_net s)
     \<and> frames_ok F (unat (tx_to_send s)) (unat (tx_next s)) (tx_buf s)
     \<and> cn_out (tx_conn s) = out @ cli_chunks F (unat a) (unat (tx_to_send s))
     \<and> length (tx_tasks s) \<le> 8 \<and> length (tx_net s) \<le> 16
     \<and> distinct (map fst (tx_tasks s @ tx_net s @ tx_buf s))
     \<and> (tx_fine s \<longrightarrow> tx_held s = {i. unat (tx_to_send s) \<le> unat i \<and> unat i < unat (tx_next s)}
          \<and> map_of (tx_buf s) (tx_to_send s) = None
          \<and> (\<not> tx_spawn s \<and> \<not> tx_paused s \<longrightarrow> unat (tx_next s) = n)))"

lemma tx_inv_start:
  "comps_ok (xe_zstd x) comps \<Longrightarrow> unat a \<le> unat (md_total_chunks (xe_md x)) \<Longrightarrow>
   tx_inv x a (cn_out c) (cli_tx_start comps a off db c)"
  by (auto simp: tx_inv_def cli_tx_start_def frames_ok_def Let_def)

lemma tx_inv_spawn:
  assumes "tx_inv x a out s" "tx_step_spawn x s = Some s'"
  shows "tx_inv x a out s'"
proof (cases "md_total_chunks (xe_md x) \<le> tx_next s \<or> tx_paused s")
  case True
  with assms have "s' = s\<lparr>tx_spawn := False\<rparr>" by (auto simp: tx_step_spawn_def split: if_splits)
  moreover from True assms(1) have "unat (tx_next s) = unat (md_total_chunks (xe_md x)) \<or> tx_paused s"
    by (auto simp: tx_inv_def Let_def word_le_nat_alt)
  ultimately show ?thesis using assms(1) by (auto simp: tx_inv_def Let_def tx_fine_def)
next
  case False
  show ?thesis
  proof (cases "prepare_chunk (xe_io x) (xe_fs x) (xe_path x) (xe_md x) (tx_next s)")
    case (Inl e)
    with False assms have "s' = s\<lparr>tx_spawn := False, tx_err := [''Disk read failed: '' @ e]\<rparr>"
      by (auto simp: tx_step_spawn_def split: if_splits)
    with assms(1) show ?thesis by (auto simp: tx_inv_def Let_def tx_fine_def)
  next
    case (Inr d)
    with False assms have s': "s' = s\<lparr>tx_tasks := tx_tasks s @ [(tx_next s, d)], tx_next := tx_next s + 1\<rparr>"
      and free: "length (tx_tasks s) < 8" "tx_spawn s"
      by (auto simp: tx_step_spawn_def split: if_splits)
    have d: "d = tx_chunk x (unat (tx_next s))" using Inr by (simp add: tx_chunk_def)
    have lt: "unat (tx_next s) < unat (md_total_chunks (xe_md x))"
      using False by (simp add: word_less_nat_alt word_le_nat_alt)
    have "unat (md_total_chunks (xe_md x)) < 2 ^ 64"
      using unsigned_less [of "md_total_chunks (xe_md x)"] by simp
    note nx = unat_inc [OF lt this]
    have ins: "{i. unat (tx_to_send s) \<le> unat i \<and> unat i < Suc (unat (tx_next s))}
        = insert (tx_next s) {i. unat (tx_to_send s) \<le> unat i \<and> unat i < unat (tx_next s)}"
      using assms(1) by (auto simp: tx_inv_def Let_def less_Suc_eq word_unat_eq_iff)
    show ?thesis using assms(1) free lt d
      by (auto simp: s' tx_inv_def Let_def tx_fine_def frames_ok_def nx ins)
  qed
qed

lemma tx_inv_finish:
  assumes "tx_inv x a out s" "tx_step_finish x k s = Some s'"
  shows "tx_inv x a out s'"
proof -
  have k: "k < length (tx_tasks s)" using assms(2) by (simp add: tx_step_finish_def split: if_splits)
  obtain i d where task: "tx_tasks s ! k = (i, d)" by (cases "tx_tasks s ! k")
  let ?ts = "take k (tx_tasks s) @ drop (Suc k) (tx_tasks s)"
  define ts where "ts = ?ts"
  have cut: "tx_tasks s = take k (tx_tasks s) @ (i, d) # drop (Suc k) (tx_tasks s)"
    using id_take_nth_drop [OF k] task by simp
  have tasks: "set (tx_tasks s) = insert (i, d) (set ts)" "length ts \<le> length (tx_tasks s)"
    by (subst cut, simp add: ts_def) (simp add: ts_def)
  have inv: "d = tx_chunk x (unat i)" "unat i < unat (tx_next s)" "unat (tx_to_send s) \<le> unat i"
    "comps_ok (xe_zstd x) (tx_comps s)"
    and dist: "distinct (map fst (tx_tasks s @ tx_net s @ tx_buf s))"
    using assms(1) tasks(1) by (simp_all add: tx_inv_def Let_def)
  obtain r comps where enc: "cli_encode_chunk (xe_crypto x) (xe_zstd x) (xe_path x) (xe_level x)
      (xe_key x) (md_nonce_prefix (xe_md x)) i d (tx_comps s) = (r, comps)"
    by (cases "cli_encode_chunk (xe_crypto x) (xe_zstd x) (xe_path x) (xe_level x)
      (xe_key x) (md_nonce_prefix (xe_md x)) i d (tx_comps s)")
  note enc' = cli_encode_independent [OF inv(4), of "xe_crypto x" "xe_path x" "xe_level x" "xe_key x"
        "md_nonce_prefix (xe_md x)" i d, unfolded enc]
  have "r = fst (cli_encode_chunk (xe_crypto x) (xe_zstd x) (xe_path x) (xe_level x)
      (xe_key x) (md_nonce_prefix (xe_md x)) (of_nat (unat i)) (tx_chunk x (unat i)) Map.empty)"
    using enc'(1) by (simp add: inv(1) [symmetric])
  then have frame: "f = tx_frame x (unat i)" if "r = Inr f" for f
    using that unfolding tx_frame_def by (metis sum.simps(6))
  have "map fst (tx_tasks s @ tx_net s @ tx_buf s)
      = map fst (take k (tx_tasks s)) @ i # map fst (drop (Suc k) (tx_tasks s)) @ map fst (tx_net s @ tx_buf s)"
    by (subst cut) simp
  from dist [unfolded this] have dist': "distinct (map fst (ts @ tx_net s @ tx_buf s))"
    "i \<notin> fst ` (set ts \<union> set (tx_net s) \<union> set (tx_buf s))"
    by (auto simp: ts_def)
  show ?thesis
  proof (cases r)
    case (Inl e)
    with assms(2) k task enc have s': "s' = s\<lparr>tx_comps := comps, tx_tasks := ts, tx_err := [e]\<rparr>"
      by (simp add: tx_step_finish_def ts_def Let_def split: if_splits)
    have "\<not> tx_fine s'" by (simp add: s' tx_fine_def)
    with assms(1) enc'(2) tasks(1,2) dist'(1) show ?thesis by (simp add: tx_inv_def Let_def s')
  next
    case (Inr f)
    with assms(2) k task enc have
      s': "s' = s\<lparr>tx_comps := comps, tx_tasks := ts, tx_net := tx_net s @ [(i, f)]\<rparr>"
      and net: "length (tx_net s) < 16"
      by (auto simp: tx_step_finish_def ts_def Let_def split: if_splits)
    have "tx_held s' = tx_held s" using tasks(1) by (auto simp: s')
    moreover have "tx_fine s' = tx_fine s" by (simp add: s' tx_fine_def)
    moreover have "distinct (map fst (tx_tasks s' @ tx_net s' @ tx_buf s'))" using dist' by (auto simp: s')
    moreover have "frames_ok (tx_frame x) (unat (tx_to_send s)) (unat (tx_next s)) (tx_net s @ [(i, f)])"
      using assms(1) frame [OF Inr] inv by (simp add: tx_inv_def Let_def frames_ok_def)
    ultimately show ?thesis using assms(1) enc'(2) tasks(1,2) net
      by (simp add: tx_inv_def Let_def s')
  qed
qed

lemma frames_ok_update:
  "frames_ok F m n buf \<Longrightarrow> f = F (unat i) \<Longrightarrow> m \<le> unat i \<Longrightarrow> unat i < n
   \<Longrightarrow> frames_ok F m n (AList.update i f buf)"
  by (induction buf) (auto simp: frames_ok_def)

lemma frames_ok_mono: "frames_ok F m n buf \<Longrightarrow> n \<le> n' \<Longrightarrow> frames_ok F m n' buf"
  by (auto simp: frames_ok_def)

lemma frames_ok_raise:
  assumes "frames_ok F m n xs" "\<forall>i \<in> fst ` set xs. \<not> (m \<le> unat i \<and> unat i < m')"
  shows "frames_ok F m' n xs"
  using assms by (fastforce simp: frames_ok_def)

lemma set_remainder:
  "H = A \<Longrightarrow> H = H1 \<union> R \<Longrightarrow> \<forall>j \<in> H1. j \<notin> R \<Longrightarrow> A - R = X \<Longrightarrow> H1 = X"
  by blast

lemma tx_inv_take:
  assumes "tx_inv x a out s" "tx_step_take x now s = Some s'" "tx_phase s = TxRunning"
  shows "tx_inv x a out s'"
proof -
  obtain i f net where net: "tx_net s = (i, f) # net"
    using assms(2) by (auto simp: tx_step_take_def Let_def split: if_splits list.splits)
  let ?m = "unat (tx_to_send s)" and ?n = "unat (tx_next s)" and ?buf = "AList.update i f (tx_buf s)"
  obtain r buf m' c where drain: "tx_drain ?buf (tx_to_send s) (tx_conn s) = (r, buf, m', c)"
    by (cases "tx_drain ?buf (tx_to_send s) (tx_conn s)")
  define s1 where "s1 = s\<lparr>tx_net := net, tx_buf := buf, tx_to_send := m', tx_conn := c\<rparr>"
  have s': "s' = (case r of Inl e \<Rightarrow> tx_fail x now (''Network send failed: '' @ e) s1 | Inr _ \<Rightarrow> tx_turn_end s1)"
    using assms(2) by (simp add: tx_step_take_def Let_def net drain s1_def split: if_splits sum.splits)
  have inv: "frames_ok (tx_frame x) ?m ?n (tx_buf s)" "frames_ok (tx_frame x) ?m ?n ((i, f) # net)"
      "?m \<le> ?n" "unat a \<le> ?m" "distinct (map fst (tx_tasks s @ (i, f) # net @ tx_buf s))"
      "\<forall>(j, d) \<in> set (tx_tasks s). d = tx_chunk x (unat j) \<and> unat j < ?n \<and> ?m \<le> unat j"
      "cn_out (tx_conn s) = out @ cli_chunks (tx_frame x) (unat a) ?m"
    using assms(1) net by (simp_all add: tx_inv_def Let_def)
  have "f = tx_frame x (unat i)" "?m \<le> unat i" "unat i < ?n" using inv(2) by (simp_all add: frames_ok_def)
  then have buf: "frames_ok (tx_frame x) ?m ?n ?buf" by (rule frames_ok_update [OF inv(1)])
  have "?n < 2 ^ 64" using unsigned_less [of "tx_next s"] by simp
  from tx_drain_order [OF drain buf this inv(3)] have D: "?m \<le> unat m'" "unat m' \<le> ?n"
      "frames_ok (tx_frame x) (unat m') ?n buf"
      "cn_out c = cn_out (tx_conn s) @ cli_chunks (tx_frame x) ?m (unat m')"
      "{i. ?m \<le> unat i \<and> unat i < unat m'} \<subseteq> fst ` set ?buf" "fst ` set buf \<subseteq> fst ` set ?buf"
      "distinct (map fst ?buf) \<Longrightarrow> distinct (map fst buf)"
      "r = Inr () \<Longrightarrow> map_of buf m' = None
        \<and> fst ` set ?buf = fst ` set buf \<union> {i. ?m \<le> unat i \<and> unat i < unat m'}"
    by simp_all
  have keys: "fst ` set ?buf = insert i (fst ` set (tx_buf s))" by (simp add: dom_update)
  have apart: "\<forall>j \<in> fst ` (set (tx_tasks s) \<union> set net). j \<notin> fst ` set ?buf"
    using inv(5) unfolding keys by (fastforce simp: image_iff)
  then have past: "\<forall>j \<in> fst ` (set (tx_tasks s) \<union> set net). \<not> (?m \<le> unat j \<and> unat j < unat m')"
    using D(5) by blast
  have "distinct (map fst ?buf)" using inv(5) by (simp add: distinct_update)
  then have "distinct (map fst buf)" by (rule D(7))
  moreover have "fst ` (set (tx_tasks s) \<union> set net) \<inter> fst ` set buf = {}" using apart D(6) by blast
  ultimately have "distinct (map fst (tx_tasks s @ net @ buf))"
    using inv(5) by (simp add: image_Un Int_Un_distrib2 Int_Un_distrib)
  then have N: "distinct (map fst (tx_tasks s @ net @ buf))" "frames_ok (tx_frame x) (unat m') ?n net"
    using frames_ok_raise [of "tx_frame x" ?m ?n net "unat m'"] inv(2) past by (simp_all add: frames_ok_def)
  have T: "\<forall>(j, d) \<in> set (tx_tasks s). d = tx_chunk x (unat j) \<and> unat j < ?n \<and> unat m' \<le> unat j"
  proof (clarify, intro conjI)
    fix j d
    assume j: "(j, d) \<in> set (tx_tasks s)"
    with inv(6) show "d = tx_chunk x (unat j)" "unat j < ?n" by auto
    from j have "j \<in> fst ` (set (tx_tasks s) \<union> set net)" by force
    with past have "\<not> (?m \<le> unat j \<and> unat j < unat m')" by blast
    with j inv(6) show "unat m' \<le> unat j" by auto
  qed
  have O: "cn_out c = out @ cli_chunks (tx_frame x) (unat a) (unat m')"
    using D(1,4) inv(4,7) cli_chunks_append [of "unat a" ?m "unat m'" "tx_frame x"] by simp
  have H: "tx_held s1 = {j. unat m' \<le> unat j \<and> unat j < ?n} \<and> map_of buf m' = None"
    if "tx_fine s" "r = Inr ()"
  proof -
    have "tx_held s = {j. ?m \<le> unat j \<and> unat j < ?n}" using assms(1) that(1) by (simp add: tx_inv_def Let_def)
    note H = this
    have H1: "tx_held s = tx_held s1 \<union> {j. ?m \<le> unat j \<and> unat j < unat m'}"
    proof -
      have "tx_held s = fst ` set (tx_tasks s) \<union> fst ` set net \<union> fst ` set ?buf"
        unfolding keys by (auto simp: net)
      also have "\<dots> = tx_held s1 \<union> {j. ?m \<le> unat j \<and> unat j < unat m'}"
        unfolding conjunct2 [OF D(8) [OF that(2)]] by (simp add: s1_def image_Un Un_ac)
      finally show ?thesis .
    qed
    have H2: "\<forall>j \<in> tx_held s1. j \<notin> {j. ?m \<le> unat j \<and> unat j < unat m'}"
    proof -
      have "\<forall>j \<in> fst ` set buf. \<not> (?m \<le> unat j \<and> unat j < unat m')"
        using D(3) by (auto simp: frames_ok_def)
      with past show ?thesis by (simp add: s1_def image_Un ball_Un)
    qed
    have "{j. ?m \<le> unat j \<and> unat j < ?n} - {j. ?m \<le> unat j \<and> unat j < unat m'}
        = {j. unat m' \<le> unat j \<and> unat j < ?n}" using D(1) by auto
    from set_remainder [OF H H1 H2 this]
    have "tx_held s1 = {j. unat m' \<le> unat j \<and> unat j < ?n}" .
    with D(8) [OF that(2)] show ?thesis by blast
  qed
  have a: "unat a \<le> unat m'" using D(1) inv(4) by simp
  show ?thesis
  proof (cases r)
    case (Inl e)
    then have "\<not> tx_fine s'" by (simp add: s' tx_fail_def tx_fine_def)
    with assms(1) D(2,3) N T O a Inl show ?thesis
      by (simp add: tx_inv_def Let_def s' s1_def tx_fail_def net)
  next
    case (Inr u)
    then have s'': "tx_fine s' \<Longrightarrow> tx_fine s" "tx_held s' = tx_held s1"
      using assms(3) by (auto simp: s' s1_def tx_turn_end_def tx_fine_def split: if_splits)
    from Inr s''(1) H have "tx_fine s' \<Longrightarrow> tx_held s1 = {j. unat m' \<le> unat j \<and> unat j < ?n} \<and> map_of buf m' = None"
      by simp
    with assms(1) D(2,3) N T O a Inr s'' show ?thesis
      by (simp add: tx_inv_def Let_def s' s1_def tx_turn_end_def net)
  qed
qed

text \<open>The other steps leave the frames where they are.\<close>

lemma tx_inv_same:
  assumes "tx_inv x a out s"
    and "tx_tasks s' = tx_tasks s" "tx_net s' = tx_net s" "tx_buf s' = tx_buf s" "tx_next s' = tx_next s"
      "tx_to_send s' = tx_to_send s" "tx_comps s' = tx_comps s" "tx_spawn s' = tx_spawn s"
      "cn_out (tx_conn s') = cn_out (tx_conn s)"
    and "tx_fine s' \<Longrightarrow> tx_fine s" "tx_paused s \<Longrightarrow> tx_paused s'"
  shows "tx_inv x a out s'"
  using assms by (auto simp: tx_inv_def Let_def)

lemma cn_out_reply: "cli_reply c = (m, c') \<Longrightarrow> cn_out c' = cn_out c"
  by (auto simp: cli_reply_def tag_receive_def split: sum.splits list.splits prod.splits)

lemma tx_fail_fields [simp]:
  "tx_tasks (tx_fail x t e s) = tx_tasks s" "tx_net (tx_fail x t e s) = tx_net s"
  "tx_buf (tx_fail x t e s) = tx_buf s" "tx_next (tx_fail x t e s) = tx_next s"
  "tx_to_send (tx_fail x t e s) = tx_to_send s" "tx_comps (tx_fail x t e s) = tx_comps s"
  "tx_spawn (tx_fail x t e s) = tx_spawn s" "tx_conn (tx_fail x t e s) = tx_conn s"
  "tx_paused (tx_fail x t e s) = tx_paused s" "\<not> tx_fine (tx_fail x t e s)"
  "tx_phase (tx_fail x t e s) = TxEnded (Inl e)"
  by (simp_all add: tx_fail_def tx_fine_def)

lemma fine_running: "tx_phase s = TxRunning \<or> tx_phase s = TxLeft \<Longrightarrow> tx_fine s \<longleftrightarrow> tx_err s = []"
  by (auto simp: tx_fine_def)

lemma fine_err: "tx_fine s \<Longrightarrow> tx_err s = []"
  by (simp add: tx_fine_def)

lemma tx_inv_ack:
  assumes "tx_inv x a out s" "tx_phase s = TxRunning"
  shows "tx_inv x a out (tx_step_ack x now s)"
proof -
  obtain tag ack c where r: "cli_reply (tx_conn s) = ((tag, ack), c)" by (cases "cli_reply (tx_conn s)") auto
  have "tx_fine (tx_step_ack x now s) \<Longrightarrow> tx_fine s"
    using assms(2) by (simp add: fine_running)
      (drule fine_err, simp add: tx_step_ack_def r Let_def tx_turn_end_def tx_fail_def split: if_splits)
  then show ?thesis
    using cn_out_reply [OF r]
    by (intro tx_inv_same [OF assms(1)])
       (simp_all add: tx_step_ack_def r Let_def tx_turn_end_def)
qed

lemma tx_inv_verify:
  assumes "tx_inv x a out s" "tx_phase s = TxLeft"
  shows "tx_inv x a out (tx_step_verify x now s)"
proof -
  obtain tag ack c where r: "cli_reply (tx_conn s) = ((tag, ack), c)" by (cases "cli_reply (tx_conn s)") auto
  have "tx_fine (tx_step_verify x now s) \<Longrightarrow> tx_fine s"
    using assms(2) by (simp add: fine_running)
      (drule fine_err, simp add: tx_step_verify_def r Let_def tx_fail_def split: if_splits)
  then show ?thesis
    using cn_out_reply [OF r]
    by (intro tx_inv_same [OF assms(1)])
       (simp_all add: tx_step_verify_def r Let_def)
qed

lemma tx_inv_step:
  assumes "tx_inv x a out s" "tx_step x ch s = Some s'"
  shows "tx_inv x a out s'"
proof (cases ch)
  case XSpawn
  with assms show ?thesis using tx_inv_spawn by fastforce
next
  case (XFinish k)
  with assms show ?thesis using tx_inv_finish by fastforce
next
  case (XTake t)
  with assms show ?thesis using tx_inv_take by (fastforce split: if_splits)
next
  case (XAck t)
  with assms show ?thesis using tx_inv_ack by (fastforce split: if_splits)
next
  case (XErr t)
  with assms(2) obtain e es where "tx_err s = e # es" "tx_phase s = TxRunning"
      "s' = tx_fail x t (''Pipeline error: '' @ e) (s\<lparr>tx_err := es\<rparr>)"
    by (auto simp: tx_step_err_def split: if_splits list.splits)
  then show ?thesis by (intro tx_inv_same [OF assms(1)]) simp_all
next
  case XPause
  with assms(2) have "s' = s\<lparr>tx_paused := True\<rparr>" by simp
  then show ?thesis by (intro tx_inv_same [OF assms(1)]) (simp_all add: tx_fine_def)
next
  case (XVerify t)
  with assms show ?thesis using tx_inv_verify by (fastforce split: if_splits)
qed

lemma tx_inv_run: "tx_inv x a out s \<Longrightarrow> tx_inv x a out (tx_run x cs s)"
  by (induction cs arbitrary: s) (auto split: option.splits dest: tx_inv_step)

lemma tx_all_sent:
  assumes "tx_inv x a out s" "tx_fine s" "\<not> tx_paused s" "\<not> tx_spawn s" "tx_tasks s = []" "tx_net s = []"
  shows "cn_out (tx_conn s) = out @ cli_chunks (tx_frame x) (unat a) (unat (md_total_chunks (xe_md x)))"
proof -
  let ?m = "unat (tx_to_send s)" and ?n = "unat (md_total_chunks (xe_md x))"
  from assms have "fst ` set (tx_buf s) = {i. ?m \<le> unat i \<and> unat i < ?n}"
    and none: "map_of (tx_buf s) (tx_to_send s) = None" and I: "?m \<le> ?n"
      "cn_out (tx_conn s) = out @ cli_chunks (tx_frame x) (unat a) ?m"
    by (auto simp: tx_inv_def Let_def)
  moreover from none have "tx_to_send s \<notin> fst ` set (tx_buf s)" by (simp add: map_of_eq_None_iff)
  ultimately have "?m = ?n" by auto
  with I show ?thesis by simp
qed

text \<open>
  C26. The frames of the sender, under every schedule of reading, encoding, sending and
  acknowledging, and whatever fails: what has been written is the frames of the chunks from
  the first one on, in the order of their indices and each once; at most eight tasks run
  and at most sixteen frames wait; and no frame is lost: when nothing has failed or been
  paused and no task or frame is left, all have been written.
\<close>

theorem cli_send_in_order:
  assumes "comps_ok (xe_zstd x) comps" "unat a \<le> unat (md_total_chunks (xe_md x))"
    and "tx_run x cs (cli_tx_start comps a off db c) = s"
  shows "(\<exists>m \<le> unat (md_total_chunks (xe_md x)). cn_out (tx_conn s) = cn_out c @ cli_chunks (tx_frame x) (unat a) m)
    \<and> length (tx_tasks s) \<le> 8 \<and> length (tx_net s) \<le> 16
    \<and> (tx_fine s \<and> \<not> tx_paused s \<and> \<not> tx_spawn s \<and> tx_tasks s = [] \<and> tx_net s = [] \<longrightarrow>
        cn_out (tx_conn s) = cn_out c @ cli_chunks (tx_frame x) (unat a) (unat (md_total_chunks (xe_md x))))"
proof -
  have inv: "tx_inv x a (cn_out c) s"
    unfolding assms(3) [symmetric] by (intro tx_inv_run tx_inv_start assms)
  then have "\<exists>m \<le> unat (md_total_chunks (xe_md x)). cn_out (tx_conn s) = cn_out c @ cli_chunks (tx_frame x) (unat a) m"
    "length (tx_tasks s) \<le> 8" "length (tx_net s) \<le> 16"
    by (auto simp: tx_inv_def Let_def intro!: exI [of _ "unat (tx_to_send s)"])
  with tx_all_sent [OF inv] show ?thesis by simp
qed

section \<open>Acknowledgements are counted\<close>

lemma cli_reply_put: "cn_in c = send_tagged m @ rest \<Longrightarrow> fits_tagged m \<Longrightarrow> cli_reply c = (m, c\<lparr>cn_in := rest\<rparr>)"
  by (simp add: cli_reply_def tag_receive_put)

definition ack_messages :: "byte list list \<Rightarrow> byte list" where
  "ack_messages ps = concat (map (\<lambda>p. send_tagged (TAG_CHUNK_ACK, p)) ps)"

lemma tx_acks_run:
  assumes "tx_phase s = TxRunning" "\<not> tx_paused s" "cn_in (tx_conn s) = ack_messages ps @ rest"
    and "\<forall>p \<in> set ps. length p < 67108864" "unat (tx_to_ack s) + length ps \<le> unat (md_total_chunks (xe_md x))"
    and "ps \<noteq> []"
  shows "\<exists>s'. tx_run x (replicate (length ps) (XAck t)) s = s' \<and> unat (tx_to_ack s') = unat (tx_to_ack s) + length ps
    \<and> tx_phase s' = (if unat (tx_to_ack s') = unat (md_total_chunks (xe_md x)) then TxLeft else TxRunning)
    \<and> \<not> tx_paused s' \<and> cn_in (tx_conn s') = rest \<and> cn_out (tx_conn s') = cn_out (tx_conn s)
    \<and> tx_to_send s' = tx_to_send s"
  using assms
proof (induction ps arbitrary: s)
  case (Cons p ps)
  let ?n = "unat (md_total_chunks (xe_md x))"
  let ?s1 = "tx_step_ack x t s"
  have "fits_tagged (TAG_CHUNK_ACK, p)" using Cons.prems(4) by (simp add: fits_tagged_def)
  moreover have "cn_in (tx_conn s) = send_tagged (TAG_CHUNK_ACK, p) @ ack_messages ps @ rest"
    using Cons.prems(3) by (simp add: ack_messages_def)
  ultimately have r: "cli_reply (tx_conn s) = ((TAG_CHUNK_ACK, p), (tx_conn s)\<lparr>cn_in := ack_messages ps @ rest\<rparr>)"
    by (rule cli_reply_put [rotated])
  have "?n < 2 ^ 64" using unsigned_less [of "md_total_chunks (xe_md x)"] by simp
  with Cons.prems(5) have k: "unat (tx_to_ack s + 1) = Suc (unat (tx_to_ack s))" by (intro unat_inc) auto
  have s1: "tx_to_ack ?s1 = tx_to_ack s + 1" "\<not> tx_paused ?s1" "cn_in (tx_conn ?s1) = ack_messages ps @ rest"
      "cn_out (tx_conn ?s1) = cn_out (tx_conn s)" "tx_to_send ?s1 = tx_to_send s"
      "tx_phase ?s1 = (if tx_to_ack s + 1 = md_total_chunks (xe_md x) then TxLeft else TxRunning)"
    using Cons.prems(1,2) by (simp_all add: tx_step_ack_def r Let_def tx_turn_end_def)
  show ?case
  proof (cases "ps = []")
    case True
    with Cons.prems(1) s1 k show ?thesis by (simp add: ack_messages_def word_unat_eq_iff)
  next
    case False
    with Cons.prems(5) k have "tx_to_ack s + 1 \<noteq> md_total_chunks (xe_md x)"
      by (cases ps) (auto simp: word_unat_eq_iff)
    with s1 have "tx_phase ?s1 = TxRunning" by simp
    from Cons.IH [OF this s1(2,3) _ _ False] Cons.prems(1,4,5) s1 k show ?thesis by simp
  qed
qed simp

text \<open>
  C27. The sender counts acknowledgements and does not match them with its chunks: a peer
  that answers with as many acknowledgements of whatever content and repeats the digest of
  the metadata makes the command report a complete and verified transfer before a single
  chunk has been sent.
\<close>

theorem cli_send_counts_acks:
  assumes "length ps = unat (md_total_chunks (xe_md x))" "ps \<noteq> []" "\<forall>p \<in> set ps. length p < 67108864"
    and "cn_in c = ack_messages ps @ send_tagged (TAG_COMPLETE, md_checksum (xe_md x))"
    and "length (md_checksum (xe_md x)) = 32"
    and "tx_run x (replicate (length ps) (XAck t) @ [XVerify t]) (cli_tx_start comps 0 0 db c) = s"
  shows "tx_phase s = TxEnded (Inr ()) \<and> cn_out (tx_conn s) = cn_out c
    \<and> (\<exists>db'. tx_db s = complete_transfer db' (xe_session x) (format_hex (md_checksum (xe_md x))) t)"
proof -
  let ?s0 = "cli_tx_start comps 0 0 db c"
  obtain s1 where s1: "tx_run x (replicate (length ps) (XAck t)) ?s0 = s1" "unat (tx_to_ack s1) = length ps"
      "tx_phase s1 = TxLeft" "\<not> tx_paused s1" "cn_in (tx_conn s1) = send_tagged (TAG_COMPLETE, md_checksum (xe_md x)) @ []"
      "cn_out (tx_conn s1) = cn_out c"
    using tx_acks_run [of ?s0 ps "send_tagged (TAG_COMPLETE, md_checksum (xe_md x))" x t] assms(1-4)
    by (auto simp: cli_tx_start_def)
  have run_app: "tx_run x (cs @ ds) u = tx_run x ds (tx_run x cs u)" for cs ds u
    by (induction cs arbitrary: u) simp_all
  have "fits_tagged (TAG_COMPLETE, md_checksum (xe_md x))" using assms(5) by (simp add: fits_tagged_def)
  from cli_reply_put [OF s1(5) this] have
    "cli_reply (tx_conn s1) = ((TAG_COMPLETE, md_checksum (xe_md x)), (tx_conn s1)\<lparr>cn_in := []\<rparr>)" .
  moreover have "s = tx_step_verify x t s1" using assms(6) s1(1,3) by (simp add: run_app)
  ultimately show ?thesis
    using s1 assms(1,5) by (auto simp: tx_step_verify_def Let_def word_less_nat_alt)
qed

end
