(* ===== verification/Cli_Pipeline.thy ===== *)
theory Cli_Pipeline
  imports Cli_Recv
begin

text \<open>
  What the receiving pipeline of the command line tool guarantees, whatever the schedule:
  the hasher restores the order of the chunks, a fresh transfer of an honest sender ends
  with the sent file, and the cases in which it cannot succeed.
\<close>

section \<open>The hasher restores the order\<close>

text \<open>\<open>D\<close> are the indices received, \<open>m\<close> the next index wanted.\<close>

definition hash_inv ::
  "'h hash_lib \<Rightarrow> (nat \<Rightarrow> byte list) \<Rightarrow> nat set \<Rightarrow> nat \<Rightarrow> 'h hasher \<Rightarrow> bool" where
  "hash_inv L d D m s \<longleftrightarrow> (case s of (expected, buffered, h) \<Rightarrow>
     expected = of_nat m \<and> {0..<m} \<subseteq> D \<and> h = foldl (hl_update L) (hl_new L) (map d [0..<m])
     \<and> (\<forall>j < 2 ^ 64. map_of buffered (of_nat j) = (if j \<in> D \<and> m \<le> j then Some (d j) else None)))"

lemma of_nat_u64_eq: "i < 2 ^ 64 \<Longrightarrow> j < 2 ^ 64 \<Longrightarrow> (of_nat i :: u64) = of_nat j \<longleftrightarrow> i = j"
  by (auto simp: word_unat_eq_iff unat_of_nat)

lemma hash_drain_inv:
  assumes "hash_inv L d D m s" "D \<subseteq> {0..<N}" "N < 2 ^ 64"
  shows "\<exists>m'. hash_inv L d D m' (hash_drain L s) \<and> m' \<notin> D"
  using assms
proof (induction L s arbitrary: m rule: hash_drain.induct)
  case (1 L expected buffered h)
  from "1.prems"(1) have e: "expected = of_nat m" and low: "{0..<m} \<subseteq> D"
    and h: "h = foldl (hl_update L) (hl_new L) (map d [0..<m])"
    and buf: "\<And>j. j < 2 ^ 64 \<Longrightarrow>
      map_of buffered (of_nat j) = (if j \<in> D \<and> m \<le> j then Some (d j) else None)"
    by (simp_all add: hash_inv_def)
  have "{0..<m} \<subseteq> {0..<N}" using low "1.prems"(2) by (rule subset_trans)
  then have m: "m < 2 ^ 64"
    using card_mono [of "{0..<N}" "{0..<m}"] "1.prems"(3) by simp
  show ?case
  proof (cases "m \<in> D")
    case True
    let ?s = "(expected + 1, AList.delete expected buffered, hl_update L h (d m))"
    have b: "map_of buffered expected = Some (d m)" using buf [OF m] True by (simp add: e)
    have "hash_inv L d D (Suc m) ?s"
      using True low m buf
      by (auto simp: hash_inv_def e h AList.delete_conv' of_nat_u64_eq atLeastLessThanSuc)
    with 1 b show ?thesis by (subst hash_drain.simps) simp
  next
    case False
    have "map_of buffered expected = None" using buf [OF m] False by (simp add: e)
    then have "hash_drain L (expected, buffered, h) = (expected, buffered, h)"
      by (subst hash_drain.simps) simp
    with "1.prems"(1) False show ?thesis by auto
  qed
qed

lemma hash_push_inv:
  assumes "hash_inv L d D m s" "m \<notin> D" "i \<notin> D" "insert i D \<subseteq> {0..<N}" "N < 2 ^ 64"
  shows "\<exists>m'. hash_inv L d (insert i D) m' (hash_push L (of_nat i, d i) s) \<and> m' \<notin> insert i D"
proof -
  obtain expected buffered h where s: "s = (expected, buffered, h)" by (cases s)
  have low: "{0..<m} \<subseteq> D" using assms(1) by (simp add: s hash_inv_def)
  then have "m \<le> i" using assms(3) by (meson atLeastLessThan_iff linorder_not_le subsetD zero_le)
  moreover have "i < 2 ^ 64" using assms(4,5) by auto
  ultimately have "hash_inv L d (insert i D) m (expected, AList.update (of_nat i) (d i) buffered, h)"
    using assms(1) by (auto simp: s hash_inv_def AList.update_conv' of_nat_u64_eq)
  from hash_drain_inv [OF this assms(4,5)] show ?thesis by (simp add: s hash_push_def)
qed

lemma hash_fold_inv:
  assumes "distinct is" "set is \<subseteq> {0..<N}" "N < 2 ^ 64"
  shows "\<exists>m. hash_inv L d (set is) m
      (fold (hash_push L) (map (\<lambda>i. (of_nat i, d i)) is) (0, [], hl_new L)) \<and> m \<notin> set is"
  using assms(1,2)
proof (induction "is" rule: rev_induct)
  case Nil
  then show ?case by (intro exI [of _ 0]) (simp add: hash_inv_def)
next
  case (snoc i "is")
  then obtain m where "hash_inv L d (set is) m
      (fold (hash_push L) (map (\<lambda>i. (of_nat i, d i)) is) (0, [], hl_new L))" "m \<notin> set is"
    by auto
  from hash_push_inv [OF this, of i N] snoc.prems assms(3) show ?case by simp
qed

lemma hash_verdict_complete:
  assumes "distinct is" "set is = {0..<n}" "n < 2 ^ 64" "streaming_hash L"
  shows "hash_verdict L (of_nat n) (blake3_hash L (concat (map d [0..<n])))
    (map (\<lambda>i. (of_nat i, d i)) is)"
proof -
  let ?s = "fold (hash_push L) (map (\<lambda>i. (of_nat i, d i)) is) (0, [], hl_new L)"
  obtain m where inv: "hash_inv L d {0..<n} m ?s" "m \<notin> {0..<n}"
    using hash_fold_inv [OF assms(1), of n L d] assms(2,3) by auto
  then have "{0..<m} \<subseteq> {0..<n}" by (simp add: hash_inv_def split: prod.splits)
  with inv(2) have "m = n" by auto
  with inv(1) show ?thesis
    by (auto simp: hash_verdict_def hash_inv_def streaming_hash_segs [OF assms(4)] split: prod.splits)
qed

text \<open>Without a chunk of index 0 nothing is ever hashed.\<close>

lemma hash_no_first:
  assumes "\<forall>m \<in> set msgs. fst m \<noteq> 0" "tot \<noteq> 0"
  shows "\<not> hash_verdict L tot c msgs"
proof -
  have "\<exists>buf. fold (hash_push L) msgs (0, b, h) = (0, buf, h) \<and> map_of buf 0 = None"
    if "map_of b 0 = None" for b h
    using assms(1) that
  proof (induction msgs arbitrary: b)
    case (Cons m msgs)
    let ?b = "AList.update (fst m) (snd m) b"
    have "map_of ?b 0 = None" using Cons.prems by (simp add: AList.update_conv')
    moreover from this have "hash_push L m (0, b, h) = (0, ?b, h)"
      by (simp add: hash_push_def hash_drain.simps [of L 0 ?b h])
    ultimately show ?case using Cons by simp
  qed simp
  from this [of "[]" "hl_new L"] assms(2) show ?thesis by (auto simp: hash_verdict_def)
qed

text \<open>The hasher never counts further than the messages it got.\<close>

lemma hash_drain_count:
  "hash_drain L (e, b, h) = (e', b', h') \<Longrightarrow>
   unat e' + length b' \<le> unat e + length b"
proof (induction L "(e, b, h)" arbitrary: e b h rule: hash_drain.induct)
  case (1 L e b h)
  show ?case
  proof (cases "map_of b e")
    case None
    with "1.prems" show ?thesis by (simp add: hash_drain.simps [of L e b h])
  next
    case (Some d)
    have "unat (e + 1) \<le> Suc (unat e)" by (simp add: unat_word_ariths)
    moreover have "length (AList.delete e b) < length b" using Some by (rule length_delete_less)
    moreover have "unat e' + length b' \<le> unat (e + 1) + length (AList.delete e b)"
      using "1.hyps" [OF Some] "1.prems" Some by (simp add: hash_drain.simps [of L e b h])
    ultimately show ?thesis by linarith
  qed
qed

lemma hash_fold_count:
  "fold (hash_push L) msgs (e, b, h) = (e', b', h') \<Longrightarrow>
   unat e' + length b' \<le> unat e + length b + length msgs"
proof (induction msgs arbitrary: e b h)
  case (Cons m msgs)
  obtain e1 b1 h1 where p: "hash_push L m (e, b, h) = (e1, b1, h1)" by (cases "hash_push L m (e, b, h)")
  have "length (AList.update k v b) \<le> Suc (length b)" for k and v :: "byte list"
    by (induction b) auto
  with hash_drain_count [OF p [unfolded hash_push_def prod.case]]
  have "unat e1 + length b1 \<le> unat e + Suc (length b)"
    by (meson add_le_mono1 add_left_mono le_trans)
  with Cons.IH [of e1 b1 h1] Cons.prems p show ?case by simp
qed simp

lemma hash_too_few: "hash_verdict L tot c msgs \<Longrightarrow> unat tot \<le> length msgs"
  using hash_fold_count [of L msgs 0 "[]" "hl_new L"]
  by (auto simp: hash_verdict_def split: prod.splits)

section \<open>The output file is a chunk store\<close>

definition cli_put :: "path \<Rightarrow> usize \<Rightarrow> nat \<Rightarrow> byte list \<Rightarrow> filesystem \<Rightarrow> filesystem" where
  "cli_put p cs i d fs = snd (cli_write_chunk p cs (of_nat i) d None fs)"

lemma cli_write_ok:
  assumes "i < 2 ^ 63 div Suc (unat cs)"
  shows "cli_write_chunk p cs (of_nat i) d None fs = (Inr (), cli_put p cs i d fs)"
    and "file_at p (cli_put p cs i d fs) = write_at (i * unat cs) d (file_at p fs)"
    and "cli_put p cs i d fs p \<noteq> None"
  using engine_offset [OF assms]
  by (simp_all add: cli_put_def cli_write_chunk_def Let_def file_at_def opt_default_def)

interpretation cli_file: chunk_sink "cli_put p cs" "file_at p" "unat cs" "2 ^ 63 div Suc (unat cs)"
  for p cs
  by unfold_locales (rule cli_write_ok(2))

section \<open>An honest sender\<close>

text \<open>
  The frames \<open>hn_first\<close> to \<open>hn_n\<close> of a file, in order: flag and ciphertext of each, which
  open to the blocks of \<open>hn_block\<close> bytes of the file. The receiver stores block \<open>i\<close> at \<open>i\<close>
  times the announced chunk size, which should be \<open>hn_block\<close> too. \<open>hn_rest\<close> is what follows on the connection, \<open>hn_out\<close> what
  the receiver has sent before.
\<close>

record cli_honest =
  hn_first :: nat
  hn_n :: nat
  hn_block :: nat
  hn_src :: fdata
  hn_frame :: "nat \<Rightarrow> byte \<times> byte list"
  hn_md :: transfer_metadata
  hn_path :: path
  hn_rest :: "byte list"
  hn_out :: "byte list"

abbreviation hn_cs :: "cli_honest \<Rightarrow> usize" where "hn_cs H \<equiv> md_chunk_size (hn_md H)"

definition hn_data :: "cli_honest \<Rightarrow> nat \<Rightarrow> byte list" where
  "hn_data H i = chunk_at (hn_block H) (hn_src H) i"

definition frame_message :: "cli_honest \<Rightarrow> nat \<Rightarrow> tagged" where
  "frame_message H i =
     (TAG_CHUNK, cli_chunk_frame (of_nat i) (fst (hn_frame H i)) (snd (hn_frame H i)))"

definition cli_frames :: "cli_honest \<Rightarrow> nat \<Rightarrow> byte list" where
  "cli_frames H k = concat (map (\<lambda>i. send_tagged (frame_message H i)) [k..<hn_n H]) @ hn_rest H"

definition cli_acks :: "nat list \<Rightarrow> byte list" where
  "cli_acks js = concat (map (\<lambda>j. send_tagged (TAG_CHUNK_ACK, ack_payload (of_nat j))) js)"

definition honest :: "'h hash_lib \<Rightarrow> 'z cli_ctx \<Rightarrow> cli_honest \<Rightarrow> bool" where
  "honest L x H \<longleftrightarrow> streaming_hash L \<and> digest_32 L \<and> 0 < hn_block H \<and> hn_first H < hn_n H
     \<and> hn_n H < 2 ^ 32 \<and> hn_n H \<le> 2 ^ 63 div Suc (unat (hn_cs H))
     \<and> length (hn_src H) \<le> hn_n H * hn_block H
     \<and> md_total_chunks (hn_md H) = of_nat (hn_n H)
     \<and> md_checksum (hn_md H) = blake3_hash L (hn_src H)
     \<and> (\<forall>i \<in> {hn_first H..<hn_n H}. length (snd (hn_frame H i)) + 5 < 67108864
          \<and> open_chunk (cx_crypto x) (cx_zstd x) (cx_key x) (md_nonce_prefix (hn_md H)) (of_nat i)
              (fst (hn_frame H i) \<noteq> 0) (snd (hn_frame H i)) = Inr (hn_data H i))"

text \<open>The state in which the pipeline starts.\<close>

definition cli_started :: "'z cli_ctx \<Rightarrow> cli_honest \<Rightarrow> cli_sys \<Rightarrow> bool" where
  "cli_started x H = (\<lambda>(pp, h).
     cp_tasks pp = [] \<and> cp_hash pp = [] \<and> cp_phase pp = PhRunning
     \<and> cn_in (cp_conn pp) = cli_frames H (hn_first H) \<and> cn_sends (cp_conn pp) = []
     \<and> cn_out (cp_conn pp) = hn_out H
     \<and> cx_ref x < length (ch_shared h) \<and> sh_meta (shared_at x h) = hn_md H
     \<and> sh_path (shared_at x h) = hn_path H \<and> sh_received (shared_at x h) = of_nat (hn_first H)
     \<and> ch_fs h (hn_path H) \<noteq> None
     \<and> length (file_at (hn_path H) (ch_fs h)) \<le> length (hn_src H))"

lemma concat_chunk_at: "concat (map (chunk_at k f) [0..<n]) = take (n * k) f"
  using concat_slices [of k f n] by (simp add: chunk_at_def [abs_def])

lemma frame_fits:
  "honest L x H \<Longrightarrow> hn_first H \<le> i \<Longrightarrow> i < hn_n H \<Longrightarrow> fits_tagged (frame_message H i)"
  by (auto simp: honest_def fits_tagged_def frame_message_def cli_chunk_frame_def)

lemma cli_frames_step:
  "k < hn_n H \<Longrightarrow> cli_frames H k = send_tagged (frame_message H k) @ cli_frames H (Suc k)"
  by (simp add: cli_frames_def upt_conv_Cons)

section \<open>The invariant of the pipeline\<close>

text \<open>The indices of the chunks whose task satisfies \<open>P\<close>, the tasks being those of \<open>a\<close>, \<open>a + 1\<close>, \<dots>\<close>

definition idx_set :: "nat \<Rightarrow> (cli_task \<Rightarrow> bool) \<Rightarrow> cli_task list \<Rightarrow> nat set" where
  "idx_set a P ts = {j. a \<le> j \<and> j < a + length ts \<and> P (ts ! (j - a))}"

lemma idx_set_Nil [simp]: "idx_set a P [] = {}"
  by (simp add: idx_set_def)

lemma idx_set_snoc:
  "idx_set a P (ts @ [t]) = (if P t then insert (a + length ts) (idx_set a P ts) else idx_set a P ts)"
proof (rule set_eqI)
  fix j
  have "j = a + length ts \<or> j < a + length ts \<or> a + length ts < j" by linarith
  then show "(j \<in> idx_set a P (ts @ [t])) =
      (j \<in> (if P t then insert (a + length ts) (idx_set a P ts) else idx_set a P ts))"
    by (cases "a \<le> j") (auto simp: idx_set_def nth_append less_diff_conv2)
qed

lemma idx_set_update:
  assumes "k < length ts"
  shows "idx_set a P (ts[k := t]) =
     (if P t then insert (a + k) (idx_set a P ts) else idx_set a P ts - {a + k})"
proof (rule set_eqI)
  fix j
  show "(j \<in> idx_set a P (ts[k := t])) =
      (j \<in> (if P t then insert (a + k) (idx_set a P ts) else idx_set a P ts - {a + k}))"
    using assms by (cases "j = a + k") (auto simp: idx_set_def nth_list_update)
qed

lemma idx_set_mem: "a + k \<in> idx_set a P ts \<longleftrightarrow> k < length ts \<and> P (ts ! k)"
  by (simp add: idx_set_def)

lemma idx_set_range: "idx_set a P ts \<subseteq> {a..<a + length ts}"
  by (auto simp: idx_set_def)

lemma idx_set_all: "idx_set a P ts = {a..<a + length ts} \<longleftrightarrow> (\<forall>i < length ts. P (ts ! i))"
proof
  assume eq: "idx_set a P ts = {a..<a + length ts}"
  show "\<forall>i < length ts. P (ts ! i)"
  proof (intro allI impI)
    fix i assume "i < length ts"
    then have "a + i \<in> idx_set a P ts" by (simp add: eq)
    then show "P (ts ! i)" by (simp add: idx_set_mem)
  qed
qed (auto simp: idx_set_def)

fun task_on_disk :: "cli_task \<Rightarrow> bool" where
  "task_on_disk (TaskSealed i c e) = False"
| "task_on_disk _ = True"

fun task_ok :: "cli_honest \<Rightarrow> nat \<Rightarrow> cli_task \<Rightarrow> bool" where
  "task_ok H i (TaskSealed j c e) \<longleftrightarrow>
     j = of_nat i \<and> c = (fst (hn_frame H i) \<noteq> 0) \<and> e = snd (hn_frame H i)"
| "task_ok H i (TaskWritten j d) \<longleftrightarrow> j = of_nat i \<and> d = hn_data H i"
| "task_ok H i (TaskDone r) \<longleftrightarrow> r = Inr (of_nat i)"
| "task_ok H i TaskJoined \<longleftrightarrow> True"

definition cli_final :: "'h hash_lib \<Rightarrow> cli_honest \<Rightarrow> byte list" where
  "cli_final L H =
     (if hn_first H = 0 then send_tagged (TAG_COMPLETE, md_checksum (hn_md H))
      else send_tagged (TAG_ERROR, bytes_of ''Checksum mismatch''))"

text \<open>\<open>js\<close> are the indices in the order in which their tasks have been joined.\<close>

definition phase_ok :: "'h hash_lib \<Rightarrow> cli_honest \<Rightarrow> nat list \<Rightarrow> cli_pipe \<Rightarrow> bool" where
  "phase_ok L H js pp \<longleftrightarrow> (let out = hn_out H @ cli_acks js; todo = hn_n H - hn_first H in
     case cp_phase pp of
       PhRunning \<Rightarrow> length js < todo \<and> cn_out (cp_conn pp) = out
     | PhVerifying \<Rightarrow> length js = todo \<and> cn_out (cp_conn pp) = out
     | PhEnded r \<Rightarrow> r = Inr () \<and> length js = todo \<and> cn_out (cp_conn pp) = out @ cli_final L H)"

text \<open>
  The blocks of \<open>D\<close> are in the file: each reaches as far as its offset says, and the file
  agrees with the source there when the two sizes agree.
\<close>

definition stored :: "cli_honest \<Rightarrow> nat set \<Rightarrow> fdata \<Rightarrow> bool" where
  "stored H D f \<longleftrightarrow>
     (hn_block H = unat (hn_cs H) \<longrightarrow> filled (hn_block H) D (hn_src H) f)
     \<and> (\<forall>i \<in> D. hn_data H i \<noteq> [] \<longrightarrow> i * unat (hn_cs H) + length (hn_data H i) \<le> length f)"

lemma stored_write:
  assumes "0 < hn_block H" "stored H D f"
  shows "stored H (insert i D) (write_at (i * unat (hn_cs H)) (hn_data H i) f)"
proof -
  have "filled (hn_block H) (insert i D) (hn_src H) (write_at (i * unat (hn_cs H)) (hn_data H i) f)"
    if "hn_block H = unat (hn_cs H)"
    using filled_write [OF assms(1), of D "hn_src H" f i] assms(2) that
    by (simp add: stored_def hn_data_def)
  with assms(2) show ?thesis by (auto simp: stored_def length_write_at)
qed

definition cli_inv :: "'h hash_lib \<Rightarrow> 'z cli_ctx \<Rightarrow> cli_honest \<Rightarrow> nat list \<Rightarrow> cli_sys \<Rightarrow> bool" where
  "cli_inv L x H js = (\<lambda>(pp, h). let a = hn_first H; ts = cp_tasks pp in
     cx_ref x < length (ch_shared h) \<and> sh_meta (shared_at x h) = hn_md H
     \<and> sh_path (shared_at x h) = hn_path H
     \<and> sh_received (shared_at x h) = of_nat (a + length js)
     \<and> cn_sends (cp_conn pp) = [] \<and> a + length ts \<le> hn_n H
     \<and> cn_in (cp_conn pp) = cli_frames H (a + length ts)
     \<and> (\<forall>i < length ts. task_ok H (a + i) (ts ! i))
     \<and> (\<exists>is. distinct is \<and> set is = idx_set a task_finished ts
          \<and> cp_hash pp = map (\<lambda>i. (of_nat i, hn_data H i)) is)
     \<and> ch_fs h (hn_path H) \<noteq> None
     \<and> stored H (idx_set a task_on_disk ts) (file_at (hn_path H) (ch_fs h))
     \<and> distinct js \<and> set js = idx_set a (\<lambda>t. t = TaskJoined) ts
     \<and> phase_ok L H js pp)"

lemma cli_inv_start: "honest L x H \<Longrightarrow> cli_started x H s \<Longrightarrow> cli_inv L x H [] s"
  by (cases s)
     (simp add: cli_inv_def cli_started_def phase_ok_def honest_def stored_def filled_def cli_acks_def)

section \<open>Every step keeps the invariant\<close>

fun is_frame :: "cli_choice \<Rightarrow> bool" where
  "is_frame (ChFrame t) = True"
| "is_frame _ = False"

text \<open>A choice without a failing write.\<close>

fun plain_choice :: "cli_choice \<Rightarrow> bool" where
  "plain_choice (ChWrite k (Some e)) = False"
| "plain_choice _ = True"

fun task_weight :: "cli_task \<Rightarrow> nat" where
  "task_weight (TaskSealed i c e) = 1"
| "task_weight (TaskWritten i d) = 2"
| "task_weight (TaskDone r) = 3"
| "task_weight TaskJoined = 4"

definition cli_progress :: "cli_sys \<Rightarrow> nat" where
  "cli_progress s = sum_list (map task_weight (cp_tasks (fst s)))
     + (case cp_phase (fst s) of PhEnded r \<Rightarrow> 1 | _ \<Rightarrow> 0)"

lemma progress_update:
  "k < length ts \<Longrightarrow> task_weight t = Suc (task_weight (ts ! k)) \<Longrightarrow>
   sum_list (map task_weight (ts[k := t])) = Suc (sum_list (map task_weight ts))"
proof (induction ts arbitrary: k)
  case (Cons u ts)
  then show ?case by (cases k) auto
qed simp

lemma nth_update_ok:
  "\<forall>i < length ts. task_ok H (a + i) (ts ! i) \<Longrightarrow> task_ok H (a + k) t \<Longrightarrow>
   \<forall>i < length (ts[k := t]). task_ok H (a + i) (ts[k := t] ! i)"
  by (metis length_list_update nth_list_update_eq nth_list_update_neq)

lemma step_frame_inv:
  assumes H: "honest L x H" and inv: "cli_inv L x H js (pp, h)"
    and more: "hn_first H + length (cp_tasks pp) < hn_n H" and run: "cp_phase pp = PhRunning"
    and step: "cli_step_frame x t (pp, h) = s'"
  shows "cli_inv L x H js s' \<and> cli_progress s' = Suc (cli_progress (pp, h))
    \<and> length (cp_tasks (fst s')) = Suc (length (cp_tasks pp))"
proof -
  let ?a = "hn_first H" and ?k = "length (cp_tasks pp)"
  let ?j = "?a + ?k"
  have n32: "hn_n H < 2 ^ 32" using H by (simp add: honest_def)
  have recv: "tag_receive (cp_conn pp) =
      (Inr (frame_message H ?j), (cp_conn pp)\<lparr>cn_in := cli_frames H (Suc ?j)\<rparr>)"
    using inv more frame_fits [OF H _ more] by (simp add: cli_inv_def Let_def cli_frames_step tag_receive_put)
  have "unat (of_nat ?j :: u64) < 4294967296" using more n32 by (simp add: unat_of_nat del: of_nat_add)
  then have parse: "cli_parse_chunk (cli_chunk_frame (of_nat ?j) fl e) = Some (of_nat ?j, fl \<noteq> 0, e)"
    for fl e by (rule cli_parse_frame)
  let ?t = "TaskSealed (of_nat ?j) (fst (hn_frame H ?j) \<noteq> 0) (snd (hn_frame H ?j))"
  have s': "s' = (pp\<lparr>cp_conn := (cp_conn pp)\<lparr>cn_in := cli_frames H (Suc ?j)\<rparr>,
      cp_tasks := cp_tasks pp @ [?t]\<rparr>, h)"
    using step by (auto simp: cli_step_frame_def recv frame_message_def parse cli_tags Let_def
        simp del: of_nat_add)
  show ?thesis using inv more run
    by (auto simp: s' cli_inv_def Let_def phase_ok_def idx_set_snoc nth_append cli_progress_def
        less_Suc_eq)
qed

lemma phase_ok_tasks [simp]:
  "phase_ok L H js (pp\<lparr>cp_tasks := ts\<rparr>) = phase_ok L H js pp"
  "phase_ok L H js (pp\<lparr>cp_hash := hs\<rparr>) = phase_ok L H js pp"
  by (simp_all add: phase_ok_def split: cli_phase.splits)

text \<open>An update that keeps the class of the task keeps the set; one that enters it adds the index.\<close>

lemma idx_set_keep: "k < length ts \<Longrightarrow> P t = P (ts ! k) \<Longrightarrow> idx_set a P (ts[k := t]) = idx_set a P ts"
  by (auto simp: idx_set_update idx_set_mem)

lemma idx_set_enter: "k < length ts \<Longrightarrow> P t \<Longrightarrow> idx_set a P (ts[k := t]) = insert (a + k) (idx_set a P ts)"
  by (simp add: idx_set_update)

text \<open>The parts of the invariant a step uses, by name.\<close>

lemma cli_invD:
  assumes "cli_inv L x H js (pp, h)"
  shows "cx_ref x < length (ch_shared h)" "sh_meta (shared_at x h) = hn_md H"
    "sh_path (shared_at x h) = hn_path H"
    "sh_received (shared_at x h) = of_nat (hn_first H + length js)"
    "cn_sends (cp_conn pp) = []" "hn_first H + length (cp_tasks pp) \<le> hn_n H"
    "\<forall>i < length (cp_tasks pp). task_ok H (hn_first H + i) (cp_tasks pp ! i)"
    "distinct js" "set js = idx_set (hn_first H) (\<lambda>t. t = TaskJoined) (cp_tasks pp)"
    "phase_ok L H js pp"
    "stored H (idx_set (hn_first H) task_on_disk (cp_tasks pp)) (file_at (hn_path H) (ch_fs h))"
  using assms by (simp_all add: cli_inv_def Let_def)

lemma honest_index:
  assumes "honest L x H" "hn_first H + k < hn_n H"
  shows "hn_first H + k < 2 ^ 63 div Suc (unat (hn_cs H))"
    and "open_chunk (cx_crypto x) (cx_zstd x) (cx_key x) (md_nonce_prefix (hn_md H))
      (of_nat (hn_first H + k)) (fst (hn_frame H (hn_first H + k)) \<noteq> 0) (snd (hn_frame H (hn_first H + k)))
      = Inr (hn_data H (hn_first H + k))"
  using assms by (auto simp: honest_def simp del: of_nat_add)

lemma step_write_inv:
  assumes H: "honest L x H" and inv: "cli_inv L x H js (pp, h)"
    and step: "cli_step_write x k None (pp, h) = Some s'"
  shows "cli_inv L x H js s' \<and> cli_progress s' = Suc (cli_progress (pp, h))
    \<and> length (cp_tasks (fst s')) = length (cp_tasks pp)"
proof -
  note I = cli_invD [OF inv]
  let ?i = "hn_first H + k"
  from step obtain idx c e where k: "k < length (cp_tasks pp)"
    and t: "cp_tasks pp ! k = TaskSealed idx c e"
    by (auto simp: cli_step_write_def split: if_splits cli_task.splits)
  with I(7) have ok: "idx = of_nat ?i" "c = (fst (hn_frame H ?i) \<noteq> 0)" "e = snd (hn_frame H ?i)"
    by force+
  have i: "?i < hn_n H" using k I(6) by linarith
  note w = cli_write_ok [OF honest_index(1) [OF H i], where p = "hn_path H" and d = "hn_data H ?i"]
  let ?fs = "cli_put (hn_path H) (hn_cs H) ?i (hn_data H ?i) (ch_fs h)"
  have s': "s' = (pp\<lparr>cp_tasks := (cp_tasks pp)[k := TaskWritten (of_nat ?i) (hn_data H ?i)]\<rparr>,
      h\<lparr>ch_fs := ?fs\<rparr>)"
    using step k t
    by (simp add: cli_step_write_def ok I(2,3) honest_index(2) [OF H i] w(1) Let_def
        del: of_nat_add)
  have "stored H (insert ?i (idx_set (hn_first H) task_on_disk (cp_tasks pp)))
      (file_at (hn_path H) ?fs)"
    unfolding w(2) using H I(11) by (intro stored_write) (simp_all add: honest_def)
  moreover have "cli_progress s' = Suc (cli_progress (pp, h))"
    using k t by (simp add: s' cli_progress_def progress_update)
  moreover have "\<forall>i < length (cp_tasks (fst s')). task_ok H (hn_first H + i) (cp_tasks (fst s') ! i)"
    using nth_update_ok [OF I(7), of k "TaskWritten (of_nat ?i) (hn_data H ?i)"]
    by (simp add: s' del: of_nat_add)
  ultimately show ?thesis using inv k t w(3)
    by (auto simp: s' cli_inv_def Let_def idx_set_keep idx_set_enter simp del: of_nat_add)
qed

lemma step_hash_inv:
  assumes H: "honest L x H" and inv: "cli_inv L x H js (pp, h)"
    and step: "cli_step_hash k (pp, h) = Some s'"
  shows "cli_inv L x H js s' \<and> cli_progress s' = Suc (cli_progress (pp, h))
    \<and> length (cp_tasks (fst s')) = length (cp_tasks pp)"
proof -
  note I = cli_invD [OF inv]
  let ?i = "hn_first H + k"
  from step obtain idx d where k: "k < length (cp_tasks pp)"
    and t: "cp_tasks pp ! k = TaskWritten idx d"
    by (auto simp: cli_step_hash_def split: if_splits cli_task.splits)
  with I(7) have ok: "idx = of_nat ?i" "d = hn_data H ?i" by force+
  have s': "s' = (pp\<lparr>cp_hash := cp_hash pp @ [(of_nat ?i, hn_data H ?i)],
      cp_tasks := (cp_tasks pp)[k := TaskDone (Inr (of_nat ?i))]\<rparr>, h)"
    using step k t by (simp add: cli_step_hash_def ok del: of_nat_add)
  obtain "is" where "distinct is" "set is = idx_set (hn_first H) task_finished (cp_tasks pp)"
      "cp_hash pp = map (\<lambda>i. (of_nat i, hn_data H i)) is"
    using inv by (auto simp: cli_inv_def Let_def)
  then have "distinct (is @ [?i])"
      "set (is @ [?i]) = idx_set (hn_first H) task_finished (cp_tasks (fst s'))"
      "cp_hash (fst s') = map (\<lambda>i. (of_nat i, hn_data H i)) (is @ [?i])"
    using k t by (simp_all add: s' idx_set_enter idx_set_mem)
  then have "\<exists>is. distinct is \<and> set is = idx_set (hn_first H) task_finished (cp_tasks (fst s'))
      \<and> cp_hash (fst s') = map (\<lambda>i. (of_nat i, hn_data H i)) is" by blast
  moreover have "cli_progress s' = Suc (cli_progress (pp, h))"
    using k t by (simp add: s' cli_progress_def progress_update)
  moreover have "\<forall>i < length (cp_tasks (fst s')). task_ok H (hn_first H + i) (cp_tasks (fst s') ! i)"
    using nth_update_ok [OF I(7), of k "TaskDone (Inr (of_nat ?i))"]
    by (simp add: s' del: of_nat_add)
  ultimately show ?thesis using inv k t
    by (simp add: s' cli_inv_def Let_def idx_set_keep del: of_nat_add)
qed

lemma length_js:
  assumes "cli_inv L x H js (pp, h)"
  shows "length js \<le> hn_n H - hn_first H"
    and "length js = hn_n H - hn_first H \<Longrightarrow> \<forall>i < length (cp_tasks pp). cp_tasks pp ! i = TaskJoined"
    and "length js = hn_n H - hn_first H \<Longrightarrow> length (cp_tasks pp) = hn_n H - hn_first H"
proof -
  note I = cli_invD [OF assms]
  have len: "length js = card (idx_set (hn_first H) (\<lambda>t. t = TaskJoined) (cp_tasks pp))"
    using I(8,9) distinct_card by metis
  have le: "\<dots> \<le> length (cp_tasks pp)"
    using card_mono [OF _ idx_set_range, of "hn_first H" "cp_tasks pp" "\<lambda>t. t = TaskJoined"] by simp
  with len I(6) show "length js \<le> hn_n H - hn_first H" by linarith
  assume full: "length js = hn_n H - hn_first H"
  with len le I(6) show k: "length (cp_tasks pp) = hn_n H - hn_first H" by linarith
  have "idx_set (hn_first H) (\<lambda>t. t = TaskJoined) (cp_tasks pp)
      = {hn_first H..<hn_first H + length (cp_tasks pp)}"
    using full len k by (intro card_subset_eq idx_set_range) simp_all
  then show "\<forall>i < length (cp_tasks pp). cp_tasks pp ! i = TaskJoined"
    by (simp add: idx_set_all)
qed

lemma cli_acks_snoc: "cli_acks (js @ [j]) = cli_acks js @ send_tagged (TAG_CHUNK_ACK, ack_payload (of_nat j))"
  by (simp add: cli_acks_def)

lemma step_join_inv:
  assumes H: "honest L x H" and inv: "cli_inv L x H js (pp, h)" and run: "cp_phase pp = PhRunning"
    and step: "cli_step_join x k t (pp, h) = Some s'"
  shows "\<exists>js'. cli_inv L x H js' s' \<and> cli_progress s' = Suc (cli_progress (pp, h))
    \<and> length (cp_tasks (fst s')) = length (cp_tasks pp)"
proof -
  note I = cli_invD [OF inv]
  let ?i = "hn_first H + k" and ?a = "hn_first H" and ?n = "hn_n H"
  from step obtain r where k: "k < length (cp_tasks pp)" and t: "cp_tasks pp ! k = TaskDone r"
    by (auto simp: cli_step_join_def split: if_splits cli_task.splits)
  with I(7) have r: "r = Inr (of_nat ?i)" by force
  let ?ts = "(cp_tasks pp)[k := TaskJoined]" and ?js = "js @ [?i]"
  let ?c = "(cp_conn pp)\<lparr>cn_out := cn_out (cp_conn pp) @ send_tagged (TAG_CHUNK_ACK, ack_payload (of_nat ?i))\<rparr>"
  have s': "s' = cli_count_chunk x t (pp\<lparr>cp_tasks := ?ts, cp_conn := ?c\<rparr>, h)" (is "_ = cli_count_chunk _ _ (?pp, h)")
    using step k t I(5) by (simp add: cli_step_join_def r tag_send_ok del: of_nat_add)
  let ?count = "of_nat (?a + length ?js) :: u64"
  have fresh: "?i \<notin> set js" using k t I(9) by (simp add: idx_set_mem)
  have lt: "length js < ?n - ?a" using I(10) run by (simp add: phase_ok_def Let_def)
  have tot: "md_total_chunks (hn_md H) = of_nat ?n" "?a < ?n" "?n < 2 ^ 32"
    using H by (simp_all add: honest_def)
  have now: "sh_received (shared_at x h) + 1 = ?count" by (simp add: I(4))
  have "?count = of_nat ?n \<longleftrightarrow> ?a + length ?js = ?n"
    using lt tot by (intro of_nat_u64_eq) simp_all
  also have "\<dots> \<longleftrightarrow> length ?js = ?n - ?a" using tot(2) by linarith
  finally have last: "?count = of_nat ?n \<longleftrightarrow> length ?js = ?n - ?a" .
  have set_js: "set ?js = idx_set ?a (\<lambda>t. t = TaskJoined) ?ts"
    using k I(9) by (simp add: idx_set_enter)
  have ph: "phase_ok L H ?js (fst s')"
    using I(10) lt last run
    by (auto simp: s' cli_count_chunk_def Let_def now I(2) tot(1) phase_ok_def cli_acks_snoc simp del: of_nat_add)
  have pr: "cli_progress s' = Suc (cli_progress (pp, h))"
    using k t run by (simp add: s' cli_count_chunk_def Let_def cli_progress_def progress_update)
  have ok: "\<forall>i < length ?ts. task_ok H (?a + i) (?ts ! i)"
    using nth_update_ok [OF I(7), of k TaskJoined] by simp
  have sh: "sh_received (shared_at x (snd s')) = of_nat (?a + length ?js)"
      "sh_meta (shared_at x (snd s')) = hn_md H" "sh_path (shared_at x (snd s')) = hn_path H"
    using I(1-3) now by (simp_all add: s' cli_count_chunk_def Let_def del: of_nat_add)
  have "cli_inv L x H ?js s'"
    using inv k t ph sh ok set_js fresh I(8)
    by (simp add: s' cli_count_chunk_def Let_def cli_inv_def idx_set_keep del: of_nat_add)
  with pr show ?thesis by (auto simp: s' cli_count_chunk_def Let_def)
qed

lemma honest_verdict:
  assumes H: "honest L x H" and "distinct is" "set is = {hn_first H..<hn_n H}"
  shows "hash_verdict L (md_total_chunks (hn_md H)) (md_checksum (hn_md H))
      (map (\<lambda>i. (of_nat i, hn_data H i)) is) \<longleftrightarrow> hn_first H = 0"
proof (cases "hn_first H = 0")
  case True
  have "concat (map (hn_data H) [0..<hn_n H]) = hn_src H"
    using H concat_chunk_at [of "hn_block H" "hn_src H" "hn_n H"]
    by (simp add: hn_data_def [abs_def] honest_def)
  with hash_verdict_complete [OF assms(2), of "hn_n H" L "hn_data H"] H assms(3) True
  show ?thesis by (simp add: honest_def)
next
  case False
  have "(of_nat i :: u64) \<noteq> 0" if "i \<in> set is" for i
    using that False assms(3) H of_nat_u64_eq [of i 0] by (auto simp: honest_def)
  then have "\<forall>m \<in> set (map (\<lambda>i. (of_nat i :: u64, hn_data H i)) is). fst m \<noteq> 0" by auto
  moreover have "md_total_chunks (hn_md H) \<noteq> 0"
    using H of_nat_u64_eq [of "hn_n H" 0] by (auto simp: honest_def)
  ultimately have "\<not> hash_verdict L (md_total_chunks (hn_md H)) (md_checksum (hn_md H))
      (map (\<lambda>i. (of_nat i, hn_data H i)) is)" by (rule hash_no_first)
  with False show ?thesis by simp
qed

lemma step_verify_inv:
  assumes H: "honest L x H" and inv: "cli_inv L x H js (pp, h)" and ver: "cp_phase pp = PhVerifying"
    and step: "cli_step_verify L x t (pp, h) = s'"
  shows "cli_inv L x H js s' \<and> cli_progress s' = Suc (cli_progress (pp, h))
    \<and> length (cp_tasks (fst s')) = length (cp_tasks pp)"
proof -
  note I = cli_invD [OF inv]
  have full: "length js = hn_n H - hn_first H" using I(10) ver by (simp add: phase_ok_def Let_def)
  note all = length_js(2,3) [OF inv full]
  obtain "is" where "distinct is" "set is = idx_set (hn_first H) task_finished (cp_tasks pp)"
    and hash: "cp_hash pp = map (\<lambda>i. (of_nat i, hn_data H i)) is"
    using inv by (auto simp: cli_inv_def Let_def)
  moreover have "idx_set (hn_first H) task_finished (cp_tasks pp) = {hn_first H..<hn_n H}"
    using all H idx_set_all [of "hn_first H" task_finished "cp_tasks pp"] by (auto simp: honest_def)
  ultimately have v: "hash_verdict L (md_total_chunks (hn_md H)) (md_checksum (hn_md H)) (cp_hash pp)
      \<longleftrightarrow> hn_first H = 0"
    using honest_verdict [OF H] by simp
  have ph: "phase_ok L H js (fst s')"
    using I(10) ver
    by (simp add: step [symmetric] cli_step_verify_def Let_def I(2) v I(5) tag_send_ok phase_ok_def cli_final_def)
  have conn: "cn_sends (cp_conn (fst s')) = []" "cn_in (cp_conn (fst s')) = cn_in (cp_conn pp)"
    by (simp_all add: step [symmetric] cli_step_verify_def Let_def I(5) tag_send_ok)
  from inv ph conn show ?thesis
    by (auto simp: step [symmetric] cli_step_verify_def Let_def cli_inv_def cli_progress_def ver)
qed

lemma cli_step_inv:
  assumes H: "honest L x H" and inv: "cli_inv L x H js s" and "plain_choice ch"
    and "is_frame ch \<Longrightarrow> length (cp_tasks (fst s)) < hn_n H - hn_first H"
    and step: "cli_step L x ch s = Some s'"
  shows "\<exists>js'. cli_inv L x H js' s' \<and> cli_progress s' = Suc (cli_progress s)
    \<and> length (cp_tasks (fst s')) = length (cp_tasks (fst s)) + of_bool (is_frame ch)"
proof -
  obtain pp h where s: "s = (pp, h)" by (cases s)
  show ?thesis
  proof (cases ch)
    case (ChFrame t)
    then have "hn_first H + length (cp_tasks pp) < hn_n H" using assms(4) s by simp
    with ChFrame step s show ?thesis
      using step_frame_inv [OF H inv [unfolded s], of t s'] by (auto split: if_splits)
  next
    case (ChWrite k out)
    with assms(3) step s show ?thesis
      using step_write_inv [OF H inv [unfolded s], of k s'] by (cases out) auto
  next
    case (ChHash k)
    with step s show ?thesis using step_hash_inv [OF H inv [unfolded s], of k s'] by auto
  next
    case (ChJoin k t)
    with step s show ?thesis
      using step_join_inv [OF H inv [unfolded s], of k t s'] by (auto split: if_splits)
  next
    case (ChVerify t)
    with step s show ?thesis
      using step_verify_inv [OF H inv [unfolded s], of t s'] by (auto split: if_splits)
  qed
qed

lemma cli_run_inv:
  assumes H: "honest L x H" and "cli_inv L x H js s" "\<forall>ch \<in> set cs. plain_choice ch"
    and "length (cp_tasks (fst s)) + length (filter is_frame cs) \<le> hn_n H - hn_first H"
  shows "\<exists>js'. cli_inv L x H js' (cli_run L x cs s)
    \<and> cli_moves L x cs s + cli_progress s = cli_progress (cli_run L x cs s)"
  using assms(2-)
proof (induction cs arbitrary: js s)
  case Nil
  then show ?case by auto
next
  case (Cons ch cs)
  show ?case
  proof (cases "cli_step L x ch s")
    case None
    with Cons show ?thesis by (auto split: if_splits)
  next
    case (Some s1)
    have "is_frame ch \<Longrightarrow> length (cp_tasks (fst s)) < hn_n H - hn_first H"
      using Cons.prems(3) by simp
    with cli_step_inv [OF H Cons.prems(1) _ _ Some] Cons.prems(2) obtain js1 where
      s1: "cli_inv L x H js1 s1" "cli_progress s1 = Suc (cli_progress s)"
        "length (cp_tasks (fst s1)) = length (cp_tasks (fst s)) + of_bool (is_frame ch)"
      by auto
    then have "length (cp_tasks (fst s1)) + length (filter is_frame cs) \<le> hn_n H - hn_first H"
      using Cons.prems(3) by (simp split: if_splits)
    with Cons.IH [OF s1(1)] Cons.prems(2) s1(2) Some show ?thesis by auto
  qed
qed

lemma cli_progress_bound:
  assumes "cli_inv L x H js s"
  shows "cli_progress s \<le> 4 * (hn_n H - hn_first H) + 1"
proof -
  have "sum_list (map task_weight ts) \<le> 4 * length ts" for ts
  proof (induction ts)
    case (Cons t ts)
    then show ?case by (cases t) simp_all
  qed simp
  from this [of "cp_tasks (fst s)"] cli_invD(6) [of L x H js "fst s" "snd s"] assms
  have "sum_list (map task_weight (cp_tasks (fst s))) \<le> 4 * (hn_n H - hn_first H)" by fastforce
  then show ?thesis by (simp add: cli_progress_def split: cli_phase.splits)
qed

text \<open>The pipeline is never stuck.\<close>

lemma cli_not_stuck:
  assumes inv: "cli_inv L x H js (pp, h)" and H: "honest L x H" and "\<forall>r. cp_phase pp \<noteq> PhEnded r"
  shows "\<exists>ch. plain_choice ch \<and> (is_frame ch \<longrightarrow> length (cp_tasks pp) < hn_n H - hn_first H)
    \<and> cli_step L x ch (pp, h) \<noteq> None"
proof (cases "cp_phase pp")
  case PhRunning
  note I = cli_invD [OF inv]
  show ?thesis
  proof (cases "length (cp_tasks pp) < hn_n H - hn_first H")
    case True
    with PhRunning show ?thesis by (intro exI [of _ "ChFrame 0"]) simp
  next
    case False
    have "length js < hn_n H - hn_first H" using I(10) PhRunning by (simp add: phase_ok_def Let_def)
    with False I(6) have "\<not> (\<forall>i < length (cp_tasks pp). cp_tasks pp ! i = TaskJoined)"
      using I(8,9) distinct_card [OF I(8)] idx_set_all [of "hn_first H" "\<lambda>t. t = TaskJoined" "cp_tasks pp"]
      by (metis add.commute add_diff_cancel_left' card_atLeastLessThan)
    then obtain k where k: "k < length (cp_tasks pp)" "cp_tasks pp ! k \<noteq> TaskJoined" by blast
    show ?thesis
    proof (cases "cp_tasks pp ! k")
      case (TaskSealed i c e)
      with k show ?thesis
        by (intro exI [of _ "ChWrite k None"])
           (auto simp: cli_step_write_def Let_def split: sum.splits prod.splits)
    next
      case (TaskWritten i d)
      with k show ?thesis by (intro exI [of _ "ChHash k"]) (simp add: cli_step_hash_def)
    next
      case (TaskDone r)
      with k PhRunning show ?thesis
        by (intro exI [of _ "ChJoin k 0"])
           (auto simp: cli_step_join_def Let_def split: sum.splits prod.splits)
    qed (use k in simp)
  qed
next
  case PhVerifying
  have "length js = hn_n H - hn_first H"
    using cli_invD(10) [OF inv] PhVerifying by (simp add: phase_ok_def Let_def)
  with length_js(2) [OF inv] have "list_all task_finished (cp_tasks pp)"
    by (auto simp: list_all_length)
  with PhVerifying show ?thesis by (intro exI [of _ "ChVerify 0"]) simp
qed (use assms(3) in simp)

text \<open>From every state of the invariant some schedule reaches the end.\<close>

lemma cli_can_end:
  assumes H: "honest L x H" and "cli_inv L x H js s"
  shows "\<exists>cs r. (\<forall>ch \<in> set cs. plain_choice ch)
    \<and> length (cp_tasks (fst s)) + length (filter is_frame cs) \<le> hn_n H - hn_first H
    \<and> cp_phase (fst (cli_run L x cs s)) = PhEnded r"
  using assms(2)
proof (induction "4 * (hn_n H - hn_first H) + 1 - cli_progress s" arbitrary: s js rule: less_induct)
  case less
  obtain pp h where s: "s = (pp, h)" by (cases s)
  show ?case
  proof (cases "\<exists>r. cp_phase pp = PhEnded r")
    case True
    then obtain r where "cp_phase pp = PhEnded r" by blast
    moreover have "length (cp_tasks pp) \<le> hn_n H - hn_first H"
      using cli_invD(6) [OF less.prems [unfolded s]] by simp
    ultimately show ?thesis by (intro exI [of _ "[]"] exI [of _ r]) (simp add: s)
  next
    case False
    then obtain ch s1 where ch: "plain_choice ch"
        "is_frame ch \<longrightarrow> length (cp_tasks (fst s)) < hn_n H - hn_first H" "cli_step L x ch s = Some s1"
      using cli_not_stuck [OF less.prems [unfolded s] H] s by auto
    from cli_step_inv [OF H less.prems ch(1) _ ch(3)] ch(2) obtain js1 where
      s1: "cli_inv L x H js1 s1" "cli_progress s1 = Suc (cli_progress s)"
        "length (cp_tasks (fst s1)) = length (cp_tasks (fst s)) + of_bool (is_frame ch)" by blast
    have "4 * (hn_n H - hn_first H) + 1 - cli_progress s1 < 4 * (hn_n H - hn_first H) + 1 - cli_progress s"
      using cli_progress_bound [OF s1(1)] s1(2) by linarith
    from less.hyps [OF this s1(1)] obtain cs r where cs: "\<forall>ch \<in> set cs. plain_choice ch"
        "length (cp_tasks (fst s1)) + length (filter is_frame cs) \<le> hn_n H - hn_first H"
        "cp_phase (fst (cli_run L x cs s1)) = PhEnded r" by blast
    with ch s1(3) show ?thesis by (intro exI [of _ "ch # cs"] exI [of _ r]) (auto split: if_splits)
  qed
qed

section \<open>What every schedule leads to\<close>

lemma cli_ended:
  assumes H: "honest L x H" and inv: "cli_inv L x H js (pp, h)" and "cp_phase pp = PhEnded r"
  shows "r = Inr () \<and> mset js = mset [hn_first H..<hn_n H]
    \<and> cn_out (cp_conn pp) = hn_out H @ cli_acks js @ cli_final L H
    \<and> (hn_first H = 0 \<longrightarrow> (\<exists>f. ch_fs h (hn_path H) = Some f \<and> stored H {0..<hn_n H} f))"
proof -
  note I = cli_invD [OF inv]
  have ph: "r = Inr ()" "length js = hn_n H - hn_first H"
      "cn_out (cp_conn pp) = hn_out H @ cli_acks js @ cli_final L H"
    using I(10) assms(3) by (simp_all add: phase_ok_def Let_def)
  note all = length_js(2,3) [OF inv ph(2)]
  have range: "idx_set (hn_first H) P (cp_tasks pp) = {hn_first H..<hn_n H}" if "P TaskJoined" for P
    using all that H idx_set_all [of "hn_first H" P "cp_tasks pp"] by (auto simp: honest_def)
  then have "mset js = mset [hn_first H..<hn_n H]"
    using I(9) mset_set_set [OF I(8)] by simp
  moreover have "\<exists>f. ch_fs h (hn_path H) = Some f \<and> stored H {0..<hn_n H} f" if "hn_first H = 0"
  proof -
    obtain f where f: "ch_fs h (hn_path H) = Some f" using inv by (auto simp: cli_inv_def Let_def)
    then have "stored H {0..<hn_n H} f"
      using I(11) range [of task_on_disk] that by (simp add: file_at_def opt_default_def)
    with f show ?thesis by blast
  qed
  ultimately show ?thesis using ph by simp
qed

lemma stored_all:
  assumes "honest L x H" "stored H {0..<hn_n H} f"
  shows "hn_block H = unat (hn_cs H) \<Longrightarrow> f = hn_src H"
  using assms filled_all [of "hn_block H" "hn_src H" "hn_n H" f] by (simp add: honest_def stored_def)

lemma cli_recv_ended:
  assumes "honest L x H" "cli_started x H s" "hn_first H = 0" "hn_block H = unat (hn_cs H)"
    and "\<forall>ch \<in> set cs. plain_choice ch" "length (filter is_frame cs) \<le> hn_n H"
    and "cli_run L x cs s = (pp, h)" "cp_phase pp = PhEnded r"
  shows "r = Inr () \<and> ch_fs h (hn_path H) = Some (hn_src H)
    \<and> (\<exists>js. mset js = mset [0..<hn_n H] \<and> cn_out (cp_conn pp)
          = hn_out H @ cli_acks js @ send_tagged (TAG_COMPLETE, md_checksum (hn_md H)))"
proof -
  have "length (cp_tasks (fst s)) = 0" using assms(2) by (auto simp: cli_started_def)
  with cli_run_inv [OF assms(1) cli_inv_start [OF assms(1,2)] assms(5)] assms(3,6,7)
  obtain js where inv: "cli_inv L x H js (pp, h)" by auto
  with cli_ended [OF assms(1) inv assms(8)] assms(3) stored_all [OF assms(1) _ assms(4)]
  show ?thesis unfolding cli_final_def by auto
qed

text \<open>
  C18. A fresh transfer under every schedule of reader, chunk tasks and joins, provided no
  write fails: if the pipeline has ended, it has ended well, the file is the sent one, each
  chunk has been acknowledged exactly once and COMPLETE has been sent last; if it has not,
  some step is possible; and no schedule makes more than \<open>4 n + 1\<close> steps, so every schedule
  that keeps making steps ends.
\<close>

theorem cli_recv_any_schedule:
  assumes "honest L x H" "cli_started x H s" "hn_first H = 0"
    and "hn_block H = unat (hn_cs H)"
    and "\<forall>ch \<in> set cs. plain_choice ch" "length (filter is_frame cs) \<le> hn_n H"
    and "cli_run L x cs s = (pp, h)"
  shows "(\<forall>r. cp_phase pp = PhEnded r \<longrightarrow> r = Inr () \<and> ch_fs h (hn_path H) = Some (hn_src H)
      \<and> (\<exists>js. mset js = mset [0..<hn_n H] \<and> cn_out (cp_conn pp)
            = hn_out H @ cli_acks js @ send_tagged (TAG_COMPLETE, md_checksum (hn_md H))))
    \<and> ((\<forall>r. cp_phase pp \<noteq> PhEnded r) \<longrightarrow>
        (\<exists>ch. plain_choice ch \<and> (is_frame ch \<longrightarrow> length (cp_tasks pp) < hn_n H)
            \<and> cli_step L x ch (pp, h) \<noteq> None))
    \<and> cli_moves L x cs s \<le> 4 * hn_n H + 1"
proof -
  have "length (cp_tasks (fst s)) = 0" using assms(2) by (auto simp: cli_started_def)
  with cli_run_inv [OF assms(1) cli_inv_start [OF assms(1,2)] assms(5)] assms(3,6,7)
  obtain js where inv: "cli_inv L x H js (pp, h)"
    and moves: "cli_moves L x cs s + cli_progress s = cli_progress (pp, h)" by auto
  from moves cli_progress_bound [OF inv] assms(3) have "cli_moves L x cs s \<le> 4 * hn_n H + 1" by simp
  with cli_recv_ended [OF assms] cli_not_stuck [OF inv assms(1)] assms(3)
  show ?thesis by auto
qed

text \<open>
  C19. A resumed transfer never succeeds: an honest sender that goes on after the chunks the
  receiver already has delivers every missing chunk, the receiver acknowledges each of
  them, and then reports a checksum mismatch under every schedule, because its hasher
  waits for chunk 0.
\<close>

theorem cli_resume_never_verifies:
  assumes "honest L x H" "cli_started x H s" "0 < hn_first H"
    and "\<forall>ch \<in> set cs. plain_choice ch" "length (filter is_frame cs) \<le> hn_n H - hn_first H"
    and "cli_run L x cs s = (pp, h)"
  shows "(\<forall>r. cp_phase pp = PhEnded r \<longrightarrow>
        (\<exists>js. mset js = mset [hn_first H..<hn_n H] \<and> cn_out (cp_conn pp)
            = hn_out H @ cli_acks js @ send_tagged (TAG_ERROR, bytes_of ''Checksum mismatch'')))
    \<and> ((\<forall>r. cp_phase pp \<noteq> PhEnded r) \<longrightarrow>
        (\<exists>ch. plain_choice ch \<and> (is_frame ch \<longrightarrow> length (cp_tasks pp) < hn_n H - hn_first H)
            \<and> cli_step L x ch (pp, h) \<noteq> None))
    \<and> cli_moves L x cs s \<le> 4 * (hn_n H - hn_first H) + 1"
proof -
  have "length (cp_tasks (fst s)) = 0" using assms(2) by (auto simp: cli_started_def)
  with cli_run_inv [OF assms(1) cli_inv_start [OF assms(1,2)] assms(4)] assms(5,6)
  obtain js where inv: "cli_inv L x H js (pp, h)"
    and moves: "cli_moves L x cs s + cli_progress s = cli_progress (pp, h)" by auto
  from moves cli_progress_bound [OF inv] have "cli_moves L x cs s \<le> 4 * (hn_n H - hn_first H) + 1" by simp
  with cli_ended [OF assms(1) inv] cli_not_stuck [OF inv assms(1)] assms(3)
  show ?thesis unfolding cli_final_def by auto
qed

end
