(* ===== verification/Cli_Faults.thy ===== *)
theory Cli_Faults
  imports Cli_Pipeline
begin

text \<open>
  The limits of the receiver of the command line tool: what its digest does not cover,
  transfers that come in over two connections, and its database record. At the end, the
  concrete transfers at which the theorems about the pipeline are applied.
\<close>

section \<open>Verified is not stored\<close>

lemma stored_past_end:
  assumes "honest L x H" "stored H {0..<hn_n H} f" "hn_block H < unat (hn_cs H)"
    and "hn_block H < length (hn_src H)" "(hn_n H - 1) * hn_block H < length (hn_src H)"
  shows "f \<noteq> hn_src H"
proof -
  let ?m = "hn_n H - 1" and ?k = "hn_block H"
  have n: "length (hn_src H) \<le> hn_n H * ?k" "0 < hn_n H" using assms(1) by (simp_all add: honest_def)
  then have m: "0 < ?m" using assms(4) by (cases "hn_n H = 1") simp_all
  have "hn_n H * ?k = ?m * ?k + ?k" using n(2) by (cases "hn_n H") simp_all
  with n(1) have len: "length (hn_data H ?m) = length (hn_src H) - ?m * ?k"
    by (simp add: hn_data_def chunk_at_def)
  with assms(5) have "hn_data H ?m \<noteq> []" by auto
  then have "?m * unat (hn_cs H) + length (hn_data H ?m) \<le> length f"
    using assms(2) n(2) by (simp add: stored_def)
  moreover have "?m * ?k < ?m * unat (hn_cs H)" using m assms(3) by simp
  ultimately have "length (hn_src H) < length f" using len assms(5) by linarith
  then show ?thesis by auto
qed

text \<open>
  C20. The verification covers the stream, not the file: when the blocks the sender cuts are
  smaller than the chunk size it announces (as the engine does for a chunk size above
  64 MB), every schedule that ends has acknowledged all chunks and sent COMPLETE with the
  right digest, and the file on disk is not the sent file.
\<close>

theorem cli_verified_but_corrupt:
  assumes "honest L x H" "cli_started x H s" "hn_first H = 0"
    and "hn_block H < unat (hn_cs H)" "hn_block H < length (hn_src H)"
    and "(hn_n H - 1) * hn_block H < length (hn_src H)"
    and "\<forall>ch \<in> set cs. plain_choice ch" "length (filter is_frame cs) \<le> hn_n H"
    and "cli_run L x cs s = (pp, h)" "cp_phase pp = PhEnded r"
  shows "(\<exists>js. mset js = mset [0..<hn_n H] \<and> cn_out (cp_conn pp)
        = hn_out H @ cli_acks js @ send_tagged (TAG_COMPLETE, md_checksum (hn_md H)))
    \<and> (\<exists>f. ch_fs h (hn_path H) = Some f \<and> f \<noteq> hn_src H)"
proof -
  have "length (cp_tasks (fst s)) = 0" using assms(2) by (auto simp: cli_started_def)
  with cli_run_inv [OF assms(1) cli_inv_start [OF assms(1,2)] assms(7)] assms(3,8,9)
  obtain js where "cli_inv L x H js (pp, h)" by auto
  from cli_ended [OF assms(1) this assms(10)] assms(3) obtain f where
    js: "mset js = mset [0..<hn_n H]" "cn_out (cp_conn pp)
        = hn_out H @ cli_acks js @ send_tagged (TAG_COMPLETE, md_checksum (hn_md H))"
    and f: "ch_fs h (hn_path H) = Some f" "stored H {0..<hn_n H} f"
    by (auto simp: cli_final_def)
  from stored_past_end [OF assms(1) f(2) assms(4-6)] f(1) have
    "\<exists>f. ch_fs h (hn_path H) = Some f \<and> f \<noteq> hn_src H" by blast
  with js show ?thesis by blast
qed

section \<open>Two connections\<close>

lemma idx_set_finite [simp]: "finite (idx_set a P ts)"
  by (rule finite_subset [OF idx_set_range]) simp

text \<open>The hasher has got at most one message of each task that has finished.\<close>

definition hash_bounded :: "cli_sys \<Rightarrow> bool" where
  "hash_bounded s \<longleftrightarrow> length (cp_hash (fst s)) \<le> card (idx_set 0 task_finished (cp_tasks (fst s)))"

lemma hash_bounded_keep:
  assumes "length (cp_hash pp) \<le> card (idx_set 0 task_finished (cp_tasks pp))"
    and "k < length (cp_tasks pp)" "\<not> task_finished (cp_tasks pp ! k) \<or> task_finished t"
  shows "length (cp_hash pp) \<le> card (idx_set 0 task_finished ((cp_tasks pp)[k := t]))"
proof -
  have "idx_set 0 task_finished (cp_tasks pp) \<subseteq> idx_set 0 task_finished ((cp_tasks pp)[k := t])"
    using assms(2,3) idx_set_mem [of 0 k task_finished "cp_tasks pp"] by (auto simp: idx_set_update)
  then show ?thesis using assms(1) card_mono [OF idx_set_finite] le_trans by blast
qed

lemma hash_bounded_step:
  assumes "cli_step L x ch s = Some s'" "hash_bounded s"
  shows "hash_bounded s'"
proof -
  obtain pp h where s: "s = (pp, h)" by (cases s)
  note b = assms(2) [unfolded hash_bounded_def s fst_conv]
  show ?thesis
  proof (cases ch)
    case (ChFrame t)
    with ChFrame assms(1) b show ?thesis
      by (auto simp: s hash_bounded_def cli_step_frame_def cli_broken_def Let_def
          idx_set_snoc split: if_splits sum.splits prod.splits option.splits)
  next
    case (ChWrite k out)
    with assms(1) show ?thesis using hash_bounded_keep [OF b, of k]
      by (auto simp: s hash_bounded_def cli_step_write_def Let_def
          split: if_splits cli_task.splits sum.splits prod.splits)
  next
    case (ChHash k)
    with assms(1) obtain i d where k: "k < length (cp_tasks pp)" "cp_tasks pp ! k = TaskWritten i d"
      and s': "s' = (pp\<lparr>cp_hash := cp_hash pp @ [(i, d)],
        cp_tasks := (cp_tasks pp)[k := TaskDone (Inr i)]\<rparr>, h)"
      by (auto simp: s cli_step_hash_def split: if_splits cli_task.splits)
    have "k \<notin> idx_set 0 task_finished (cp_tasks pp)" using k idx_set_mem [of 0 k] by simp
    with k b show ?thesis by (simp add: s' hash_bounded_def idx_set_enter)
  next
    case (ChJoin k t)
    with assms(1) show ?thesis using hash_bounded_keep [OF b, of k TaskJoined]
      by (auto simp: s hash_bounded_def cli_step_join_def cli_broken_def cli_count_chunk_def Let_def
          split: if_splits cli_task.splits sum.splits prod.splits)
  next
    case (ChVerify t)
    with assms(1) b show ?thesis
      by (auto simp: s hash_bounded_def cli_step_verify_def Let_def split: if_splits)
  qed
qed

lemma hash_bounded_run: "hash_bounded s \<Longrightarrow> hash_bounded (cli_run L x cs s)"
  by (induction cs arbitrary: s) (auto split: option.splits dest: hash_bounded_step)

text \<open>
  A transfer that comes in over two connections is never verified: each connection has
  a hasher of its own, so that the connection that counts the last chunk, when it has
  received fewer frames than the file has chunks, answers with a checksum mismatch and
  marks the transfer as failed, whatever the other connections have stored.
\<close>

theorem cli_two_connections_fail:
  assumes "cp_tasks pp0 = []" "cp_hash pp0 = []" "cli_run L x cs (pp0, h0) = (pp, h)"
    and "length (cp_tasks pp) < unat (md_total_chunks (meta_at x h))"
    and "cli_step L x (ChVerify now) (pp, h) = Some (pp', h')" "cn_sends (cp_conn pp) = []"
  shows "cn_out (cp_conn pp') = cn_out (cp_conn pp) @ send_tagged (TAG_ERROR, bytes_of ''Checksum mismatch'')
    \<and> ch_db h' = fail_transfer (ch_db h) (sh_session (shared_at x h)) now"
proof -
  have "hash_bounded (pp0, h0)" using assms(1,2) by (simp add: hash_bounded_def)
  then have "hash_bounded (pp, h)" using hash_bounded_run assms(3) by metis
  then have "length (cp_hash pp) \<le> card (idx_set 0 task_finished (cp_tasks pp))"
    by (simp add: hash_bounded_def)
  also have "\<dots> \<le> length (cp_tasks pp)"
    using card_mono [OF _ idx_set_range, of 0 "cp_tasks pp" task_finished] by simp
  finally have "\<not> hash_verdict L (md_total_chunks (meta_at x h)) c (cp_hash pp)" for c
    using assms(4) hash_too_few by fastforce
  with assms(5,6) show ?thesis
    by (auto simp: cli_step_verify_def Let_def tag_send_ok split: if_splits)
qed

section \<open>The record in the database\<close>

lemma db_absent:
  assumes "get_transfer db i = None"
  shows "update_progress db i n now = db" "fail_transfer db i now = db"
    "complete_transfer db i c now = db"
  using assms update_rows_absent [of i db]
  by (simp_all add: get_transfer_def update_progress_def fail_transfer_def complete_transfer_def Let_def)

definition host_session :: "'z cli_ctx \<Rightarrow> string \<Rightarrow> resume_db \<Rightarrow> cli_sys \<Rightarrow> bool" where
  "host_session x i db s \<longleftrightarrow> cx_ref x < length (ch_shared (snd s))
     \<and> sh_session (shared_at x (snd s)) = i \<and> ch_db (snd s) = db"

lemma host_session_step:
  assumes "cli_step L x ch s = Some s'" "host_session x i db s" "get_transfer db i = None"
  shows "host_session x i db s'"
  using assms
  by (cases ch; cases s)
     (auto simp: host_session_def cli_step_frame_def cli_step_write_def cli_step_hash_def
        cli_step_join_def cli_step_verify_def cli_broken_def cli_count_chunk_def Let_def db_absent
        split: if_splits cli_task.splits sum.splits prod.splits option.splits)

lemma host_session_run:
  "get_transfer db i = None \<Longrightarrow> host_session x i db s \<Longrightarrow> host_session x i db (cli_run L x cs s)"
  by (induction cs arbitrary: s) (auto split: option.splits dest: host_session_step)

lemma cli_open_ok:
  assumes "mc_dec (ce_codec E) payload = Some md" "cli_open E dir payload c h = (Inr r, c1, h1)"
  shows "\<exists>u. create_transfer (ch_db h) (ce_addr E) (path_text (path_join dir (path_of (md_file_name md))))
      (as_i64 (md_file_size md)) (ce_uuid E) (ce_now E) = (Inr u, ch_db h1)
    \<and> r < length (ch_shared h1) \<and> sh_session (ch_shared h1 ! r) = md_session_id md"
  using assms
  by (auto simp: cli_open_def cli_accept_def Let_def split: if_splits sum.splits prod.splits)

text \<open>
  The database of the receiver never learns of the transfer: the record created when a
  transfer is opened is pending with no bytes transferred after every schedule, a complete
  and verified transfer included, because every later update names the sender's session id
  instead of the id of the record.
\<close>

theorem cli_record_stays_pending:
  assumes "mc_dec (ce_codec E) payload = Some md" "cli_open E dir payload c h = (Inr r, c1, h1)"
    and "get_transfer (ch_db h) (md_session_id md) = None" "md_session_id md \<noteq> ce_uuid E"
    and "cx_ref x = r" "cli_run L x cs (pp, h1) = (pp', h')"
  shows "\<exists>rec. get_transfer (ch_db h') (ce_uuid E) = Some rec \<and> tr_status rec = Pending
    \<and> tr_bytes_transferred rec = 0 \<and> tr_checksum rec = None"
proof -
  obtain u where made: "create_transfer (ch_db h) (ce_addr E)
        (path_text (path_join dir (path_of (md_file_name md)))) (as_i64 (md_file_size md))
        (ce_uuid E) (ce_now E) = (Inr u, ch_db h1)"
    and sess: "host_session x (md_session_id md) (ch_db h1) (pp, h1)"
    using cli_open_ok [OF assms(1,2)] assms(5) by (auto simp: host_session_def)
  have app: "List.find P (rs @ [r]) = (case List.find P rs of None \<Rightarrow> if P r then Some r else None | a \<Rightarrow> a)"
    for P and rs :: "transfer_row list" and r
    by (induction rs) auto
  have absent: "List.find (\<lambda>r. row_id r = ce_uuid E) (db_transfers (ch_db h)) = None"
    using made by (force simp: create_transfer_def find_None_iff split: if_splits)
  define row where "row = \<lparr>row_id = ce_uuid E, row_peer_addr = ce_addr E,
    row_file_path = path_text (path_join dir (path_of (md_file_name md))),
    row_file_size = as_i64 (md_file_size md), row_bytes_transferred = 0, row_checksum = None,
    row_status = ''pending'', row_created_at = ce_now E, row_updated_at = ce_now E\<rparr>"
  then have row: "row_id row = ce_uuid E" "row_status row = ''pending''"
      "row_bytes_transferred row = 0" "row_checksum row = None" by simp_all
  have db1: "ch_db h1 = (ch_db h)\<lparr>db_transfers := db_transfers (ch_db h) @ [row]\<rparr>"
    using made [symmetric] by (simp add: create_transfer_def row_def split: if_splits)
  have "get_transfer (ch_db h1) (md_session_id md) = None"
    using assms(3,4) row(1) by (auto simp: db1 get_transfer_def app split: option.splits)
  with host_session_run [OF this sess, of L cs] assms(6) have db: "ch_db h' = ch_db h1"
    by (simp add: host_session_def)
  show ?thesis
    using absent row by (simp add: db db1 get_transfer_def app record_of_row_def opt_default_def)
qed

section \<open>Concrete transfers\<close>

definition demo_cli_key :: "byte list" where "demo_cli_key = replicate 32 5"

definition demo_cli_ctx :: "int cli_ctx" where
  "demo_cli_ctx = \<lparr>cx_crypto = demo_crypto, cx_zstd = demo_zstd, cx_key = demo_cli_key, cx_ref = 0\<rparr>"

definition demo_cli_md :: "nat \<Rightarrow> usize \<Rightarrow> fdata \<Rightarrow> transfer_metadata" where
  "demo_cli_md n cs src = \<lparr>md_session_id = ''s'', md_file_name = ''f'', md_file_path = path_of ''/f'',
     md_file_size = len64 src, md_chunk_size = cs, md_total_chunks = of_nat n,
     md_checksum = blake3_hash demo_hash src, md_resume_offset = 0, md_is_resume = False,
     md_nonce_prefix = replicate 4 0, md_force_restart = False\<rparr>"

definition demo_cli :: "nat \<Rightarrow> nat \<Rightarrow> nat \<Rightarrow> usize \<Rightarrow> fdata \<Rightarrow> cli_honest" where
  "demo_cli a n k cs src = \<lparr>hn_first = a, hn_n = n, hn_block = k, hn_src = src,
     hn_frame = (\<lambda>i. (0, chunk_at k src i @ demo_tag demo_cli_key (build_nonce (replicate 4 0) (of_nat i)))),
     hn_md = demo_cli_md n cs src, hn_path = path_of ''/f'', hn_rest = [], hn_out = []\<rparr>"

definition demo_cli_sys :: "cli_honest \<Rightarrow> cli_sys" where
  "demo_cli_sys H =
     (\<lparr>cp_conn = conn_open (cli_frames H (hn_first H)), cp_tasks = [], cp_hash = [],
       cp_phase = PhRunning\<rparr>,
      \<lparr>ch_shared = [\<lparr>sh_path = hn_path H, sh_meta = hn_md H, sh_session = ''s'',
          sh_received = of_nat (hn_first H)\<rparr>],
       ch_active = [''s'' \<mapsto> 0], ch_db = demo_db, ch_fs = [hn_path H \<mapsto> []]\<rparr>)"

lemma demo_cli_honest:
  assumes "0 < k" "k < 67108800" "a < n" "n < 2 ^ 32" "n \<le> 2 ^ 63 div Suc (unat cs)" "length src \<le> n * k"
  shows "honest demo_hash demo_cli_ctx (demo_cli a n k cs src)"
  using assms
  by (auto simp: honest_def demo_cli_def demo_cli_ctx_def demo_cli_md_def demo_hash_streaming
      demo_hash_digest open_chunk_def decrypt_def demo_crypto_def hn_data_def ok_or_def chunk_at_def min.commute) (simp_all add: min_def)

lemma demo_cli_started: "cli_started demo_cli_ctx H (demo_cli_sys H) \<longleftrightarrow> hn_out H = []"
  by (auto simp: cli_started_def demo_cli_sys_def demo_cli_ctx_def conn_open_def file_at_def opt_default_def)

lemma demo_cli_fields [simp]:
  "hn_first (demo_cli a n k cs src) = a" "hn_n (demo_cli a n k cs src) = n"
  "hn_block (demo_cli a n k cs src) = k" "hn_cs (demo_cli a n k cs src) = cs"
  "hn_out (demo_cli a n k cs src) = []" "hn_path (demo_cli a n k cs src) = path_of ''/f''"
  "hn_src (demo_cli a n k cs src) = src" "hn_md (demo_cli a n k cs src) = demo_cli_md n cs src"
  by (simp_all add: demo_cli_def demo_cli_md_def)

lemma demo_cli_ends:
  assumes H: "honest demo_hash demo_cli_ctx H" and st: "cli_started demo_cli_ctx H s"
  obtains cs pp h where "\<forall>ch \<in> set cs. plain_choice ch"
    "length (filter is_frame cs) \<le> hn_n H - hn_first H" "length (filter is_frame cs) \<le> hn_n H"
    "cli_run demo_hash demo_cli_ctx cs s = (pp, h)" "cp_phase pp = PhEnded (Inr ())"
proof -
  have t: "length (cp_tasks (fst s)) = 0" using st by (auto simp: cli_started_def)
  from cli_can_end [OF H cli_inv_start [OF H st]] t obtain cs r where
    cs: "\<forall>ch \<in> set cs. plain_choice ch" "length (filter is_frame cs) \<le> hn_n H - hn_first H"
      "cp_phase (fst (cli_run demo_hash demo_cli_ctx cs s)) = PhEnded r" by auto
  obtain pp h where run: "cli_run demo_hash demo_cli_ctx cs s = (pp, h)"
    by (cases "cli_run demo_hash demo_cli_ctx cs s")
  from cli_run_inv [OF H cli_inv_start [OF H st] cs(1)] cs(2) t run obtain js where
    "cli_inv demo_hash demo_cli_ctx H js (pp, h)" by auto
  from cli_invD(10) [OF this] cs(3) run have "cp_phase pp = PhEnded (Inr ())"
    by (simp add: phase_ok_def Let_def)
  moreover from cs(2) have "length (filter is_frame cs) \<le> hn_n H" by linarith
  ultimately show thesis using that cs run by blast
qed

text \<open>Only the verification ends a run well, and it happens in a state the schedule reaches.\<close>

lemma frame_not_well: "cp_phase (fst (cli_step_frame x t s)) = PhEnded (Inr ()) \<Longrightarrow> cp_phase (fst s) = PhEnded (Inr ())"
  by (auto simp: cli_step_frame_def cli_broken_def Let_def
      split: if_splits sum.splits prod.splits option.splits)

lemma write_not_well:
  "cli_step_write x k out s = Some s' \<Longrightarrow> cp_phase (fst s') = cp_phase (fst s)"
  by (auto simp: cli_step_write_def Let_def split: if_splits cli_task.splits sum.splits prod.splits)

lemma hash_not_well: "cli_step_hash k s = Some s' \<Longrightarrow> cp_phase (fst s') = cp_phase (fst s)"
  by (auto simp: cli_step_hash_def split: if_splits cli_task.splits prod.splits)

lemma join_not_well: "cli_step_join x k t s = Some s' \<Longrightarrow> cp_phase (fst s') \<noteq> PhEnded (Inr ())"
  by (auto simp: cli_step_join_def cli_broken_def cli_count_chunk_def Let_def
      split: if_splits cli_task.splits sum.splits prod.splits)

lemma ended_by_verify:
  assumes "cli_step L x ch s = Some s'" "cp_phase (fst s') = PhEnded (Inr ())"
    and "\<forall>r. cp_phase (fst s) \<noteq> PhEnded r"
  shows "\<exists>t. ch = ChVerify t"
proof (cases ch)
  case (ChFrame t)
  with assms show ?thesis using frame_not_well [of x t s] by (auto split: if_splits)
qed (use assms in \<open>auto split: if_splits dest: write_not_well hash_not_well join_not_well\<close>)

lemma ended_stays:
  assumes "cp_phase (fst s) = PhEnded r"
  shows "cp_phase (fst (cli_run L x cs s)) = PhEnded r"
  using assms
proof (induction cs arbitrary: s)
  case (Cons ch cs)
  have "cli_step L x ch s = Some s' \<Longrightarrow> cp_phase (fst s') = PhEnded r" for s'
    using Cons.prems by (cases ch) (auto dest: write_not_well hash_not_well split: if_splits)
  with Cons show ?case by (auto split: option.splits)
qed simp

lemma cli_verify_moment:
  assumes "cp_phase (fst (cli_run L x cs s)) = PhEnded (Inr ())" "\<forall>r. cp_phase (fst s) \<noteq> PhEnded r"
  shows "\<exists>cs1 t cs2 s1. cs = cs1 @ ChVerify t # cs2 \<and> cli_step L x (ChVerify t) (cli_run L x cs1 s) = Some s1"
  using assms
proof (induction cs arbitrary: s)
  case (Cons ch cs)
  show ?case
  proof (cases "cli_step L x ch s")
    case None
    then have "cp_phase (fst (cli_run L x cs s)) = PhEnded (Inr ())" using Cons.prems(1) by simp
    from Cons.IH [OF this Cons.prems(2)] obtain cs1 t cs2 s1 where "cs = cs1 @ ChVerify t # cs2"
        "cli_step L x (ChVerify t) (cli_run L x cs1 s) = Some s1" by blast
    with None show ?thesis
      by (intro exI [of _ "ch # cs1"] exI [of _ t] exI [of _ cs2] exI [of _ s1]) simp
  next
    case (Some s')
    show ?thesis
    proof (cases "\<exists>r. cp_phase (fst s') = PhEnded r")
      case True
      with ended_stays [of s' _ L x cs] Cons.prems(1) Some have "cp_phase (fst s') = PhEnded (Inr ())"
        by auto
      from ended_by_verify [OF Some this Cons.prems(2)] obtain t where "ch = ChVerify t" ..
      with Some show ?thesis
        by (intro exI [of _ "[]"] exI [of _ t] exI [of _ cs] exI [of _ s']) simp
    next
      case False
      have "cp_phase (fst (cli_run L x cs s')) = PhEnded (Inr ())" using Cons.prems(1) Some by simp
      with False obtain cs1 t cs2 s1 where "cs = cs1 @ ChVerify t # cs2"
          "cli_step L x (ChVerify t) (cli_run L x cs1 s') = Some s1"
        using Cons.IH [of s'] by blast
      with Some show ?thesis
        by (intro exI [of _ "ch # cs1"] exI [of _ t] exI [of _ cs2] exI [of _ s1]) simp
    qed
  qed
qed simp


theorem cli_recv_any_schedule_witness:
  "\<exists>cs pp h. cli_run demo_hash demo_cli_ctx cs (demo_cli_sys (demo_cli 0 2 2 2 [1, 2, 3])) = (pp, h)
     \<and> cp_phase pp = PhEnded (Inr ()) \<and> ch_fs h (path_of ''/f'') = Some [1, 2, 3]"
proof -
  let ?H = "demo_cli 0 2 2 2 [1, 2, 3]"
  have H: "honest demo_hash demo_cli_ctx ?H" by (rule demo_cli_honest) simp_all
  have st: "cli_started demo_cli_ctx ?H (demo_cli_sys ?H)" by (simp add: demo_cli_started)
  obtain cs pp h where cs: "\<forall>ch \<in> set cs. plain_choice ch" "length (filter is_frame cs) \<le> hn_n ?H"
    and run: "cli_run demo_hash demo_cli_ctx cs (demo_cli_sys ?H) = (pp, h)" "cp_phase pp = PhEnded (Inr ())"
    by (rule demo_cli_ends [OF H st])
  have "hn_first ?H = 0" "hn_block ?H = unat (hn_cs ?H)" by (simp_all add: demo_cli_md_def)
  from cli_recv_any_schedule [OF H st this cs run(1), THEN conjunct1, rule_format, OF run(2)] run
  show ?thesis by (intro exI [of _ cs] exI [of _ pp] exI [of _ h]) simp
qed

theorem cli_resume_never_verifies_witness:
  "\<exists>cs pp h js. cli_run demo_hash demo_cli_ctx cs (demo_cli_sys (demo_cli 1 2 2 2 [1, 2, 3])) = (pp, h)
     \<and> cn_out (cp_conn pp) = cli_acks js @ send_tagged (TAG_ERROR, bytes_of ''Checksum mismatch'')"
proof -
  let ?H = "demo_cli 1 2 2 2 [1, 2, 3]"
  have H: "honest demo_hash demo_cli_ctx ?H" by (rule demo_cli_honest) simp_all
  have st: "cli_started demo_cli_ctx ?H (demo_cli_sys ?H)" by (simp add: demo_cli_started)
  obtain cs pp h where cs: "\<forall>ch \<in> set cs. plain_choice ch"
      "length (filter is_frame cs) \<le> hn_n ?H - hn_first ?H"
    and run: "cli_run demo_hash demo_cli_ctx cs (demo_cli_sys ?H) = (pp, h)" "cp_phase pp = PhEnded (Inr ())"
    by (rule demo_cli_ends [OF H st])
  have "0 < hn_first ?H" by simp
  from cli_resume_never_verifies [OF H st this cs run(1), THEN conjunct1, rule_format, OF run(2)] run(1)
  show ?thesis by (auto simp del: length_filter_le)
qed

theorem cli_verified_but_corrupt_witness:
  "\<exists>cs pp h f. cli_run demo_hash demo_cli_ctx cs (demo_cli_sys (demo_cli 0 3 1 2 [1, 2, 3])) = (pp, h)
     \<and> ch_fs h (path_of ''/f'') = Some f \<and> f \<noteq> [1, 2, 3]"
proof -
  let ?H = "demo_cli 0 3 1 2 [1, 2, 3]"
  have H: "honest demo_hash demo_cli_ctx ?H" by (rule demo_cli_honest) simp_all
  have st: "cli_started demo_cli_ctx ?H (demo_cli_sys ?H)" by (simp add: demo_cli_started)
  obtain cs pp h where cs: "\<forall>ch \<in> set cs. plain_choice ch" "length (filter is_frame cs) \<le> hn_n ?H"
    and run: "cli_run demo_hash demo_cli_ctx cs (demo_cli_sys ?H) = (pp, h)" "cp_phase pp = PhEnded (Inr ())"
    by (rule demo_cli_ends [OF H st])
  have "hn_first ?H = 0" "hn_block ?H < unat (hn_cs ?H)" "hn_block ?H < length (hn_src ?H)"
    "(hn_n ?H - 1) * hn_block ?H < length (hn_src ?H)" by (simp_all add: demo_cli_md_def)
  from cli_verified_but_corrupt [OF H st this cs run, THEN conjunct2] run(1)
  show ?thesis by fastforce
qed

text \<open>Two connections: this one receives the second of two chunks, the first is counted already.\<close>

theorem cli_two_connections_fail_witness:
  "\<exists>cs t pp h pp' h'. cli_run demo_hash demo_cli_ctx cs (demo_cli_sys (demo_cli 1 2 2 2 [1, 2, 3])) = (pp, h)
     \<and> sh_received (shared_at demo_cli_ctx h) = 2
     \<and> cli_step demo_hash demo_cli_ctx (ChVerify t) (pp, h) = Some (pp', h')
     \<and> cn_out (cp_conn pp') = cn_out (cp_conn pp) @ send_tagged (TAG_ERROR, bytes_of ''Checksum mismatch'')"
proof -
  let ?H = "demo_cli 1 2 2 2 [1, 2, 3]" and ?L = demo_hash and ?x = demo_cli_ctx
  let ?s = "demo_cli_sys ?H"
  have H: "honest ?L ?x ?H" by (rule demo_cli_honest) simp_all
  have st: "cli_started ?x ?H ?s" by (simp add: demo_cli_started)
  have s0: "cp_tasks (fst ?s) = []" "cp_hash (fst ?s) = []" "cp_phase (fst ?s) = PhRunning"
    by (simp_all add: demo_cli_sys_def)
  obtain cs pp0 h0 where cs: "\<forall>ch \<in> set cs. plain_choice ch"
      "length (filter is_frame cs) \<le> hn_n ?H - hn_first ?H"
    and end0: "cli_run ?L ?x cs ?s = (pp0, h0)" "cp_phase pp0 = PhEnded (Inr ())"
    by (rule demo_cli_ends [OF H st])
  then have "cp_phase (fst (cli_run ?L ?x cs ?s)) = PhEnded (Inr ())" by simp
  from cli_verify_moment [OF this] s0(3) obtain cs1 t cs2 pp' h' where
    split: "cs = cs1 @ ChVerify t # cs2"
    and step: "cli_step ?L ?x (ChVerify t) (cli_run ?L ?x cs1 ?s) = Some (pp', h')" by auto
  obtain pp h where run: "cli_run ?L ?x cs1 ?s = (pp, h)" by (cases "cli_run ?L ?x cs1 ?s")
  have "\<forall>ch \<in> set cs1. plain_choice ch" "length (cp_tasks (fst ?s)) + length (filter is_frame cs1) \<le> hn_n ?H - hn_first ?H"
    using cs split s0(1) by simp_all
  from cli_run_inv [OF H cli_inv_start [OF H st] this] run obtain js where
    inv: "cli_inv ?L ?x ?H js (pp, h)" by auto
  note I = cli_invD [OF inv]
  have ph: "cp_phase pp = PhVerifying" using step run by (simp split: if_splits)
  then have "sh_received (shared_at ?x h) = 2" using I(4,10) by (simp add: phase_ok_def)
  moreover have "length (cp_tasks pp) < unat (md_total_chunks (meta_at ?x h))"
    using I(6) by (simp add: I(2) demo_cli_md_def)
  from cli_two_connections_fail [of "fst ?s" ?L ?x cs1 "snd ?s" pp h t pp' h', OF s0(1,2) _ this _ I(5)]
    run step have "cn_out (cp_conn pp') = cn_out (cp_conn pp) @ send_tagged (TAG_ERROR, bytes_of ''Checksum mismatch'')"
    by simp
  ultimately show ?thesis using run step by (metis (no_types))
qed

text \<open>A transfer that is opened, stored and verified, and stays pending in the database.\<close>

definition demo_cli_env :: "byte list \<Rightarrow> transfer_metadata \<Rightarrow> int cli_recv_env" where
  "demo_cli_env b md = \<lparr>ce_crypto = demo_crypto, ce_zstd = demo_zstd,
     ce_codec = \<lparr>mc_enc = (\<lambda>m. Some b), mc_dec = (\<lambda>b. Some md)\<rparr>, ce_io = io_all, ce_secret = [],
     ce_addr = ''10.0.0.2:9877'', ce_uuid = ''u'', ce_now = 5\<rparr>"

definition demo_cli_host :: cli_host where
  "demo_cli_host = \<lparr>ch_shared = [], ch_active = Map.empty, ch_db = resume_new (path_of ''/d''), ch_fs = Map.empty\<rparr>"

lemma cli_open_state:
  assumes "mc_dec (ce_codec E) payload = Some md" "cli_open E dir payload c h = (Inr r, c1, h1)" "\<not> md_is_resume md"
  shows "r < length (ch_shared h1)
    \<and> sh_meta (ch_shared h1 ! r) = md \<and> sh_received (ch_shared h1 ! r) = 0
    \<and> sh_path (ch_shared h1 ! r) = path_join dir (path_of (md_file_name md))
    \<and> ch_fs h1 (path_join dir (path_of (md_file_name md)))
        = Some (set_len (unat (md_file_size md)) (file_at (path_join dir (path_of (md_file_name md))) (ch_fs h)))"
  using assms
  by (auto simp: cli_open_def cli_accept_def Let_def split: if_splits sum.splits prod.splits)

lemma demo_cli_open:
  "\<exists>c1 h1. cli_open (demo_cli_env [9] (demo_cli_md n cs [1, 2, 3])) (path_of ''/'') [9] (conn_open []) demo_cli_host = (Inr 0, c1, h1)
     \<and> cn_sends c1 = []"
proof -
  let ?md = "demo_cli_md n cs [1, 2, 3]"
  have p: "path_join (path_of ''/'') (path_of ''f'') = path_of ''/f''" by code_simp
  have md: "md_file_name ?md = ''f''" "md_file_size ?md = 3" "md_session_id ?md = ''s''"
    "\<not> md_is_resume ?md" by (simp_all add: demo_cli_md_def len64_def)
  obtain R c1 h1 where op: "cli_open (demo_cli_env [9] ?md) (path_of ''/'') [9] (conn_open []) demo_cli_host = (R, c1, h1)"
    by (cases "cli_open (demo_cli_env [9] ?md) (path_of ''/'') [9] (conn_open []) demo_cli_host")
  then have "R = Inr 0 \<and> cn_sends c1 = []"
    by (auto simp: cli_open_def cli_accept_def demo_cli_env_def demo_cli_host_def io_all_def p md
        Let_def file_at_def opt_default_def conn_open_def tag_send_ok create_transfer_def resume_new_def
        split: option.splits if_splits)
  with op show ?thesis by simp
qed

theorem cli_record_stays_pending_witness:
  "\<exists>cs c1 h1 pp h'. cli_open (demo_cli_env [9] (demo_cli_md 2 2 [1, 2, 3])) (path_of ''/'') [9]
        (conn_open []) demo_cli_host = (Inr 0, c1, h1)
     \<and> cli_run demo_hash demo_cli_ctx cs
         (fst (demo_cli_sys (demo_cli 0 2 2 2 [1, 2, 3])), h1) = (pp, h')
     \<and> cp_phase pp = PhEnded (Inr ()) \<and> ch_fs h' (path_of ''/f'') = Some [1, 2, 3]
     \<and> map_option tr_status (get_transfer (ch_db h') ''u'') = Some Pending"
proof -
  let ?H = "demo_cli 0 2 2 2 [1, 2, 3]" and ?md = "demo_cli_md 2 2 [1, 2, 3]"
  let ?E = "demo_cli_env [9] ?md"
  have p: "path_join (path_of ''/'') (path_of ''f'') = path_of ''/f''" by code_simp
  have md: "md_file_name ?md = ''f''" "md_file_size ?md = 3" "md_session_id ?md = ''s''"
    "\<not> md_is_resume ?md" by (simp_all add: demo_cli_md_def len64_def)
  obtain c1 h1 where op: "cli_open ?E (path_of ''/'') [9] (conn_open []) demo_cli_host = (Inr 0, c1, h1)"
    using demo_cli_open [of 2 2] by blast
  have dec: "mc_dec (ce_codec ?E) [9] = Some ?md" by (simp add: demo_cli_env_def)
  have h1: "0 < length (ch_shared h1)" "sh_meta (ch_shared h1 ! 0) = ?md" "sh_received (ch_shared h1 ! 0) = 0"
      "sh_path (ch_shared h1 ! 0) = path_of ''/f''" "ch_fs h1 (path_of ''/f'') = Some (set_len 3 [])"
    using cli_open_state [OF dec op md(4)] by (simp_all add: md p demo_cli_host_def file_at_def opt_default_def)
  have H: "honest demo_hash demo_cli_ctx ?H" by (rule demo_cli_honest) simp_all
  have st: "cli_started demo_cli_ctx ?H (fst (demo_cli_sys ?H), h1)"
    by (simp add: cli_started_def demo_cli_sys_def demo_cli_ctx_def conn_open_def h1 [simplified] file_at_def
        opt_default_def set_len_def)
  obtain cs pp h where cs: "\<forall>ch \<in> set cs. plain_choice ch" "length (filter is_frame cs) \<le> hn_n ?H"
    and run: "cli_run demo_hash demo_cli_ctx cs (fst (demo_cli_sys ?H), h1) = (pp, h)"
      "cp_phase pp = PhEnded (Inr ())"
    by (rule demo_cli_ends [OF H st])
  have zero: "hn_first ?H = 0" "hn_block ?H = unat (hn_cs ?H)" by (simp_all add: demo_cli_md_def)
  from cli_recv_any_schedule [OF H st zero cs run(1), THEN conjunct1, rule_format, OF run(2)]
  have stored: "ch_fs h (path_of ''/f'') = Some [1, 2, 3]" by simp
  have "mc_dec (ce_codec ?E) [9] = Some ?md" "ce_uuid ?E = ''u''" "cx_ref demo_cli_ctx = 0"
    by (simp_all add: demo_cli_env_def demo_cli_ctx_def)
  note env = this
  have none: "get_transfer (ch_db demo_cli_host) (md_session_id ?md) = None" "md_session_id ?md \<noteq> ce_uuid ?E"
    by (simp_all add: demo_cli_host_def get_transfer_def resume_new_def env md)
  from cli_record_stays_pending [OF env(1) op none _ run(1)] env op run stored show ?thesis
    by fastforce
qed

end
