(* ===== verification/Cli_Session.thy ===== *)
theory Cli_Session
  imports Cli_Order Cli_Faults
begin

text \<open>
  The sender and the receiver of the command line tool joined, each under a schedule of its
  own, and a concrete sender at which the theorems on the pipeline are applied.
\<close>

section \<open>Sender and receiver\<close>

lemma cli_encode_opens:
  assumes "aead_roundtrip C" "zstd_roundtrip Z" "comps_ok Z comps"
    and "fst (cli_encode_chunk C Z p l key pre i d comps) = Inr f"
  shows "\<exists>fl enc. f = cli_chunk_frame i fl enc \<and> open_chunk C Z key pre i (fl \<noteq> 0) enc = Inr d"
proof -
  have plain: "open_chunk C Z key pre i False enc = Inr d"
    if "chacha_encrypt C key (build_nonce pre i) d = Some enc" for enc
    using decrypt_encrypt [OF assms(1), of key "build_nonce pre i" d enc] that by (simp add: open_chunk_def)
  show ?thesis
  proof (cases "l > 0 \<and> 64 \<le> length d \<and> \<not> is_likely_compressed_fast p d")
    case False
    then obtain enc where "encrypt C key (build_nonce pre i) d = Inr enc" "f = cli_chunk_frame i 0 enc"
      using assms(4) by (auto simp: cli_encode_chunk_def Let_def split: sum.splits)
    with plain show ?thesis by (intro exI [of _ 0] exI [of _ enc]) simp
  next
    case True
    obtain r comps' where z: "zstd_compress Z comps d l = (r, comps')" by (cases "zstd_compress Z comps d l")
    show ?thesis
    proof (cases r)
      case (Inr e)
      with z zstd_compress_decompress [OF assms(2,3)] have "zstd_decompress Z e = Inr d" by simp
      moreover obtain enc where enc: "encrypt C key (build_nonce pre i) e = Inr enc" "f = cli_chunk_frame i 1 enc"
        using assms(4) True z Inr by (auto simp: cli_encode_chunk_def Let_def split: sum.splits)
      ultimately have "open_chunk C Z key pre i True enc = Inr d"
        using decrypt_encrypt [OF assms(1) enc(1)] by (simp add: open_chunk_def)
      with enc show ?thesis by (intro exI [of _ 1] exI [of _ enc]) simp
    next
      case (Inl e)
      with assms(4) True z obtain enc where "encrypt C key (build_nonce pre i) d = Inr enc" "f = cli_chunk_frame i 0 enc"
        by (auto simp: cli_encode_chunk_def Let_def split: sum.splits zstd_error.splits)
      with plain show ?thesis by (intro exI [of _ 0] exI [of _ enc]) simp
    qed
  qed
qed

text \<open>The sender reads the file its metadata describe, and every chunk can be encoded and framed.\<close>

definition cli_reads :: "'h hash_lib \<Rightarrow> usize \<Rightarrow> fdata \<Rightarrow> 'z cli_tx_ctx \<Rightarrow> bool" where
  "cli_reads L cs f x \<longleftrightarrow> xe_fs x (xe_path x) = Some f \<and> io_readable (xe_io x) (xe_path x)
     \<and> length f < 2 ^ 62 \<and> cs \<le> MAX_CHUNK_SIZE
     \<and> (\<exists>uuid pre md. create_metadata L (xe_io x) (xe_fs x) (xe_path x) cs False uuid = Inr md
          \<and> xe_md x = md\<lparr>md_nonce_prefix := pre\<rparr>)"

definition cli_encodes :: "'z cli_tx_ctx \<Rightarrow> bool" where
  "cli_encodes x \<longleftrightarrow> (\<forall>i < unat (md_total_chunks (xe_md x)).
     \<exists>f. fst (cli_encode_chunk (xe_crypto x) (xe_zstd x) (xe_path x) (xe_level x) (xe_key x)
        (md_nonce_prefix (xe_md x)) (of_nat i) (tx_chunk x i) Map.empty) = Inr f \<and> length f < 67108864)"

definition cli_sent :: "fdata \<Rightarrow> path \<Rightarrow> byte list \<Rightarrow> 'z cli_tx_ctx \<Rightarrow> cli_honest" where
  "cli_sent f q out x = \<lparr>hn_first = 0, hn_n = unat (md_total_chunks (xe_md x)),
     hn_block = unat (md_chunk_size (xe_md x)), hn_src = f,
     hn_frame = (\<lambda>i. (tx_frame x i ! 4, drop 5 (tx_frame x i))), hn_md = xe_md x, hn_path = q,
     hn_rest = [], hn_out = out\<rparr>"

definition cli_peer :: "'z cli_tx_ctx \<Rightarrow> nat \<Rightarrow> 'z cli_ctx" where
  "cli_peer x r = \<lparr>cx_crypto = xe_crypto x, cx_zstd = xe_zstd x, cx_key = xe_key x, cx_ref = r\<rparr>"

lemma frame_parts:
  "f = cli_chunk_frame i fl enc \<Longrightarrow> f ! 4 = fl \<and> drop 5 f = enc \<and> length f = length enc + 5"
  by (simp add: cli_chunk_frame_def nth_append)

lemma cli_encodes_frame:
  assumes "cli_encodes x" "i < unat (md_total_chunks (xe_md x))" "aead_roundtrip (xe_crypto x)" "zstd_roundtrip (xe_zstd x)"
  shows "tx_frame x i = cli_chunk_frame (of_nat i) (tx_frame x i ! 4) (drop 5 (tx_frame x i))
    \<and> length (drop 5 (tx_frame x i)) + 5 < 67108864
    \<and> open_chunk (xe_crypto x) (xe_zstd x) (xe_key x) (md_nonce_prefix (xe_md x)) (of_nat i)
        (tx_frame x i ! 4 \<noteq> 0) (drop 5 (tx_frame x i)) = Inr (tx_chunk x i)"
proof -
  obtain f where f: "fst (cli_encode_chunk (xe_crypto x) (xe_zstd x) (xe_path x) (xe_level x) (xe_key x)
        (md_nonce_prefix (xe_md x)) (of_nat i) (tx_chunk x i) Map.empty) = Inr f" "length f < 67108864"
    using assms(1,2) by (auto simp: cli_encodes_def)
  from cli_encode_opens [OF assms(3,4) comps_ok_empty f(1)] obtain fl enc where
    o: "f = cli_chunk_frame (of_nat i) fl enc"
      "open_chunk (xe_crypto x) (xe_zstd x) (xe_key x) (md_nonce_prefix (xe_md x)) (of_nat i) (fl \<noteq> 0) enc
        = Inr (tx_chunk x i)" by blast
  have "tx_frame x i = f" by (simp add: tx_frame_def f(1))
  with o f(2) frame_parts [OF o(1)] show ?thesis by simp
qed

lemma cli_sent_honest:
  assumes "streaming_hash L" "digest_32 L" "aead_roundtrip (xe_crypto x)" "zstd_roundtrip (xe_zstd x)"
    and reads: "cli_reads L cs f x" and enc: "cli_encodes x" and n: "unat (md_total_chunks (xe_md x)) < 2 ^ 32"
  shows "honest L (cli_peer x r) (cli_sent f q out x) \<and> md_file_size (xe_md x) = len64 f"
proof -
  obtain md uuid pre where md: "create_metadata L (xe_io x) (xe_fs x) (xe_path x) cs False uuid = Inr md"
      "xe_md x = md\<lparr>md_nonce_prefix := pre\<rparr>" and cs: "cs \<le> MAX_CHUNK_SIZE" and len: "length f < 2 ^ 62"
    and src: "xe_fs x (xe_path x) = Some f" "io_readable (xe_io x) (xe_path x)"
    using reads by (auto simp: cli_reads_def)
  then have m: "md_file_size (xe_md x) = len64 f" "md_chunk_size (xe_md x) = max cs MIN_CHUNK_SIZE"
      "md_total_chunks (xe_md x) = total_chunks (chunker_new (max cs MIN_CHUNK_SIZE) (len64 f))"
      "md_checksum (xe_md x) = blake3_hash L f"
    by (auto simp: create_metadata_def Let_def hash_file_reader [OF assms(1)])
  define c where "c = chunker_new (md_chunk_size (xe_md x)) (md_file_size (xe_md x))"
  have c: "wf_chunker c" "ck_chunk_size c = md_chunk_size (xe_md x)" "fs_nat c = length f"
      "md_total_chunks (xe_md x) = total_chunks c"
    using clamp_below_max [OF cs] len
    by (simp_all add: c_def wf_chunker_new m unat_len64) (simp add: chunker_new_def)
  have chunk: "tx_chunk x i = chunk_at (cs_nat c) f i" if "i < n_chunks c" for i
    using prepare_chunk_ok [of "xe_fs x" "xe_path x" f "xe_io x" "xe_md x" c i] src m(1) c_def that len
    by (simp add: tx_chunk_def)
  have lim: "n_chunks c \<le> 2 ^ 63 div Suc (cs_nat c)"
    using engine_limit [OF c(1), of "n_chunks c - 1"] n_chunks_pos [OF c(1)] c(3) len by simp
  note F = cli_encodes_frame [OF enc _ assms(3,4), unfolded c(4)]
  have "0 < cs_nat c" using c(1) by (simp add: wf_chunker_nat)
  with assms(1,2) n lim F chunk n_chunks_pos [OF c(1)] chunks_reach_end [OF c(1)] show ?thesis
    by (auto simp: honest_def cli_sent_def cli_peer_def c m(1,4) hn_data_def)
qed

lemma cli_sent_frames:
  assumes "aead_roundtrip (xe_crypto x)" "zstd_roundtrip (xe_zstd x)" "cli_encodes x"
  shows "cli_frames (cli_sent f q out x) 0 = cli_chunks (tx_frame x) 0 (unat (md_total_chunks (xe_md x)))"
  using cli_encodes_frame [OF assms(3) _ assms(1,2)]
  by (auto simp: cli_frames_def cli_chunks_def cli_sent_def frame_message_def intro!: arg_cong [of _ _ concat])

lemma cli_reads_fresh: "cli_reads L cs f x \<Longrightarrow> \<not> md_is_resume (xe_md x)"
  by (auto simp: cli_reads_def create_metadata_def res_bind_Inr Let_def split: if_splits)

lemma cli_session_start:
  assumes "streaming_hash L" "digest_32 L" "aead_roundtrip (xe_crypto x)" "zstd_roundtrip (xe_zstd x)"
    and reads: "cli_reads L cs f x" and enc: "cli_encodes x" and n: "unat (md_total_chunks (xe_md x)) < 2 ^ 32"
    and sends: "tx_run x ss (cli_tx_start Map.empty 0 0 db c) = s" "tx_fine s" "\<not> tx_paused s"
      "\<not> tx_spawn s" "tx_tasks s = []" "tx_net s = []" "cn_out (tx_conn s) = cn_out c @ bytes"
    and opens: "mc_dec (ce_codec E) payload = Some (xe_md x)" "cli_open E dir payload c0 h0 = (Inr r, c1, h1)"
      "cn_sends c1 = []"
    and q: "q = path_join dir (path_of (md_file_name (xe_md x)))"
  shows "honest L (cli_peer x r) (cli_sent f q (cn_out c1) x)"
    "cli_started (cli_peer x r) (cli_sent f q (cn_out c1) x)
      (\<lparr>cp_conn = c1\<lparr>cn_in := bytes\<rparr>, cp_tasks = [], cp_hash = [], cp_phase = PhRunning\<rparr>, h1)"
proof -
  let ?H = "cli_sent f q (cn_out c1) x"
  from cli_sent_honest [OF assms(1-4) reads enc n] show "honest L (cli_peer x r) ?H" by blast
  from cli_sent_honest [OF assms(1-4) reads enc n] have size: "md_file_size (xe_md x) = len64 f" by blast
  have "tx_inv x 0 (cn_out c) s"
    unfolding sends(1) [symmetric] by (intro tx_inv_run tx_inv_start comps_ok_empty) simp
  from tx_all_sent [OF this sends(2-6)] sends(7) have "bytes = cli_frames ?H 0"
    by (simp add: cli_sent_frames [OF assms(3,4) enc])
  moreover note cli_open_state [OF opens(1,2) cli_reads_fresh [OF reads]]
  moreover have "length f < 2 ^ 64" using reads by (simp add: cli_reads_def)
  ultimately show "cli_started (cli_peer x r) ?H
      (\<lparr>cp_conn = c1\<lparr>cn_in := bytes\<rparr>, cp_tasks = [], cp_hash = [], cp_phase = PhRunning\<rparr>, h1)"
    using opens(3) by (simp add: cli_started_def cli_sent_def cli_peer_def file_at_def opt_default_def
        size unat_len64 set_len_def q)
qed

text \<open>
  C21. Both ends of the command line tool together: whatever the schedule of the sender, once
  it has read and sent every chunk of a file, a receiver that has opened the transfer from
  its metadata and gets its bytes, under any schedule of its own that comes to an end, has
  the sent file on disk, has acknowledged every chunk once and has answered COMPLETE with
  the digest of the file.
\<close>

theorem cli_session_delivers:
  assumes "streaming_hash L" "digest_32 L" "aead_roundtrip (xe_crypto x)" "zstd_roundtrip (xe_zstd x)"
    and reads: "cli_reads L cs f x" and enc: "cli_encodes x" and n: "unat (md_total_chunks (xe_md x)) < 2 ^ 32"
    and sends: "tx_run x ss (cli_tx_start Map.empty 0 0 db c) = s" "tx_fine s" "\<not> tx_paused s"
      "\<not> tx_spawn s" "tx_tasks s = []" "tx_net s = []" "cn_out (tx_conn s) = cn_out c @ bytes"
    and opens: "mc_dec (ce_codec E) payload = Some (xe_md x)" "cli_open E dir payload c0 h0 = (Inr r, c1, h1)"
      "cn_sends c1 = []"
    and runs: "\<forall>ch \<in> set rs. plain_choice ch" "length (filter is_frame rs) \<le> unat (md_total_chunks (xe_md x))"
      "cli_run L (cli_peer x r) rs (\<lparr>cp_conn = c1\<lparr>cn_in := bytes\<rparr>, cp_tasks = [], cp_hash = [],
          cp_phase = PhRunning\<rparr>, h1) = (pp, h)" "cp_phase pp = PhEnded res"
  shows "res = Inr () \<and> ch_fs h (path_join dir (path_of (md_file_name (xe_md x)))) = Some f
    \<and> (\<exists>js. mset js = mset [0..<unat (md_total_chunks (xe_md x))] \<and> cn_out (cp_conn pp)
          = cn_out c1 @ cli_acks js @ send_tagged (TAG_COMPLETE, blake3_hash L f))"
proof -
  let ?H = "cli_sent f (path_join dir (path_of (md_file_name (xe_md x)))) (cn_out c1) x"
  note st = cli_session_start [OF assms(1-4) reads enc n sends opens refl]
  have "hn_first ?H = 0" "hn_block ?H = unat (hn_cs ?H)" "length (filter is_frame rs) \<le> hn_n ?H"
    using runs(2) by (simp_all add: cli_sent_def)
  from cli_recv_ended [OF st this(1,2) runs(1) this(3) runs(3,4)] st(1)
  show ?thesis by (simp add: honest_def cli_sent_def)
qed

section \<open>A concrete sender\<close>

definition demo_tx :: "nat \<Rightarrow> int cli_tx_ctx" where
  "demo_tx n = \<lparr>xe_crypto = demo_crypto, xe_zstd = demo_zstd, xe_io = io_all,
     xe_fs = [path_of ''/f'' \<mapsto> [1, 2, 3]], xe_path = path_of ''/f'',
     xe_md = demo_cli_md n MIN_CHUNK_SIZE [1, 2, 3], xe_key = demo_cli_key, xe_level = 0,
     xe_session = ''t''\<rparr>"

lemma demo_tx_fields [simp]:
  "xe_crypto (demo_tx n) = demo_crypto" "xe_zstd (demo_tx n) = demo_zstd" "xe_io (demo_tx n) = io_all"
  "xe_fs (demo_tx n) = [path_of ''/f'' \<mapsto> [1, 2, 3]]" "xe_path (demo_tx n) = path_of ''/f''"
  "xe_md (demo_tx n) = demo_cli_md n MIN_CHUNK_SIZE [1, 2, 3]" "xe_key (demo_tx n) = demo_cli_key"
  "xe_level (demo_tx n) = 0" "xe_session (demo_tx n) = ''t''"
  by (simp_all add: demo_tx_def)

lemma demo_tx_md [simp]: "md_total_chunks (demo_cli_md n cs src) = of_nat n"
  by (simp add: demo_cli_md_def)

lemma demo_tx_prepare:
  "prepare_chunk io_all [path_of ''/f'' \<mapsto> [1, 2, 3]] (path_of ''/f'') (demo_cli_md n MIN_CHUNK_SIZE [1, 2, 3]) 0 = Inr [1, 2, 3]"
  "prepare_chunk io_all [path_of ''/f'' \<mapsto> [1, 2, 3]] (path_of ''/f'') (demo_cli_md n MIN_CHUNK_SIZE [1, 2, 3]) 1 = Inr []"
  by (simp_all add: prepare_chunk_def demo_cli_md_def chunker_new_def clamp_u64_def chunk_offset_def
      chunk_length_def MIN_CHUNK_SIZE_def MAX_CHUNK_SIZE_def len64_def sat_sub_def io_all_def min_def
      word_le_nat_alt Let_def)

lemma demo_tx_encode:
  "cli_encode_chunk demo_crypto demo_zstd p 0 k pre i d comps
     = (Inr (cli_chunk_frame i 0 (d @ demo_tag k (build_nonce pre i))), comps)"
  by (simp add: cli_encode_chunk_def encrypt_def demo_crypto_def)

lemma tx_drain_next:
  "map_of b m = None \<Longrightarrow> tx_drain b m c = (Inr (), b, m, c)"
  "map_of b m = Some f \<Longrightarrow> cn_sends c = [] \<Longrightarrow>
   tx_drain b m c = tx_drain (AList.delete m b) (m + 1) (c\<lparr>cn_out := cn_out c @ send_tagged (TAG_CHUNK, f)\<rparr>)"
  by (simp_all add: tx_drain.simps [of b m c] tag_send_ok)

definition demo_tx_choices :: "cli_tx_choice list" where
  "demo_tx_choices = [XSpawn, XSpawn, XFinish 1, XTake 0, XSpawn, XFinish 0, XTake 0]"

text \<open>Two chunks, of which the second is encoded first.\<close>

lemma demo_tx_ends:
  assumes "tx_run (demo_tx 2) demo_tx_choices (cli_tx_start Map.empty 0 0 demo_db (conn_open [])) = s"
  shows "tx_fine s \<and> \<not> tx_paused s \<and> \<not> tx_spawn s \<and> tx_tasks s = [] \<and> tx_net s = []"
  unfolding assms [symmetric]
  by (simp add: demo_tx_choices_def conn_open_def cli_tx_start_def tx_step_spawn_def demo_tx_prepare tx_step_finish_def
      demo_tx_encode tx_step_take_def tx_drain_next tx_turn_end_def tx_fine_def word_le_nat_alt word_less_nat_alt)

theorem cli_send_in_order_witness:
  "cn_out (tx_conn (tx_run (demo_tx 2) demo_tx_choices (cli_tx_start Map.empty 0 0 demo_db (conn_open []))))
     = cli_chunks (tx_frame (demo_tx 2)) 0 2"
  using cli_send_in_order [of "demo_tx 2" Map.empty 0 demo_tx_choices 0 demo_db "conn_open []", OF _ _ refl]
    demo_tx_ends [OF refl]
  by (simp add: comps_ok_empty conn_open_def)

text \<open>One chunk, from the one end to the other.\<close>

lemma demo_tx_one:
  assumes "tx_run (demo_tx 1) [XSpawn, XFinish 0, XTake 0, XSpawn] (cli_tx_start Map.empty 0 0 demo_db (conn_open [])) = s"
  shows "tx_fine s" "\<not> tx_paused s" "\<not> tx_spawn s" "tx_tasks s = []" "tx_net s = []"
  unfolding assms [symmetric]
  by (simp_all add: conn_open_def cli_tx_start_def tx_step_spawn_def demo_tx_prepare tx_step_finish_def
      demo_tx_encode tx_step_take_def tx_drain_next tx_turn_end_def tx_fine_def word_le_nat_alt word_less_nat_alt)

lemma demo_tx_reads: "cli_reads demo_hash MIN_CHUNK_SIZE [1, 2, 3] (demo_tx 1)"
proof -
  have "file_name (path_of ''/f'') = Some ''f''" by code_simp
  moreover have "total_chunks (chunker_new MIN_CHUNK_SIZE (len64 [1, 2, 3 :: byte])) = 1"
    by (simp add: total_chunks_def chunker_new_def clamp_u64_def div_ceil_def len64_def MIN_CHUNK_SIZE_def
        MAX_CHUNK_SIZE_def word_less_nat_alt)
  ultimately have "create_metadata demo_hash io_all [path_of ''/f'' \<mapsto> [1, 2, 3]] (path_of ''/f'') MIN_CHUNK_SIZE False ''s''
      = Inr (demo_cli_md 1 MIN_CHUNK_SIZE [1, 2, 3])"
    by (simp add: create_metadata_def demo_cli_md_def hash_file_reader [OF demo_hash_streaming] io_all_def opt_default_def Let_def)
  then show ?thesis
    by (auto simp: cli_reads_def io_all_def MIN_CHUNK_SIZE_def MAX_CHUNK_SIZE_def demo_cli_md_def word_le_nat_alt
        intro!: exI [of _ "''s''"] exI [of _ "replicate 4 0"])
qed

lemma demo_tx_encodes: "cli_encodes (demo_tx 1)"
  by (simp add: cli_encodes_def demo_tx_encode tx_chunk_def demo_tx_prepare cli_chunk_frame_def)

theorem cli_session_delivers_witness:
  "\<exists>bytes c1 h1 rs pp h.
     cn_out (tx_conn (tx_run (demo_tx 1) [XSpawn, XFinish 0, XTake 0, XSpawn] (cli_tx_start Map.empty 0 0 demo_db (conn_open [])))) = bytes
     \<and> cli_open (demo_cli_env [9] (xe_md (demo_tx 1))) (path_of ''/'') [9] (conn_open []) demo_cli_host = (Inr 0, c1, h1)
     \<and> cli_run demo_hash (cli_peer (demo_tx 1) 0) rs
         (\<lparr>cp_conn = c1\<lparr>cn_in := bytes\<rparr>, cp_tasks = [], cp_hash = [], cp_phase = PhRunning\<rparr>, h1) = (pp, h)
     \<and> cp_phase pp = PhEnded (Inr ()) \<and> ch_fs h (path_of ''/f'') = Some [1, 2, 3]"
proof -
  let ?x = "demo_tx 1" and ?E = "demo_cli_env [9] (xe_md (demo_tx 1))"
  obtain s bytes where s: "tx_run ?x [XSpawn, XFinish 0, XTake 0, XSpawn] (cli_tx_start Map.empty 0 0 demo_db (conn_open [])) = s"
    "cn_out (tx_conn s) = bytes" by simp
  have out: "cn_out (tx_conn s) = cn_out (conn_open []) @ bytes" by (simp add: s(2) conn_open_def)
  obtain c1 h1 where op: "cli_open ?E (path_of ''/'') [9] (conn_open []) demo_cli_host = (Inr 0, c1, h1)" "cn_sends c1 = []"
    using demo_cli_open [of 1 MIN_CHUNK_SIZE] by auto
  have md: "mc_dec (ce_codec ?E) [9] = Some (xe_md ?x)" by (simp add: demo_cli_env_def)
  have lib: "aead_roundtrip (xe_crypto ?x)" "zstd_roundtrip (xe_zstd ?x)"
    by (simp_all add: demo_crypto_aead demo_zstd_roundtrip)
  have n: "unat (md_total_chunks (xe_md ?x)) < 2 ^ 32" by simp
  note hyp = demo_hash_streaming demo_hash_digest lib demo_tx_reads demo_tx_encodes n s(1)
    demo_tx_one [OF s(1)] out md op
  note st = cli_session_start [OF hyp refl]
  have ctx: "cli_peer ?x 0 = demo_cli_ctx" by (simp add: cli_peer_def demo_cli_ctx_def)
  obtain rs pp h where rs: "\<forall>ch \<in> set rs. plain_choice ch"
      "length (filter is_frame rs) \<le> hn_n (cli_sent [1, 2, 3] (path_join (path_of ''/'') (path_of (md_file_name (xe_md ?x)))) (cn_out c1) ?x)"
    and run: "cli_run demo_hash (cli_peer ?x 0) rs (\<lparr>cp_conn = c1\<lparr>cn_in := bytes\<rparr>, cp_tasks = [], cp_hash = [],
        cp_phase = PhRunning\<rparr>, h1) = (pp, h)" "cp_phase pp = PhEnded (Inr ())"
    using demo_cli_ends [OF st [unfolded ctx]] unfolding ctx by metis
  have len: "length (filter is_frame rs) \<le> unat (md_total_chunks (xe_md ?x))" using rs(2) by (simp add: cli_sent_def)
  have "path_join (path_of ''/'') (path_of (md_file_name (xe_md ?x))) = path_of ''/f''"
  proof -
    have "path_join (path_of ''/'') (path_of ''f'') = path_of ''/f''" by code_simp
    then show ?thesis by (simp add: demo_cli_md_def)
  qed
  with cli_session_delivers [OF hyp rs(1) len run] have "ch_fs h (path_of ''/f'') = Some [1, 2, 3]" by simp
  with s op(1) run show ?thesis by blast
qed

theorem cli_send_counts_acks_witness:
  "tx_phase (tx_run (demo_tx 1) [XAck 5, XVerify 5]
     (cli_tx_start Map.empty 0 0 demo_db
       (conn_open (ack_messages [[]] @ send_tagged (TAG_COMPLETE, md_checksum (xe_md (demo_tx 1))))))) = TxEnded (Inr ())"
  using cli_send_counts_acks [of "[[]]" "demo_tx 1" _ 5 Map.empty demo_db, OF _ _ _ _ _ refl]
  by (simp add: conn_open_def demo_cli_md_def blake3_hash_def demo_hash_def)

end
