(* ===== verification/Cli_Slow.thy ===== *)
theory Cli_Slow
  imports Cli_Session
begin

text \<open>
  \<open>cmd_slow_receive\<close> of \<open>desktop/p2ptransfer-cli/src/main.rs\<close>, the sequential receiver the
  tests use: chunks one at a time, in order, stored with the engine, the file on disk
  verified at the end. On the same input it agrees with the pipelined receiver.
\<close>

section \<open>The command\<close>

type_synonym slow_state = "conn \<times> resume_db \<times> filesystem"

definition slow_begin ::
  "'z cli_recv_env \<Rightarrow> path \<Rightarrow> conn \<Rightarrow> resume_db
     \<Rightarrow> (string + byte list \<times> transfer_metadata \<times> path) \<times> conn \<times> resume_db" where
  "slow_begin E output_dir c db =
     (case tag_receive c of
        (Inl e, c) \<Rightarrow> (Inl e, c, db)
      | (Inr m, c) \<Rightarrow>
     (case cli_server_key (ce_crypto E) (ce_secret E) ''Invalid client public key length'' m c of
        (Inl e, c) \<Rightarrow> (Inl e, c, db)
      | (Inr enc_key, c) \<Rightarrow>
     (case tag_receive c of
        (Inl e, c) \<Rightarrow> (Inl e, c, db)
      | (Inr (tag, payload), c) \<Rightarrow>
     (if tag \<noteq> TAG_METADATA then
        (let (e, c) = cli_refuse ''Expected METADATA'' (''Expected METADATA, got tag='' @ show_nat (unat tag)) c
         in (e, c, db))
      else case mc_dec (ce_codec E) payload of
        None \<Rightarrow> (Inl ''Failed to parse TransferMetadata'', c, db)
      | Some md \<Rightarrow>
     (case tag_send TAG_METADATA (bytes_of ''ACCEPT'') c of
        (Inl e, c) \<Rightarrow> (Inl e, c, db)
      | (Inr _, c) \<Rightarrow>
     (let p = path_join output_dir (path_of (md_file_name md)) in
      case create_transfer db (ce_addr E) (path_text p) (as_i64 (md_file_size md)) (ce_uuid E) (ce_now E) of
        (Inl e, db) \<Rightarrow> (Inl e, c, db)
      | (Inr _, db) \<Rightarrow> (Inr (enc_key, md, p), c, db)))))))"

text \<open>One chunk. The index in the frame must be the expected one.\<close>

definition slow_check ::
  "u64 \<Rightarrow> string + tagged \<Rightarrow> string + bool \<times> byte list" where
  "slow_check chunk_index r =
     res_bind r (\<lambda>(tag, payload).
       if tag = TAG_ERROR then Inl ''Peer sent error''
       else if tag \<noteq> TAG_CHUNK then Inl (''Expected CHUNK, got tag='' @ show_nat (unat tag))
       else case cli_parse_chunk payload of
         None \<Rightarrow> Inl ''Malformed chunk''
       | Some (recv_index, compressed, encrypted) \<Rightarrow>
           if recv_index \<noteq> chunk_index then
             Inl (''Chunk index mismatch: expected '' @ show_nat (unat chunk_index) @ '', got ''
               @ show_nat (unat recv_index))
           else Inr (compressed, encrypted))"

definition slow_open ::
  "crypto_lib \<Rightarrow> 'z zstd_lib \<Rightarrow> byte list \<Rightarrow> byte list \<Rightarrow> u64 \<Rightarrow> bool \<Rightarrow> byte list
     \<Rightarrow> string + byte list" where
  "slow_open C Z key prefix chunk_index compressed encrypted =
     res_bind (res_map_err (\<lambda>_. ''Chunk decryption failed (bad tag or corrupted)'')
         (decrypt C key (build_nonce prefix chunk_index) encrypted)) (\<lambda>decrypted.
       if compressed then res_map_err zstd_text (zstd_decompress Z decrypted) else Inr decrypted)"

definition slow_chunk ::
  "'z cli_recv_env \<Rightarrow> byte list \<Rightarrow> transfer_metadata \<Rightarrow> path \<Rightarrow> u64 \<Rightarrow> conn \<Rightarrow> filesystem
     \<Rightarrow> (string + unit) \<times> conn \<times> filesystem" where
  "slow_chunk E enc_key md p chunk_index c fs =
     (let (r, c) = tag_receive c in
      case slow_check chunk_index r of
        Inl e \<Rightarrow> (Inl e, c, fs)
      | Inr (compressed, encrypted) \<Rightarrow>
     (case slow_open (ce_crypto E) (ce_zstd E) enc_key (md_nonce_prefix md) chunk_index compressed encrypted of
        Inl e \<Rightarrow> (Inl e, c, fs)
      | Inr chunk_data \<Rightarrow>
     (case process_received_chunk (ce_io E) fs p chunk_index (md_chunk_size md) chunk_data of
        (Inl e, fs) \<Rightarrow> (Inl e, c, fs)
      | (Inr _, fs) \<Rightarrow>
     (case tag_send TAG_CHUNK_ACK (ack_payload chunk_index) c of
        (Inl e, c) \<Rightarrow> (Inl e, c, fs)
      | (Inr _, c) \<Rightarrow> (Inr (), c, fs)))))"

text \<open>The indices of the range \<open>0..total_chunks\<close>, one after the other.\<close>

fun slow_loop ::
  "'z cli_recv_env \<Rightarrow> byte list \<Rightarrow> transfer_metadata \<Rightarrow> path \<Rightarrow> nat list \<Rightarrow> conn \<Rightarrow> filesystem
     \<Rightarrow> (string + unit) \<times> conn \<times> filesystem" where
  "slow_loop E enc_key md p [] c fs = (Inr (), c, fs)"
| "slow_loop E enc_key md p (i # is) c fs =
     (case slow_chunk E enc_key md p (of_nat i) c fs of
        (Inl e, c, fs) \<Rightarrow> (Inl e, c, fs)
      | (Inr _, c, fs) \<Rightarrow> slow_loop E enc_key md p is c fs)"

definition slow_verify ::
  "'h hash_lib \<Rightarrow> io_env \<Rightarrow> transfer_metadata \<Rightarrow> path \<Rightarrow> conn \<Rightarrow> filesystem \<Rightarrow> (string + unit) \<times> conn" where
  "slow_verify L io md p c fs =
     (case verify_checksum L io fs p (md_checksum md) of
        Inl e \<Rightarrow> (Inl e, c)
      | Inr hash_match \<Rightarrow>
          if hash_match then tag_send TAG_COMPLETE (md_checksum md) c
          else cli_refuse ''Checksum mismatch'' ''Checksum mismatch'' c)"

definition slow_chunks ::
  "'h hash_lib \<Rightarrow> 'z cli_recv_env \<Rightarrow> byte list \<Rightarrow> transfer_metadata \<Rightarrow> path \<Rightarrow> conn \<Rightarrow> filesystem
     \<Rightarrow> (string + unit) \<times> conn \<times> filesystem" where
  "slow_chunks L E enc_key md p c fs =
     (case slow_loop E enc_key md p [0..<unat (md_total_chunks md)] c fs of
        (Inl e, c, fs) \<Rightarrow> (Inl e, c, fs)
      | (Inr _, c, fs) \<Rightarrow> (let (r, c) = slow_verify L (ce_io E) md p c fs in (r, c, fs)))"

definition cmd_slow_receive ::
  "'h hash_lib \<Rightarrow> 'z cli_recv_env \<Rightarrow> path \<Rightarrow> conn \<Rightarrow> resume_db \<Rightarrow> filesystem
     \<Rightarrow> (string + unit) \<times> conn \<times> resume_db \<times> filesystem" where
  "cmd_slow_receive L E output_dir c db fs =
     (case slow_begin E output_dir c db of
        (Inl e, c, db) \<Rightarrow> (Inl e, c, db, fs)
      | (Inr (enc_key, md, p), c, db) \<Rightarrow>
          (let (r, c, fs) = slow_chunks L E enc_key md p c fs in (r, c, db, fs)))"

section \<open>On an honest sender\<close>

lemma slow_open_ok: "open_chunk C Z key pre i z e = Inr d \<Longrightarrow> slow_open C Z key pre i z e = Inr d"
  by (cases "decrypt C key (build_nonce pre i) e") (simp_all add: open_chunk_def slow_open_def)

lemma slow_loop_honest:
  assumes "\<forall>i \<in> set is. fits_tagged (frame_message H i) \<and> i < 2 ^ 32
      \<and> open_chunk (ce_crypto E) (ce_zstd E) key (md_nonce_prefix (hn_md H)) (of_nat i)
          (fst (hn_frame H i) \<noteq> 0) (snd (hn_frame H i)) = Inr (hn_data H i)
      \<and> unat (of_nat i * hn_cs H :: u64) < 2 ^ 63"
    and "can_store (ce_io E) p" "cn_sends c = []"
    and "cn_in c = concat (map (\<lambda>i. send_tagged (frame_message H i)) is) @ rest"
  shows "slow_loop E key (hn_md H) p is c fs
    = (Inr (), c\<lparr>cn_in := rest, cn_out := cn_out c @ cli_acks is\<rparr>,
       fold (\<lambda>i. engine_put p (hn_cs H) i (hn_data H i)) is fs)"
  using assms
proof (induction "is" arbitrary: c fs)
  case Nil
  then show ?case by (simp add: cli_acks_def)
next
  case (Cons i "is")
  have i: "unat (of_nat i :: u64) = i" using Cons.prems(1) by (simp add: unat_of_nat)
  let ?c1 = "c\<lparr>cn_in := concat (map (\<lambda>i. send_tagged (frame_message H i)) is) @ rest\<rparr>"
  have "tag_receive c = (Inr (frame_message H i), ?c1)"
    using Cons.prems(1,4) by (simp add: tag_receive_put)
  moreover have "slow_check (of_nat i) (Inr (frame_message H i)) = Inr (fst (hn_frame H i) \<noteq> 0, snd (hn_frame H i))"
    using Cons.prems(1) i by (simp add: slow_check_def frame_message_def cli_tags cli_parse_frame)
  ultimately have "slow_chunk E key (hn_md H) p (of_nat i) c fs
      = (Inr (), ?c1\<lparr>cn_out := cn_out c @ send_tagged (TAG_CHUNK_ACK, ack_payload (of_nat i))\<rparr>,
         engine_put p (hn_cs H) i (hn_data H i) fs)"
    using Cons.prems by (simp add: slow_chunk_def slow_open_ok process_chunk_ok tag_send_ok Let_def)
  with Cons.IH [of "?c1\<lparr>cn_out := cn_out c @ send_tagged (TAG_CHUNK_ACK, ack_payload (of_nat i))\<rparr>"] Cons.prems
  show ?case by (simp add: cli_acks_def)
qed

lemma verify_sent:
  "streaming_hash L \<Longrightarrow> fs p = Some f \<Longrightarrow> io_readable io p \<Longrightarrow> verify_checksum L io fs p (blake3_hash L f) = Inr True"
  using hash_file_reader [of L 65536 f]
  by (auto simp: verify_checksum_def blake3_hash_reader_def res_bind_Inr)

lemma slow_chunks_honest:
  assumes H: "honest L x H" and "hn_first H = 0" "hn_block H = unat (hn_cs H)"
    and E: "ce_crypto E = cx_crypto x" "ce_zstd E = cx_zstd x" "can_store (ce_io E) (hn_path H)"
      "io_readable (ce_io E) (hn_path H)"
    and c: "cn_in c = cli_frames H 0" "cn_sends c = []" "length (file_at (hn_path H) fs) \<le> length (hn_src H)"
  shows "\<exists>c' fs'. slow_chunks L E (cx_key x) (hn_md H) (hn_path H) c fs = (Inr (), c', fs')
    \<and> fs' (hn_path H) = Some (hn_src H)
    \<and> cn_out c' = cn_out c @ cli_acks [0..<hn_n H] @ send_tagged (TAG_COMPLETE, md_checksum (hn_md H))"
proof -
  let ?p = "hn_path H" and ?n = "hn_n H"
  let ?fs = "fold (\<lambda>i. engine_put ?p (hn_cs H) i (hn_data H i)) [0..<?n] fs"
  have h: "0 < hn_block H" "?n \<le> 2 ^ 63 div Suc (unat (hn_cs H))" "length (hn_src H) \<le> ?n * hn_block H"
      "streaming_hash L" "md_checksum (hn_md H) = blake3_hash L (hn_src H)" "0 < ?n" "?n < 2 ^ 32"
      "md_total_chunks (hn_md H) = of_nat ?n"
    using H assms(2) by (simp_all add: honest_def)
  have "unat (of_nat i * hn_cs H :: u64) < 2 ^ 63" if "i < ?n" for i
    using engine_offset [of i "hn_cs H"] that h(2) by simp
  then have "slow_loop E (cx_key x) (hn_md H) ?p [0..<?n] c fs
      = (Inr (), c\<lparr>cn_in := hn_rest H, cn_out := cn_out c @ cli_acks [0..<?n]\<rparr>, ?fs)"
    using H assms(2) E c frame_fits [OF H] by (intro slow_loop_honest) (auto simp: honest_def cli_frames_def)
  moreover have n: "unat (md_total_chunks (hn_md H)) = ?n" using h(7) by (simp add: h(8) unat_of_nat)
  moreover have "file_at ?p ?fs = hn_src H"
    using h c(3) assms(3) unfolding hn_data_def assms(3)
    by (intro eng.reassembles [where n = ?n]) auto
  then have stored: "?fs ?p = Some (hn_src H)"
    using fold_engine_put_Some [of "[0..<?n]" ?p "hn_cs H" "hn_data H" fs] h(6)
    by (auto simp: file_at_def opt_default_def)
  ultimately show ?thesis
    using verify_sent [of L ?fs ?p "hn_src H" "ce_io E"] h(4) stored E(4) c(2)
    by (simp add: slow_chunks_def slow_verify_def h(5) tag_send_ok)
qed

text \<open>
  C28. The pipelined receiver agrees with the sequential one on an honest fresh transfer:
  under every schedule that ends, the file is the one the sequential receiver writes, both
  acknowledge the same chunks, the sequential one in order, and both end with COMPLETE.
\<close>

theorem cli_receivers_agree:
  assumes "honest L x H" "hn_first H = 0" "hn_block H = unat (hn_cs H)"
    and "cli_started x H s" "\<forall>ch \<in> set cs. plain_choice ch" "length (filter is_frame cs) \<le> hn_n H"
      "cli_run L x cs s = (pp, h)" "cp_phase pp = PhEnded r"
    and "ce_crypto E = cx_crypto x" "ce_zstd E = cx_zstd x" "can_store (ce_io E) (hn_path H)"
      "io_readable (ce_io E) (hn_path H)"
    and "cn_in c = cli_frames H 0" "cn_sends c = []" "length (file_at (hn_path H) fs) \<le> length (hn_src H)"
  shows "\<exists>c' fs' js. slow_chunks L E (cx_key x) (hn_md H) (hn_path H) c fs = (r, c', fs')
    \<and> fs' (hn_path H) = ch_fs h (hn_path H)
    \<and> cn_out c' = cn_out c @ cli_acks (sort js) @ send_tagged (TAG_COMPLETE, md_checksum (hn_md H))
    \<and> cn_out (cp_conn pp) = hn_out H @ cli_acks js @ send_tagged (TAG_COMPLETE, md_checksum (hn_md H))"
proof -
  from cli_recv_ended [OF assms(1,4,2,3,5-8)] obtain js where
    r: "r = Inr ()" "ch_fs h (hn_path H) = Some (hn_src H)" "mset js = mset [0..<hn_n H]"
      "cn_out (cp_conn pp) = hn_out H @ cli_acks js @ send_tagged (TAG_COMPLETE, md_checksum (hn_md H))"
    by blast
  have "sort js = [0..<hn_n H]" using properties_for_sort [of "[0..<hn_n H]" js] r(3) by simp
  with r slow_chunks_honest [OF assms(1-3,9-15)] show ?thesis by metis
qed

theorem cli_receivers_agree_witness:
  "\<exists>cs pp h c' fs'. cli_run demo_hash demo_cli_ctx cs (demo_cli_sys (demo_cli 0 2 2 2 [1, 2, 3])) = (pp, h)
     \<and> cp_phase pp = PhEnded (Inr ())
     \<and> slow_chunks demo_hash (demo_cli_env [9] (demo_cli_md 2 2 [1, 2, 3])) demo_cli_key (demo_cli_md 2 2 [1, 2, 3])
         (path_of ''/f'') (conn_open (cli_frames (demo_cli 0 2 2 2 [1, 2, 3]) 0)) Map.empty = (Inr (), c', fs')
     \<and> fs' (path_of ''/f'') = ch_fs h (path_of ''/f'')"
proof -
  let ?H = "demo_cli 0 2 2 2 [1, 2, 3]" and ?E = "demo_cli_env [9] (demo_cli_md 2 2 [1, 2, 3])"
  have H: "honest demo_hash demo_cli_ctx ?H" by (rule demo_cli_honest) simp_all
  have st: "cli_started demo_cli_ctx ?H (demo_cli_sys ?H)" by (simp add: demo_cli_started)
  obtain cs pp h where cs: "\<forall>ch \<in> set cs. plain_choice ch" "length (filter is_frame cs) \<le> hn_n ?H"
    and run: "cli_run demo_hash demo_cli_ctx cs (demo_cli_sys ?H) = (pp, h)" "cp_phase pp = PhEnded (Inr ())"
    by (rule demo_cli_ends [OF H st])
  have zero: "hn_first ?H = 0" "hn_block ?H = unat (hn_cs ?H)" by (simp_all add: demo_cli_md_def)
  have E: "ce_crypto ?E = cx_crypto demo_cli_ctx" "ce_zstd ?E = cx_zstd demo_cli_ctx"
      "can_store (ce_io ?E) (hn_path ?H)" "io_readable (ce_io ?E) (hn_path ?H)"
    by (simp_all add: demo_cli_env_def demo_cli_ctx_def can_store_def io_all_def)
  have c: "cn_in (conn_open (cli_frames ?H 0)) = cli_frames ?H 0" "cn_sends (conn_open (cli_frames ?H 0)) = []"
      "length (file_at (hn_path ?H) Map.empty) \<le> length (hn_src ?H)"
    by (simp_all add: conn_open_def file_at_def opt_default_def)
  have "cx_key demo_cli_ctx = demo_cli_key" by (simp add: demo_cli_ctx_def)
  with cli_receivers_agree [OF H zero st cs run E c] obtain c' fs' where
    "slow_chunks demo_hash ?E demo_cli_key (demo_cli_md 2 2 [1, 2, 3]) (path_of ''/f'')
         (conn_open (cli_frames ?H 0)) Map.empty = (Inr (), c', fs')"
    "fs' (path_of ''/f'') = ch_fs h (path_of ''/f'')" by auto
  with run show ?thesis by blast
qed

end
