(* ===== verification/Short_Id.thy ===== *)
theory Short_Id
  imports Hashing
begin

text \<open>
  \<open>crypto/identity.rs\<close>: the eight-digit identifier of a device and the secret key derived
  from it. Texts are those of one-byte characters; \<open>trim\<close> removes ASCII white space. The
  digest is the parameter of Hashing and a secret key is its 32 bytes.
\<close>

section \<open>Normalising\<close>

definition is_space :: "char \<Rightarrow> bool" where
  "is_space c = (let n = (of_char c :: nat) in (9 \<le> n \<and> n \<le> 13) \<or> n = 32)"

definition trim :: "string \<Rightarrow> string" where
  "trim s = rev (dropWhile is_space (rev (dropWhile is_space s)))"

definition upper_char :: "char \<Rightarrow> char" where
  "upper_char c = (let n = (of_char c :: nat) in if 97 \<le> n \<and> n \<le> 122 then char_of (n - 32) else c)"

definition is_hexdigit :: "char \<Rightarrow> bool" where
  "is_hexdigit c = (let n = (of_char c :: nat) in
     (48 \<le> n \<and> n \<le> 57) \<or> (65 \<le> n \<and> n \<le> 70) \<or> (97 \<le> n \<and> n \<le> 102))"

section \<open>Keys and identifiers\<close>

definition KEY_SALT :: "byte list" where "KEY_SALT = bytes_of ''tryp2p_deterministic_key_v1''"

definition derive_secret_key_from_short_id :: "'h hash_lib \<Rightarrow> string \<Rightarrow> string + byte list" where
  "derive_secret_key_from_short_id L short_id =
     (let normalized = map upper_char (trim short_id) in
      if length normalized \<noteq> 8 then Inl ''Short ID must be exactly 8 characters.''
      else if \<not> list_all is_hexdigit normalized then
        Inl ''Short ID must contain only hex characters (0-9, A-F).''
      else let hasher = hl_new L;
               hasher = hl_update L hasher KEY_SALT;
               hasher = hl_update L hasher (bytes_of normalized)
           in Inr (hl_finalize L hasher))"

text \<open>Eight draws of an index below sixteen.\<close>

definition hex_chars :: string where "hex_chars = ''0123456789ABCDEF''"

definition generate_random_short_id :: "(nat \<Rightarrow> nat) \<Rightarrow> string" where
  "generate_random_short_id draw = map (\<lambda>i. hex_chars ! draw i) [0..<8]"

section \<open>What is accepted\<close>

lemma dropWhile_space_append:
  "list_all is_space xs \<Longrightarrow> ys = [] \<or> \<not> is_space (hd ys) \<Longrightarrow> dropWhile is_space (xs @ ys) = ys"
  by (induction xs) (cases ys, auto)

lemma trim_pad:
  assumes "list_all is_space l" "list_all is_space r" "t = [] \<or> \<not> is_space (hd t) \<and> \<not> is_space (last t)"
  shows "trim (l @ t @ r) = t"
proof (cases "t = []")
  case True
  have "dropWhile is_space (l @ r) = []"
    using assms by (simp only: dropWhile_eq_Nil_conv) (auto simp: list_all_iff)
  with True show ?thesis by (simp only: trim_def append_Nil dropWhile.simps rev.simps)
next
  case False
  have "dropWhile is_space (l @ t @ r) = t @ r"
    using assms False by (intro dropWhile_space_append) auto
  moreover have "dropWhile is_space (rev r @ rev t) = rev t"
    using assms False by (intro dropWhile_space_append) (auto simp: list_all_iff hd_rev)
  ultimately show ?thesis by (simp add: trim_def)
qed

lemma trim_no_space: "\<not> list_ex is_space s \<Longrightarrow> trim s = s"
proof -
  assume no: "\<not> list_ex is_space s"
  have "s = [] \<or> \<not> is_space (hd s) \<and> \<not> is_space (last s)"
    using no by (cases "s = []") (auto simp: list_ex_iff)
  then show ?thesis using trim_pad [of "[]" "[]" s] by simp
qed

lemma trim_ends: "trim s = [] \<or> \<not> is_space (hd (trim s)) \<and> \<not> is_space (last (trim s))"
proof (cases "trim s = []")
  case False
  let ?u = "dropWhile is_space s" and ?w = "dropWhile is_space (rev (dropWhile is_space s))"
  have w: "?w \<noteq> []" using False by (simp add: trim_def)
  obtain p where "rev ?u = p @ ?w" by (metis takeWhile_dropWhile_id)
  then have "?u = rev ?w @ rev p" by (metis rev_append rev_rev_ident)
  moreover have u: "?u \<noteq> []" using w by (metis dropWhile.simps(1) rev.simps(1))
  ultimately have "hd (rev ?w) = hd ?u" using w by (metis Nil_is_rev_conv hd_append2)
  with w hd_dropWhile [of is_space s] hd_dropWhile [of is_space "rev ?u"] u
  show ?thesis by (simp add: trim_def last_rev)
qed simp

lemma hex_char_facts:
  assumes "c \<in> set hex_chars"
  shows "is_hexdigit c" "\<not> is_space c" "upper_char c = c"
proof -
  have "list_all (\<lambda>c. is_hexdigit c \<and> \<not> is_space c \<and> upper_char c = c) hex_chars" by code_simp
  with assms show "is_hexdigit c" "\<not> is_space c" "upper_char c = c" by (auto simp: list_all_iff)
qed

lemma generated_hex:
  assumes "\<forall>i. draw i < 16"
  shows "set (generate_random_short_id draw) \<subseteq> set hex_chars" "length (generate_random_short_id draw) = 8"
proof -
  have "length hex_chars = 16" by (simp add: hex_chars_def)
  with assms have "hex_chars ! draw i \<in> set hex_chars" for i by (intro nth_mem) simp
  then show "set (generate_random_short_id draw) \<subseteq> set hex_chars" "length (generate_random_short_id draw) = 8"
    by (auto simp: generate_random_short_id_def)
qed

lemma map_upper_hex: "set s \<subseteq> set hex_chars \<Longrightarrow> map upper_char s = s"
  by (induction s) (auto simp: hex_char_facts)

text \<open>
  A generated identifier is always accepted, also after its letters have been written in
  lower case or spaces added around it, and gives the same key each time: the digest of the
  salt followed by its eight upper-case digits.
\<close>

theorem short_id_accepted:
  assumes "streaming_hash L" "\<forall>i. draw i < 16" "\<not> list_ex is_space t" "map upper_char t = generate_random_short_id draw"
    and "list_all is_space l" "list_all is_space r"
  shows "derive_secret_key_from_short_id L (l @ t @ r)
    = Inr (blake3_hash L (KEY_SALT @ bytes_of (generate_random_short_id draw)))"
proof -
  let ?g = "generate_random_short_id draw"
  note g = generated_hex [OF assms(2)]
  have len: "length t = 8" using g(2) assms(4) by (metis length_map)
  have "t \<noteq> []" using len by auto
  then have "hd t \<in> set t" "last t \<in> set t" by simp_all
  with assms(3) have "\<not> is_space (hd t)" "\<not> is_space (last t)" by (auto simp: list_ex_iff)
  with trim_pad [OF assms(5,6)] have "trim (l @ t @ r) = t" by blast
  moreover have "list_all is_hexdigit ?g" using g(1) by (auto simp: list_all_iff hex_char_facts)
  ultimately show ?thesis
    using assms(4) g(2) len streaming_hash_segs [OF assms(1), of "[KEY_SALT, bytes_of ?g]"]
    by (simp add: derive_secret_key_from_short_id_def Let_def)
qed

theorem short_id_accepted_witness:
  "derive_secret_key_from_short_id demo_hash ('' abc01234 '')
    = Inr (blake3_hash demo_hash (KEY_SALT @ bytes_of ''ABC01234''))"
proof -
  let ?draw = "\<lambda>i :: nat. [10, 11, 12, 0, 1, 2, 3, 4 :: nat] ! (i mod 8)"
  have gen: "generate_random_short_id ?draw = ''ABC01234''" by code_simp
  have lt: "\<forall>i. ?draw i < 16"
  proof
    fix i :: nat
    have "list_all (\<lambda>x. x < (16 :: nat)) [10, 11, 12, 0, 1, 2, 3, 4]" by simp
    then have "\<forall>k < length [10, 11, 12, 0, 1, 2, 3, 4 :: nat]. [10, 11, 12, 0, 1, 2, 3, 4 :: nat] ! k < 16"
      by (simp only: list_all_length)
    moreover have "i mod 8 < length [10, 11, 12, 0, 1, 2, 3, 4 :: nat]" by simp
    ultimately show "?draw i < 16" by blast
  qed
  have t: "\<not> list_ex is_space ''abc01234''" "map upper_char ''abc01234'' = ''ABC01234''" "list_all is_space '' ''"
    by (simp add: is_space_def, code_simp, simp add: is_space_def)
  have "map upper_char ''abc01234'' = generate_random_short_id ?draw" unfolding gen by (rule t(2))
  from short_id_accepted [OF demo_hash_streaming lt t(1) this t(3) t(3), unfolded gen] show ?thesis
    by (simp only: append.simps)
qed

end
