(* ===== verification/Cli_Config.thy ===== *)
theory Cli_Config
  imports Framing Short_Id Net_Addr
begin

text \<open>
  The configuration of the command line tool (\<open>desktop/p2ptransfer-cli/src/main.rs\<close>): its
  defaults, the settings of \<open>config --set\<close>, loading and saving, and the choice of the command
  in \<open>main\<close>. TOML is the parameter \<open>toml_lib\<close>; the text of a file is a string. Arguments reach
  the model parsed, with the defaults of the parser as definitions.
\<close>

section \<open>The configuration\<close>

record p2p_config =
  cf_tcp_port :: u16
  cf_chunk_size :: usize
  cf_compression_level :: int
  cf_discovery_port :: u16
  cf_data_dir :: path
  cf_relay_server :: "string option"
  cf_connections :: usize

definition default_tcp_port :: u16 where "default_tcp_port = DEFAULT_TCP_PORT"
definition default_chunk_size :: usize where "default_chunk_size = 16 * 1024 * 1024"
definition default_compression :: int where "default_compression = 0"
definition default_discovery_port :: u16 where "default_discovery_port = 9876"
definition default_connections :: usize where "default_connections = 4"

definition default_data_dir :: "path option \<Rightarrow> path" where
  "default_data_dir data_dir = path_join (opt_default (path_of ''.'') data_dir) (path_of ''p2p'')"

definition config_default :: "path option \<Rightarrow> p2p_config" where
  "config_default data_dir =
     \<lparr>cf_tcp_port = default_tcp_port, cf_chunk_size = default_chunk_size,
      cf_compression_level = default_compression, cf_discovery_port = default_discovery_port,
      cf_data_dir = default_data_dir data_dir, cf_relay_server = None,
      cf_connections = default_connections\<rparr>"

definition get_default_config_path :: "path option \<Rightarrow> path" where
  "get_default_config_path config_dir =
     path_join (path_join (opt_default (path_of ''.'') config_dir) (path_of ''p2p'')) (path_of ''config.toml'')"

section \<open>Settings\<close>

fun split_once :: "char \<Rightarrow> string \<Rightarrow> (string \<times> string) option" where
  "split_once c [] = None"
| "split_once c (x # xs) =
     (if x = c then Some ([], xs)
      else map_option (\<lambda>(k, v). (x # k, v)) (split_once c xs))"

text \<open>\<open>str::parse\<close> at \<open>u16\<close>, \<open>usize\<close> and \<open>i32\<close>.\<close>

definition parse_u16 :: "string \<Rightarrow> u16 option" where
  "parse_u16 s = map_option word_of_nat (parse_nat_below (2 ^ 16) s)"

definition parse_usize :: "string \<Rightarrow> usize option" where
  "parse_usize s = map_option word_of_nat (parse_nat_below (2 ^ 64) s)"

definition parse_i32 :: "string \<Rightarrow> int option" where
  "parse_i32 s =
     (case s of
        [] \<Rightarrow> None
      | c # ds \<Rightarrow>
          if c \<noteq> CHR ''-'' then map_option int (parse_nat_below (2 ^ 31) s)
          else if ds = [] then None
          else (case parse_digits 0 ds of
                  None \<Rightarrow> None
                | Some n \<Rightarrow> if n \<le> 2 ^ 31 then Some (- int n) else None))"

text \<open>
  The configuration is a mutable reference: a level out of range has been stored when the
  error is returned.
\<close>

definition apply_config_setting :: "p2p_config \<Rightarrow> string \<Rightarrow> (string + unit) \<times> p2p_config" where
  "apply_config_setting config kv =
     (case split_once CHR ''='' kv of
        None \<Rightarrow> (Inl ''Format: KEY=VALUE'', config)
      | Some (key, value) \<Rightarrow>
     (if trim key = ''tcp_port'' then
        (case parse_u16 (trim value) of
           None \<Rightarrow> (Inl ''tcp_port must be a number'', config)
         | Some n \<Rightarrow> (Inr (), config\<lparr>cf_tcp_port := n\<rparr>))
      else if trim key = ''chunk_size'' then
        (case parse_usize (trim value) of
           None \<Rightarrow> (Inl ''chunk_size must be a number'', config)
         | Some n \<Rightarrow> (Inr (), config\<lparr>cf_chunk_size := n\<rparr>))
      else if trim key = ''compression_level'' then
        (case parse_i32 (trim value) of
           None \<Rightarrow> (Inl ''compression_level must be a number'', config)
         | Some n \<Rightarrow>
             let config = config\<lparr>cf_compression_level := n\<rparr> in
             if \<not> (1 \<le> cf_compression_level config \<and> cf_compression_level config \<le> 22)
             then (Inl ''compression_level must be 1-22'', config)
             else (Inr (), config))
      else if trim key = ''discovery_port'' then
        (case parse_u16 (trim value) of
           None \<Rightarrow> (Inl ''discovery_port must be a number'', config)
         | Some n \<Rightarrow> (Inr (), config\<lparr>cf_discovery_port := n\<rparr>))
      else if trim key = ''relay_server'' then
        (Inr (), config\<lparr>cf_relay_server := Some (trim value)\<rparr>)
      else (Inl (''Unknown config key: '' @ key
          @ ''. Valid keys: tcp_port, chunk_size, compression_level, discovery_port, relay_server''),
        config)))"

section \<open>Loading and saving\<close>

record toml_lib =
  tl_from_str :: "string \<Rightarrow> p2p_config option"
  tl_to_string :: "p2p_config \<Rightarrow> string + string"

text \<open>What is written can be read back.\<close>

definition toml_roundtrip :: "toml_lib \<Rightarrow> bool" where
  "toml_roundtrip T \<longleftrightarrow> (\<forall>c s. tl_to_string T c = Inr s \<longrightarrow> tl_from_str T s = Some c)"

record main_env =
  me_toml :: toml_lib
  me_readable :: "path \<Rightarrow> bool"
  me_writable :: "path \<Rightarrow> bool"
  me_mkdir :: "path \<Rightarrow> bool"
  me_config_dir :: "path option"
  me_data_dir :: "path option"

type_synonym text_files = "path \<Rightarrow> string option"

definition config_load :: "main_env \<Rightarrow> text_files \<Rightarrow> path \<Rightarrow> string + p2p_config" where
  "config_load M fs p =
     (case fs p of
        None \<Rightarrow> Inl (''Failed to read config file: '' @ path_text p)
      | Some content \<Rightarrow>
     (if \<not> me_readable M p then Inl (''Failed to read config file: '' @ path_text p)
      else ok_or ''Failed to parse config file'' (tl_from_str (me_toml M) content)))"

definition config_save :: "main_env \<Rightarrow> p2p_config \<Rightarrow> path \<Rightarrow> text_files \<Rightarrow> (string + unit) \<times> text_files" where
  "config_save M config p fs =
     (if (case parent p of Some d \<Rightarrow> \<not> me_mkdir M d | None \<Rightarrow> False) then (Inl ''create_dir_all'', fs)
      else case tl_to_string (me_toml M) config of
        Inl e \<Rightarrow> (Inl e, fs)
      | Inr content \<Rightarrow>
          if \<not> me_writable M p then (Inl ''write'', fs) else (Inr (), fs(p \<mapsto> content)))"

section \<open>The commands\<close>

datatype contacts_action = ContactsList | ContactsRemove string

datatype command =
  Send path string int usize "usize option" "string option"
| Listen u16 string "string option"
| ListPeers u64
| ResumeT string
| History
| Status
| Config bool "string option" bool
| Relay u16
| Whoami string
| Contacts contacts_action
| SlowReceive string u64

record cli =
  cli_command :: command
  cli_config :: "path option"
  cli_daemon :: bool

text \<open>The defaults of the argument parser.\<close>

definition arg_send :: "path \<Rightarrow> string \<Rightarrow> command" where
  "arg_send p peer = Send p peer 10 (16 * 1024 * 1024) None None"

definition arg_listen :: command where
  "arg_listen = Listen DEFAULT_TCP_PORT ''.'' None"

definition arg_list :: command where "arg_list = ListPeers 10"
definition arg_relay :: command where "arg_relay = Relay 9878"
definition arg_slow_receive :: command where "arg_slow_receive = SlowReceive ''.'' 500"

text \<open>
  What \<open>main\<close> does: an error, a message and success, or the command handler it calls with
  its arguments and the configuration.
\<close>

datatype main_result =
  Failed_With string
| Printed string
| Show_Config p2p_config path
| Run_Send path string int usize "string option" "usize option" p2p_config
| Run_Listen u16 string "string option" p2p_config
| Run_List u64 p2p_config
| Run_Resume string p2p_config
| Run_History p2p_config
| Run_Status p2p_config
| Run_Relay u16
| Run_Whoami string p2p_config
| Run_Contacts contacts_action p2p_config
| Run_Slow_Receive string u64 p2p_config

definition load_or_create ::
  "main_env \<Rightarrow> path \<Rightarrow> text_files \<Rightarrow> (string + p2p_config) \<times> text_files" where
  "load_or_create M config_path fs =
     (if fs config_path \<noteq> None then (config_load M fs config_path, fs)
      else let config = config_default (me_data_dir M) in
        case config_save M config config_path fs of
          (Inl e, fs) \<Rightarrow> (Inl e, fs)
        | (Inr _, fs) \<Rightarrow> (Inr config, fs))"

definition config_command ::
  "main_env \<Rightarrow> p2p_config \<Rightarrow> path \<Rightarrow> bool \<Rightarrow> string option \<Rightarrow> bool \<Rightarrow> text_files
     \<Rightarrow> main_result \<times> text_files" where
  "config_command M config config_path show_it set_it reset fs =
     (if reset then
        (case config_save M (config_default (me_data_dir M)) config_path fs of
           (Inl e, fs) \<Rightarrow> (Failed_With e, fs)
         | (Inr _, fs) \<Rightarrow> (Printed (''Config reset to defaults at '' @ path_text config_path), fs))
      else case set_it of
        Some kv \<Rightarrow>
          (case (if fs config_path \<noteq> None then config_load M fs config_path
                 else Inr (config_default (me_data_dir M))) of
             Inl e \<Rightarrow> (Failed_With e, fs)
           | Inr config \<Rightarrow>
          (case apply_config_setting config kv of
             (Inl e, config) \<Rightarrow> (Failed_With e, fs)
           | (Inr _, config) \<Rightarrow>
          (case config_save M config config_path fs of
             (Inl e, fs) \<Rightarrow> (Failed_With e, fs)
           | (Inr _, fs) \<Rightarrow> (Printed (''Set config: '' @ kv), fs))))
      | None \<Rightarrow>
          if show_it then (Show_Config config config_path, fs)
          else (Printed (''Config path: '' @ path_text config_path @ [CHR 10]
            @ ''Use --show to display, --set KEY=VALUE to modify, --reset for defaults.''), fs))"

definition main :: "main_env \<Rightarrow> cli \<Rightarrow> text_files \<Rightarrow> main_result \<times> text_files" where
  "main M args fs =
     (let config_path = opt_default (get_default_config_path (me_config_dir M)) (cli_config args) in
      case load_or_create M config_path fs of
        (Inl e, fs) \<Rightarrow> (Failed_With e, fs)
      | (Inr config, fs) \<Rightarrow>
          if cli_daemon args then (Run_Listen (cf_tcp_port config) ''.'' None config, fs)
          else case cli_command args of
            Send p peer compression chunk_size connections relay \<Rightarrow>
              (Run_Send p peer compression chunk_size relay connections config, fs)
          | Listen port output relay \<Rightarrow> (Run_Listen port output relay config, fs)
          | ListPeers duration \<Rightarrow> (Run_List duration config, fs)
          | ResumeT transfer_id \<Rightarrow> (Run_Resume transfer_id config, fs)
          | History \<Rightarrow> (Run_History config, fs)
          | Status \<Rightarrow> (Run_Status config, fs)
          | Relay port \<Rightarrow> (Run_Relay port, fs)
          | Whoami name \<Rightarrow> (Run_Whoami name config, fs)
          | Contacts action \<Rightarrow> (Run_Contacts action config, fs)
          | SlowReceive output delay \<Rightarrow> (Run_Slow_Receive output delay config, fs)
          | Config show_it set_it reset \<Rightarrow> config_command M config config_path show_it set_it reset fs)"

text \<open>Two commands that only fail.\<close>

definition cmd_relay :: "u16 \<Rightarrow> string + unit" where "cmd_relay port = Inl ''relay disabled''"
definition cmd_whoami :: "string \<Rightarrow> p2p_config \<Rightarrow> string + unit" where
  "cmd_whoami name config = Inl ''whoami disabled''"

section \<open>What a setting does\<close>

text \<open>
  The settings, each with the texts of its key and of its value and with its effect on the
  configuration.
\<close>

datatype setting =
  SetTcpPort u16
| SetChunkSize usize
| SetCompression int
| SetDiscoveryPort u16
| SetRelay string

fun set_key :: "setting \<Rightarrow> string" where
  "set_key (SetTcpPort n) = ''tcp_port''"
| "set_key (SetChunkSize n) = ''chunk_size''"
| "set_key (SetCompression i) = ''compression_level''"
| "set_key (SetDiscoveryPort n) = ''discovery_port''"
| "set_key (SetRelay s) = ''relay_server''"

fun set_text :: "setting \<Rightarrow> string" where
  "set_text (SetTcpPort n) = show_nat (unat n)"
| "set_text (SetChunkSize n) = show_nat (unat n)"
| "set_text (SetCompression i) = show_nat (nat i)"
| "set_text (SetDiscoveryPort n) = show_nat (unat n)"
| "set_text (SetRelay s) = s"

fun set_valid :: "setting \<Rightarrow> bool" where
  "set_valid (SetCompression i) = (1 \<le> i \<and> i \<le> 22)"
| "set_valid (SetRelay s) = (s = [] \<or> \<not> is_space (hd s) \<and> \<not> is_space (last s))"
| "set_valid _ = True"

fun set_apply :: "setting \<Rightarrow> p2p_config \<Rightarrow> p2p_config" where
  "set_apply (SetTcpPort n) c = c\<lparr>cf_tcp_port := n\<rparr>"
| "set_apply (SetChunkSize n) c = c\<lparr>cf_chunk_size := n\<rparr>"
| "set_apply (SetCompression i) c = c\<lparr>cf_compression_level := i\<rparr>"
| "set_apply (SetDiscoveryPort n) c = c\<lparr>cf_discovery_port := n\<rparr>"
| "set_apply (SetRelay s) c = c\<lparr>cf_relay_server := Some s\<rparr>"

lemma split_once_append: "c \<notin> set k \<Longrightarrow> split_once c (k @ c # v) = Some (k, v)"
  by (induction k) auto

lemma show_nat_no_space: "show_nat n \<noteq> [] \<and> \<not> is_space (hd (show_nat n)) \<and> \<not> is_space (last (show_nat n))"
proof -
  have ne: "show_nat n \<noteq> []" using show_nat_Cons [of n] by auto
  have "\<not> is_space c" if c: "c \<in> set (show_nat n)" for c
  proof -
    obtain d where "d < 10" "c = digit_char d" using show_nat_digits [OF c] by blast
    then show ?thesis by (simp add: is_space_def digit_char_def Let_def)
  qed
  with ne show ?thesis by simp
qed

lemma parse_show_words:
  "parse_u16 (show_nat (unat (p :: u16))) = Some p"
  "parse_usize (show_nat (unat (w :: usize))) = Some w"
proof -
  have "unat p < 2 ^ 16" "unat w < 2 ^ 64" using unsigned_less [of p] unsigned_less [of w] by simp_all
  then show "parse_u16 (show_nat (unat p)) = Some p" "parse_usize (show_nat (unat w)) = Some w"
    by (simp_all only: parse_u16_def parse_usize_def parse_nat_below_show) simp_all
qed

lemma parse_i32_show: "n < 2 ^ 31 \<Longrightarrow> parse_i32 (show_nat n) = Some (int n)"
proof -
  assume n: "n < 2 ^ 31"
  obtain d cs where s: "show_nat n = digit_char d # cs" "d < 10" using show_nat_Cons by blast
  have "digit_char d \<noteq> CHR ''-''"
  proof
    assume "digit_char d = CHR ''-''"
    then have "digit_val (digit_char d) = digit_val CHR ''-''" by simp
    with s(2) have "digit_val CHR ''-'' = Some d" by simp
    moreover have "digit_val CHR ''-'' = None" by code_simp
    ultimately show False by simp
  qed
  then show ?thesis using parse_nat_below_show [OF n] s(1)
    by (simp add: parse_i32_def)
qed

lemma parse_level: "1 \<le> i \<Longrightarrow> i \<le> 22 \<Longrightarrow> parse_i32 (show_nat (nat i)) = Some i"
  using parse_i32_show [of "nat i"] by simp

lemma set_key_facts:
  "CHR ''='' \<notin> set (set_key s)" "set_key s \<noteq> []" "\<not> is_space (hd (set_key s))" "\<not> is_space (last (set_key s))"
  by (cases s; simp add: is_space_def)+

lemma set_text_ends: "set_valid s \<Longrightarrow> set_text s = [] \<or> \<not> is_space (hd (set_text s)) \<and> \<not> is_space (last (set_text s))"
  using show_nat_no_space by (cases s) auto

lemma apply_setting:
  assumes "set_valid s" "list_all is_space (l @ r)" "list_all is_space (l' @ r')"
  shows "apply_config_setting c (l @ set_key s @ r @ CHR ''='' # l' @ set_text s @ r') = (Inr (), set_apply s c)"
proof -
  have "CHR ''='' \<notin> set (l @ set_key s @ r)"
  proof -
    have "\<not> is_space CHR ''=''" by code_simp
    then show ?thesis using assms(2) set_key_facts(1) [of s] by (auto simp: list_all_iff)
  qed
  moreover define K V where "K = l @ set_key s @ r" "V = l' @ set_text s @ r'"
  ultimately have "split_once CHR ''='' (K @ CHR ''='' # V) = Some (K, V)" by (intro split_once_append) simp
  moreover have "trim K = set_key s"
    unfolding K_V_def using assms(2) set_key_facts [of s] by (intro trim_pad) simp_all
  moreover have "trim V = set_text s"
    unfolding K_V_def using assms(1,3) set_text_ends [of s] by (intro trim_pad) simp_all
  ultimately have "apply_config_setting c (K @ CHR ''='' # V) = (Inr (), set_apply s c)"
    using assms(1) by (cases s) (simp_all add: apply_config_setting_def parse_show_words parse_level Let_def)
  then show ?thesis by (simp add: K_V_def)
qed

lemma apply_setting_sound:
  assumes "apply_config_setting c kv = (Inr (), c')"
  shows "\<exists>s. set_valid s \<and> c' = set_apply s c"
proof -
  obtain key v where kv: "split_once CHR ''='' kv = Some (key, v)"
    using assms by (cases "split_once CHR ''='' kv") (auto simp: apply_config_setting_def)
  note app = assms [unfolded apply_config_setting_def kv option.case prod.case]
  consider "trim key = ''tcp_port''" | "trim key = ''chunk_size''" | "trim key = ''compression_level''"
    | "trim key = ''discovery_port''" | "trim key = ''relay_server''"
    using app by (auto split: if_splits)
  then show ?thesis
  proof cases
    case 1
    with app obtain n where "c' = c\<lparr>cf_tcp_port := n\<rparr>" by (auto split: option.splits)
    then show ?thesis by (intro exI [of _ "SetTcpPort n"]) simp
  next
    case 2
    with app obtain n where "c' = c\<lparr>cf_chunk_size := n\<rparr>" by (auto split: option.splits)
    then show ?thesis by (intro exI [of _ "SetChunkSize n"]) simp
  next
    case 3
    with app obtain n where "1 \<le> n" "n \<le> 22" "c' = c\<lparr>cf_compression_level := n\<rparr>"
      by (auto simp: Let_def split: option.splits if_splits)
    then show ?thesis by (intro exI [of _ "SetCompression n"]) simp
  next
    case 4
    with app obtain n where "c' = c\<lparr>cf_discovery_port := n\<rparr>" by (auto split: option.splits)
    then show ?thesis by (intro exI [of _ "SetDiscoveryPort n"]) simp
  next
    case 5
    with app have "c' = c\<lparr>cf_relay_server := Some (trim v)\<rparr>" by simp
    with trim_ends [of v] show ?thesis by (intro exI [of _ "SetRelay (trim v)"]) simp
  qed
qed

text \<open>
  C32. The settings that succeed are exactly the valid ones: each changes its field and no other,
  and in particular no setting gives a compression level outside 1 to 22.
\<close>

theorem config_settings_exact:
  "(\<exists>kv. apply_config_setting c kv = (Inr (), c')) \<longleftrightarrow> (\<exists>s. set_valid s \<and> c' = set_apply s c)"
proof
  show "\<exists>kv. apply_config_setting c kv = (Inr (), c') \<Longrightarrow> \<exists>s. set_valid s \<and> c' = set_apply s c"
    using apply_setting_sound by blast
  show "\<exists>s. set_valid s \<and> c' = set_apply s c \<Longrightarrow> \<exists>kv. apply_config_setting c kv = (Inr (), c')"
    using apply_setting [of _ "[]" "[]" "[]" "[]" c] by auto
qed

section \<open>Across runs\<close>

definition args_config :: "path \<Rightarrow> string \<Rightarrow> cli" where
  "args_config p kv = \<lparr>cli_command = Config False (Some kv) False, cli_config = Some p, cli_daemon = False\<rparr>"

definition setting_text :: "setting \<Rightarrow> string" where
  "setting_text s = set_key s @ ''='' @ set_text s"

lemma apply_setting_text: "set_valid s \<Longrightarrow> apply_config_setting c (setting_text s) = (Inr (), set_apply s c)"
  using apply_setting [of s "[]" "[]" "[]" "[]" c] by (simp add: setting_text_def)

lemma config_save_load:
  assumes "toml_roundtrip (me_toml M)" "me_readable M p" "config_save M c p fs = (Inr (), fs')"
  shows "config_load M fs' p = Inr c \<and> fs' p \<noteq> None"
  using assms by (auto simp: config_save_def config_load_def toml_roundtrip_def split: option.splits if_splits sum.splits)

lemma load_or_create_load:
  assumes "toml_roundtrip (me_toml M)" "me_readable M p" "load_or_create M p fs = (Inr c, fs')"
  shows "config_load M fs' p = Inr c \<and> fs' p \<noteq> None"
proof (cases "fs p")
  case None
  with assms(3) have "config_save M c p fs = (Inr (), fs')"
    by (auto simp: load_or_create_def Let_def split: prod.splits sum.splits)
  with config_save_load [OF assms(1,2)] show ?thesis by blast
qed (use assms(3) in \<open>auto simp: load_or_create_def\<close>)

text \<open>
  C31. A setting survives the run that makes it: when a run with \<open>config --set key=value\<close>
  reports success, with a key and the printed text of a valid value, the next run, whatever
  its command, starts from the configuration of the last run with this one field replaced.
\<close>

theorem config_set_persists:
  assumes "toml_roundtrip (me_toml M)" "me_readable M p" "set_valid s"
    and "load_or_create M p fs = (Inr c, fs1)"
    and "main M (args_config p (setting_text s)) fs = (Printed m, fs')"
  shows "load_or_create M p fs' = (Inr (set_apply s c), fs')"
proof -
  from load_or_create_load [OF assms(1,2,4)] have l: "config_load M fs1 p = Inr c" "\<exists>t. fs1 p = Some t" by auto
  have "config_save M (set_apply s c) p fs1 = (Inr (), fs')"
    using assms(5) l apply_setting_text [OF assms(3)]
    by (auto simp: main_def args_config_def opt_default_def assms(4) config_command_def Let_def split: prod.splits sum.splits)
  from config_save_load [OF assms(1,2) this] show ?thesis by (auto simp: load_or_create_def)
qed

lemma main_unparsable:
  assumes "opt_default (get_default_config_path (me_config_dir M)) (cli_config args) = p"
    and "fs p = Some content" "tl_from_str (me_toml M) content = None"
  shows "\<exists>e. main M args fs = (Failed_With e, fs)"
  using assms by (auto simp: main_def load_or_create_def config_load_def Let_def)

text \<open>
  A configuration file that does not parse stops every command with an error and stays
  as it is; that holds for \<open>config --reset\<close> too, which is meant to replace it.
\<close>

theorem corrupt_config_blocks_reset:
  assumes "fs p = Some content" "tl_from_str (me_toml M) content = None" "cli_config args = Some p"
  shows "\<exists>e. main M args fs = (Failed_With e, fs)"
  using main_unparsable [of M args p fs content] assms by (simp add: opt_default_def)

section \<open>At a concrete run\<close>

text \<open>A TOML library of one text only, enough to change a port of the defaults.\<close>

definition demo_toml :: toml_lib where
  "demo_toml = \<lparr>tl_from_str = (\<lambda>t. if t = ''a'' then Some (config_default None)
       else if t = ''b'' then Some ((config_default None)\<lparr>cf_tcp_port := 80\<rparr>) else None),
     tl_to_string = (\<lambda>c. if c = config_default None then Inr ''a''
       else if c = (config_default None)\<lparr>cf_tcp_port := 80\<rparr> then Inr ''b'' else Inl ''unsupported'')\<rparr>"

definition demo_main_env :: main_env where
  "demo_main_env = \<lparr>me_toml = demo_toml, me_readable = (\<lambda>_. True), me_writable = (\<lambda>_. True),
     me_mkdir = (\<lambda>_. True), me_config_dir = None, me_data_dir = None\<rparr>"

lemma demo_port_differs: "(config_default None)\<lparr>cf_tcp_port := 80\<rparr> \<noteq> config_default None"
  by (simp add: config_default_def default_tcp_port_def DEFAULT_TCP_PORT_def)

lemma demo_toml_roundtrip: "toml_roundtrip demo_toml"
  using demo_port_differs by (auto simp: toml_roundtrip_def demo_toml_def)

theorem config_set_persists_witness:
  "\<exists>fs'. main demo_main_env (args_config (path_of ''/c'') ''tcp_port=80'') Map.empty = (Printed ''Set config: tcp_port=80'', fs')
     \<and> load_or_create demo_main_env (path_of ''/c'') fs' = (Inr ((config_default None)\<lparr>cf_tcp_port := 80\<rparr>), fs')"
proof -
  let ?p = "path_of ''/c''" and ?s = "SetTcpPort 80" and ?c = "config_default None"
  have shown: "setting_text ?s = ''tcp_port=80''" by code_simp
  have start: "load_or_create demo_main_env ?p Map.empty = (Inr ?c, [?p \<mapsto> ''a''])"
    by (simp add: load_or_create_def config_save_def demo_main_env_def demo_toml_def Let_def split: option.splits)
  have loaded: "config_load demo_main_env [?p \<mapsto> ''a''] ?p = Inr ?c"
    by (simp add: config_load_def demo_main_env_def demo_toml_def)
  have ap: "apply_config_setting ?c (setting_text ?s) = (Inr (), set_apply ?s ?c)" by (rule apply_setting_text) simp
  have saved: "config_save demo_main_env (set_apply ?s ?c) ?p [?p \<mapsto> ''a''] = (Inr (), [?p \<mapsto> ''b''])"
    by (simp add: config_save_def demo_main_env_def demo_toml_def demo_port_differs split: option.splits)
  have "main demo_main_env (args_config ?p (setting_text ?s)) Map.empty
      = (Printed (''Set config: '' @ setting_text ?s), [?p \<mapsto> ''b''])"
    unfolding main_def args_config_def
    by (simp add: start opt_default_def config_command_def Let_def loaded ap saved [simplified])
  note run = this
  have "toml_roundtrip (me_toml demo_main_env)" "me_readable demo_main_env ?p" "set_valid ?s"
    by (simp_all add: demo_main_env_def demo_toml_roundtrip)
  from config_set_persists [OF this start run] run show ?thesis by (simp add: shown)
qed

theorem corrupt_config_blocks_reset_witness:
  "\<exists>e. main demo_main_env \<lparr>cli_command = Config False None True, cli_config = Some (path_of ''/c''), cli_daemon = False\<rparr>
     [path_of ''/c'' \<mapsto> ''x''] = (Failed_With e, [path_of ''/c'' \<mapsto> ''x''])"
  using corrupt_config_blocks_reset [of "[path_of ''/c'' \<mapsto> ''x'']" "path_of ''/c''" "''x''" demo_main_env]
  by (simp add: demo_main_env_def demo_toml_def)

end
