(* ===== verification/Discovery.thy ===== *)
theory Discovery
  imports Net_Addr "HOL-Library.AList"
begin

text \<open>
  \<open>p2p/discovery.rs\<close>, \<open>peer.rs\<close> and \<open>protocol.rs\<close>: the table of the peers heard of, and
  the three tasks of the service (sending beacons, listening, removing silent peers) as step
  machines that look at the flag \<open>running\<close> only between two waits. The table is an
  association list; the order of \<open>get_peers\<close> is the one of the hash map in the code. JSON is
  the parameter \<open>dec\<close>; the version of the package is a constant of the build.
\<close>

section \<open>Peers and beacons\<close>

definition DEFAULT_DISCOVERY_PORT :: u16 where "DEFAULT_DISCOVERY_PORT = 9876"
definition MULTICAST_GROUP :: string where "MULTICAST_GROUP = ''224.0.0.251''"
definition BEACON_INTERVAL_SECS :: nat where "BEACON_INTERVAL_SECS = 5"
definition PEER_TIMEOUT_SECS :: u64 where "PEER_TIMEOUT_SECS = 30"

type_synonym socket_addr = "ipv4 \<times> u16"

record beacon =
  bc_device_name :: string
  bc_version :: string
  bc_tcp_port :: u16
  bc_node_id :: "string option"

record peer_info =
  pi_device_name :: string
  pi_version :: string
  pi_tcp_port :: u16
  pi_socket_addr :: socket_addr
  pi_last_seen :: u64
  pi_node_id :: "string option"

definition peer_new :: "string \<Rightarrow> u64 \<Rightarrow> string \<Rightarrow> u16 \<Rightarrow> socket_addr \<Rightarrow> peer_info" where
  "peer_new version now device_name tcp_port addr =
     \<lparr>pi_device_name = device_name, pi_version = version, pi_tcp_port = tcp_port,
      pi_socket_addr = addr, pi_last_seen = now, pi_node_id = None\<rparr>"

definition peer_touch :: "u64 \<Rightarrow> peer_info \<Rightarrow> peer_info" where
  "peer_touch now p = p\<lparr>pi_last_seen := now\<rparr>"

definition peer_is_stale :: "u64 \<Rightarrow> u64 \<Rightarrow> peer_info \<Rightarrow> bool" where
  "peer_is_stale now timeout p = (sat_sub now (pi_last_seen p) > timeout)"

section \<open>The table\<close>

type_synonym peer_table = "(socket_addr \<times> peer_info) list"

text \<open>
  A beacon of a known peer refreshes it and, if it names a node, the node id; its device
  name and its version are not looked at again. A new peer gets the version of this build.
\<close>

definition hear_beacon :: "string \<Rightarrow> u64 \<Rightarrow> ipv4 \<Rightarrow> beacon \<Rightarrow> peer_table \<Rightarrow> peer_table" where
  "hear_beacon version now src_ip b ps =
     (let peer_addr = (src_ip, bc_tcp_port b) in
      case map_of ps peer_addr of
        Some peer \<Rightarrow>
          let peer = peer_touch now peer;
              peer = (if bc_node_id b \<noteq> None then peer\<lparr>pi_node_id := bc_node_id b\<rparr> else peer)
          in AList.update peer_addr peer ps
      | None \<Rightarrow>
          let peer = (peer_new version now (bc_device_name b) (bc_tcp_port b) peer_addr)
                       \<lparr>pi_node_id := bc_node_id b\<rparr>
          in AList.update peer_addr peer ps)"

definition cleanup_peers :: "u64 \<Rightarrow> peer_table \<Rightarrow> peer_table" where
  "cleanup_peers now ps = filter (\<lambda>(a, p). \<not> peer_is_stale now PEER_TIMEOUT_SECS p) ps"

section \<open>The service\<close>

text \<open>A task tests \<open>running\<close>, waits (for its timer or for a datagram), and tests again.\<close>

datatype task_pc = AtTest | Waiting | Finished

record discovery =
  ds_device_name :: string
  ds_tcp_port :: u16
  ds_node_id :: "string option"
  ds_bound_port :: u16
  ds_peers :: peer_table
  ds_running :: bool
  ds_beacon :: "beacon option"
  ds_tasks :: "(task_pc \<times> task_pc \<times> task_pc) option"
  ds_sent :: "(beacon \<times> string \<times> u16) list"

definition disc_new_with_node_id :: "string \<Rightarrow> u16 \<Rightarrow> u16 \<Rightarrow> string option \<Rightarrow> discovery" where
  "disc_new_with_node_id device_name tcp_port discovery_port node_id =
     \<lparr>ds_device_name = device_name, ds_tcp_port = tcp_port, ds_node_id = node_id,
      ds_bound_port = discovery_port, ds_peers = [], ds_running = False, ds_beacon = None,
      ds_tasks = None, ds_sent = []\<rparr>"

definition disc_new :: "string \<Rightarrow> u16 \<Rightarrow> u16 \<Rightarrow> discovery" where
  "disc_new device_name tcp_port discovery_port =
     disc_new_with_node_id device_name tcp_port discovery_port None"

definition set_node_id :: "string \<Rightarrow> discovery \<Rightarrow> discovery" where
  "set_node_id node_id d = d\<lparr>ds_node_id := Some node_id\<rparr>"

text \<open>
  A service is started once. The beacon is fixed when the service starts. It goes to the default port, whatever port
  the service itself has been bound to.
\<close>

definition disc_beacon :: "string \<Rightarrow> discovery \<Rightarrow> beacon" where
  "disc_beacon version d = \<lparr>bc_device_name = ds_device_name d, bc_version = version,
     bc_tcp_port = ds_tcp_port d, bc_node_id = ds_node_id d\<rparr>"

definition disc_start :: "string \<Rightarrow> discovery \<Rightarrow> discovery" where
  "disc_start version d = d\<lparr>ds_running := True, ds_beacon := Some (disc_beacon version d),
     ds_tasks := Some (AtTest, AtTest, AtTest)\<rparr>"

text \<open>
  \<open>stop\<close> clears the flag and waits until the tasks have ended; \<open>Drop\<close> clears the flag and
  aborts them.
\<close>

definition disc_stop :: "discovery \<Rightarrow> discovery" where
  "disc_stop d = d\<lparr>ds_running := False\<rparr>"

definition disc_stop_returns :: "discovery \<Rightarrow> bool" where
  "disc_stop_returns d \<longleftrightarrow> ds_tasks d = None \<or> ds_tasks d = Some (Finished, Finished, Finished)"

definition disc_drop :: "discovery \<Rightarrow> discovery" where
  "disc_drop d = d\<lparr>ds_running := False, ds_tasks := None\<rparr>"

definition get_peers :: "discovery \<Rightarrow> peer_info list" where
  "get_peers d = map snd (ds_peers d)"

definition is_running :: "discovery \<Rightarrow> bool" where
  "is_running d = ds_running d"

section \<open>Steps of the tasks\<close>

datatype disc_event =
    TestSend
  | SendTimer
  | TestListen
  | Datagram u64 ipv4 "byte list"
  | RecvError
  | TestCleanup
  | CleanupTimer u64

text \<open>The beacon broadcaster.\<close>

definition step_send :: "discovery \<Rightarrow> task_pc \<times> discovery" where
  "step_send d =
     (if ds_running d then
        (Waiting, case ds_beacon d of
           None \<Rightarrow> d
         | Some b \<Rightarrow> d\<lparr>ds_sent := ds_sent d @ [(b, MULTICAST_GROUP, DEFAULT_DISCOVERY_PORT),
                                              (b, ''255.255.255.255'', DEFAULT_DISCOVERY_PORT)]\<rparr>)
      else (Finished, d))"

text \<open>The listener: a datagram of at most 2048 bytes, decoded and recorded.\<close>

definition step_datagram ::
  "string \<Rightarrow> (byte list \<Rightarrow> beacon option) \<Rightarrow> u64 \<Rightarrow> ipv4 \<Rightarrow> byte list \<Rightarrow> discovery \<Rightarrow> discovery" where
  "step_datagram version dec now src_ip data d =
     (case dec (take 2048 data) of
        Some b \<Rightarrow> d\<lparr>ds_peers := hear_beacon version now src_ip b (ds_peers d)\<rparr>
      | None \<Rightarrow> d)"

text \<open>One step of one task; an event its task does not wait for has no effect.\<close>

fun disc_step :: "string \<Rightarrow> (byte list \<Rightarrow> beacon option) \<Rightarrow> disc_event \<Rightarrow> discovery \<Rightarrow> discovery" where
  "disc_step version dec ev d =
     (case ds_tasks d of
        None \<Rightarrow> d
      | Some (s, l, c) \<Rightarrow>
          (case ev of
             TestSend \<Rightarrow>
               if s = AtTest then let (s, d) = step_send d in d\<lparr>ds_tasks := Some (s, l, c)\<rparr> else d
           | SendTimer \<Rightarrow> if s = Waiting then d\<lparr>ds_tasks := Some (AtTest, l, c)\<rparr> else d
           | TestListen \<Rightarrow>
               if l = AtTest then d\<lparr>ds_tasks := Some (s, if ds_running d then Waiting else Finished, c)\<rparr> else d
           | Datagram now src_ip data \<Rightarrow>
               if l = Waiting then (step_datagram version dec now src_ip data d)\<lparr>ds_tasks := Some (s, AtTest, c)\<rparr>
               else d
           | RecvError \<Rightarrow> if l = Waiting then d\<lparr>ds_tasks := Some (s, AtTest, c)\<rparr> else d
           | TestCleanup \<Rightarrow>
               if c = AtTest then d\<lparr>ds_tasks := Some (s, l, if ds_running d then Waiting else Finished)\<rparr> else d
           | CleanupTimer now \<Rightarrow>
               if c = Waiting then d\<lparr>ds_peers := cleanup_peers now (ds_peers d), ds_tasks := Some (s, l, AtTest)\<rparr>
               else d))"

definition disc_run :: "string \<Rightarrow> (byte list \<Rightarrow> beacon option) \<Rightarrow> disc_event list \<Rightarrow> discovery \<Rightarrow> discovery" where
  "disc_run version dec evs d = fold (disc_step version dec) evs d"

lemma disc_run_Nil [simp]: "disc_run v dec [] d = d"
  by (simp add: disc_run_def)

lemma disc_run_Cons [simp]: "disc_run v dec (ev # evs) d = disc_run v dec evs (disc_step v dec ev d)"
  by (simp add: disc_run_def)

lemma disc_run_append: "disc_run v dec (es @ fs) d = disc_run v dec fs (disc_run v dec es d)"
  by (simp add: disc_run_def)

declare disc_step.simps [simp del]

section \<open>The table is well formed\<close>

definition peers_wf :: "peer_table \<Rightarrow> bool" where
  "peers_wf ps \<longleftrightarrow> distinct (map fst ps)
     \<and> (\<forall>(a, p) \<in> set ps. pi_socket_addr p = a \<and> pi_tcp_port p = snd a)"

lemma set_update_subset: "set (AList.update k v xs) \<subseteq> insert (k, v) (set xs)"
  by (induction xs) auto

lemma peers_wf_hear: "peers_wf ps \<Longrightarrow> peers_wf (hear_beacon v now ip b ps)"
proof -
  assume wf: "peers_wf ps"
  have upd: "peers_wf (AList.update a p ps)" if "pi_socket_addr p = a" "pi_tcp_port p = snd a" for a p
    using wf that set_update_subset [of a p ps] by (fastforce simp: peers_wf_def distinct_update)
  have old: "pi_socket_addr p = a \<and> pi_tcp_port p = snd a" if "map_of ps a = Some p" for a p
    using wf map_of_SomeD [OF that] by (auto simp: peers_wf_def)
  show ?thesis
    by (auto simp: hear_beacon_def Let_def peer_touch_def peer_new_def old split: option.splits intro!: upd)
qed

lemma distinct_filter_fst: "distinct (map fst xs) \<Longrightarrow> distinct (map fst (filter P xs))"
  by (induction xs) auto

lemma peers_wf_cleanup: "peers_wf ps \<Longrightarrow> peers_wf (cleanup_peers now ps)"
  by (auto simp: peers_wf_def cleanup_peers_def distinct_filter_fst)

lemma disc_step_peers:
  "ds_peers (disc_step v dec ev d) = ds_peers d
   \<or> (\<exists>now ip b. ds_peers (disc_step v dec ev d) = hear_beacon v now ip b (ds_peers d))
   \<or> (\<exists>now. ds_peers (disc_step v dec ev d) = cleanup_peers now (ds_peers d))"
  by (cases ev)
     (auto simp: disc_step.simps step_send_def step_datagram_def Let_def split: option.splits)

lemma disc_run_wf: "peers_wf (ds_peers d) \<Longrightarrow> peers_wf (ds_peers (disc_run v dec evs d))"
proof (induction evs arbitrary: d)
  case (Cons ev evs)
  have "peers_wf (ds_peers (disc_step v dec ev d))"
    using disc_step_peers [of v dec ev d] Cons.prems peers_wf_hear peers_wf_cleanup by metis
  with Cons.IH show ?case by simp
qed simp

section \<open>The life of an entry\<close>

definition names_peer :: "(byte list \<Rightarrow> beacon option) \<Rightarrow> socket_addr \<Rightarrow> disc_event \<Rightarrow> bool" where
  "names_peer dec a ev =
     (case ev of
        Datagram now ip data \<Rightarrow>
          (case dec (take 2048 data) of Some b \<Rightarrow> (ip, bc_tcp_port b) = a | None \<Rightarrow> False)
      | _ \<Rightarrow> False)"

lemma hear_other: "(ip, bc_tcp_port b) \<noteq> a \<Longrightarrow> map_of (hear_beacon v now ip b ps) a = map_of ps a"
  by (auto simp: hear_beacon_def Let_def update_conv split: option.splits)

lemma hear_same:
  "\<exists>p. map_of (hear_beacon v now ip b ps) (ip, bc_tcp_port b) = Some p \<and> pi_last_seen p = now
     \<and> (bc_node_id b \<noteq> None \<longrightarrow> pi_node_id p = bc_node_id b)"
  by (auto simp: hear_beacon_def Let_def update_conv peer_touch_def peer_new_def split: option.splits)

lemma map_of_filter_snd:
  "distinct (map fst xs) \<Longrightarrow>
   map_of (filter (\<lambda>(a, p). P p) xs) a = (case map_of xs a of Some p \<Rightarrow> if P p then Some p else None | None \<Rightarrow> None)"
proof (induction xs)
  case (Cons x xs)
  obtain b q where x: "x = (b, q)" by (cases x)
  with Cons show ?case by (auto simp: map_of_eq_None_iff split: option.splits)
qed simp

lemma cleanup_lookup:
  "peers_wf ps \<Longrightarrow> map_of (cleanup_peers now ps) a =
     (case map_of ps a of
        Some p \<Rightarrow> if unat now \<le> unat (pi_last_seen p) + 30 then Some p else None
      | None \<Rightarrow> None)"
  by (auto simp: peers_wf_def cleanup_peers_def map_of_filter_snd peer_is_stale_def PEER_TIMEOUT_SECS_def
      word_less_nat_alt word_nat split: option.splits)

lemma disc_step_lookup:
  assumes "peers_wf (ds_peers d)" "\<not> names_peer dec a ev"
  shows "map_of (ds_peers (disc_step v dec ev d)) a = map_of (ds_peers d) a
    \<or> (\<exists>t. ev = CleanupTimer t \<and> map_of (ds_peers (disc_step v dec ev d)) a = map_of (cleanup_peers t (ds_peers d)) a)"
  using assms
  by (cases ev)
     (auto simp: disc_step.simps step_send_def step_datagram_def names_peer_def hear_other Let_def
        split: option.splits)

lemma peer_kept:
  assumes "peers_wf (ds_peers d)" "map_of (ds_peers d) a = Some p"
    and "\<forall>ev \<in> set evs. \<not> names_peer dec a ev"
    and "\<forall>t. CleanupTimer t \<in> set evs \<longrightarrow> unat t \<le> unat (pi_last_seen p) + 30"
  shows "map_of (ds_peers (disc_run v dec evs d)) a = Some p"
  using assms
proof (induction evs arbitrary: d)
  case (Cons ev evs)
  have "map_of (ds_peers (disc_step v dec ev d)) a = Some p"
    using disc_step_lookup [of d dec a ev v] Cons.prems by (auto simp: cleanup_lookup)
  moreover have "peers_wf (ds_peers (disc_step v dec ev d))"
    using disc_run_wf [OF Cons.prems(1), of v dec "[ev]"] by simp
  ultimately show ?case using Cons by simp
qed simp

lemma peer_stays_gone:
  assumes "peers_wf (ds_peers d)" "map_of (ds_peers d) a = None" "\<forall>ev \<in> set evs. \<not> names_peer dec a ev"
  shows "map_of (ds_peers (disc_run v dec evs d)) a = None"
  using assms
proof (induction evs arbitrary: d)
  case (Cons ev evs)
  have "map_of (ds_peers (disc_step v dec ev d)) a = None"
    using disc_step_lookup [of d dec a ev v] Cons.prems by (auto simp: cleanup_lookup)
  moreover have "peers_wf (ds_peers (disc_step v dec ev d))"
    using disc_run_wf [OF Cons.prems(1), of v dec "[ev]"] by simp
  ultimately show ?case using Cons by simp
qed simp

text \<open>
  C29. The life of an entry of the peer table, in any interleaving of the three tasks: a
  beacon that the listener takes makes or refreshes the entry of its address; while no
  further beacon of the address comes, the entry stays unchanged as long as no cleanup runs
  more than thirty seconds after it was last heard of, and the first cleanup that runs later
  removes it for good.
\<close>

theorem peer_lifetime:
  assumes "peers_wf (ds_peers d)" "ds_tasks d = Some (s, Waiting, c)"
    and "dec (take 2048 data) = Some b" "a = (ip, bc_tcp_port b)"
    and "\<forall>ev \<in> set es \<union> set fs. \<not> names_peer dec a ev"
    and "\<forall>t. CleanupTimer t \<in> set es \<longrightarrow> unat t \<le> unat now + 30"
    and "disc_run v dec (Datagram now ip data # es) d = d1" "ds_tasks d1 = Some (s1, l1, Waiting)"
    and "unat now + 30 < unat t"
  shows "(\<exists>p. map_of (ds_peers d1) a = Some p \<and> pi_last_seen p = now
        \<and> (bc_node_id b \<noteq> None \<longrightarrow> pi_node_id p = bc_node_id b))
    \<and> map_of (ds_peers (disc_run v dec (CleanupTimer t # fs) d1)) a = None"
proof -
  let ?d0 = "disc_step v dec (Datagram now ip data) d"
  have peers: "ds_peers ?d0 = hear_beacon v now ip b (ds_peers d)"
    using assms(2,3) by (simp add: disc_step.simps step_datagram_def)
  have wf: "peers_wf (ds_peers ?d0)" using peers_wf_hear [OF assms(1)] by (simp add: peers)
  obtain p where p: "map_of (ds_peers ?d0) a = Some p" "pi_last_seen p = now"
      "bc_node_id b \<noteq> None \<longrightarrow> pi_node_id p = bc_node_id b"
    using hear_same [of v now ip b "ds_peers d"] by (auto simp: peers assms(4))
  have "map_of (ds_peers d1) a = Some p"
    using peer_kept [OF wf p(1), of es dec v] assms(5-7) p(2) by auto
  note p1 = this
  have wf1: "peers_wf (ds_peers d1)" using disc_run_wf [OF wf, of v dec es] assms(7) by simp
  let ?d2 = "disc_step v dec (CleanupTimer t) d1"
  have "ds_peers ?d2 = cleanup_peers t (ds_peers d1)" using assms(8) by (simp add: disc_step.simps)
  then have "map_of (ds_peers ?d2) a = None" "peers_wf (ds_peers ?d2)"
    using cleanup_lookup [OF wf1, of t a] p1 p(2) assms(9) peers_wf_cleanup [OF wf1] by simp_all
  then have "map_of (ds_peers (disc_run v dec fs ?d2)) a = None"
    using assms(5) by (intro peer_stays_gone) auto
  with p1 p(2,3) show ?thesis by simp
qed

section \<open>Stopping\<close>

fun is_receive :: "disc_event \<Rightarrow> bool" where
  "is_receive (Datagram now ip data) = True"
| "is_receive RecvError = True"
| "is_receive _ = False"

lemma tasks_after_stop:
  assumes "\<not> ds_running d" "ds_tasks d = Some (s, l, c)"
  shows "\<exists>s' l' c'. ds_tasks (disc_step v dec ev d) = Some (s', l', c') \<and> \<not> ds_running (disc_step v dec ev d)
    \<and> (l = Waiting \<and> \<not> is_receive ev \<longrightarrow> l' = Waiting)"
  using assms by (cases ev) (auto simp: disc_step.simps step_send_def step_datagram_def split: option.splits)

lemma listener_blocked:
  assumes "\<not> ds_running d" "ds_tasks d = Some (s, Waiting, c)"
    and "\<forall>ev \<in> set evs. \<not> is_receive ev"
  shows "\<exists>s' c'. ds_tasks (disc_run v dec evs d) = Some (s', Waiting, c')"
  using assms
proof (induction evs arbitrary: d s c)
  case (Cons ev evs)
  from tasks_after_stop [OF Cons.prems(1,2), of v dec ev] Cons.prems(3)
  obtain s' c' where "ds_tasks (disc_step v dec ev d) = Some (s', Waiting, c')"
    "\<not> ds_running (disc_step v dec ev d)" by auto
  from Cons.IH [OF this(2,1)] Cons.prems(3) show ?case by simp
qed simp

text \<open>
  Stopping needs a stranger's datagram: a service that is stopped while its listener
  waits does not return from \<open>stop\<close> as long as no datagram arrives and no receive fails,
  whatever the other tasks do, since its own beacons have ended; once a single datagram
  arrives and the timers run out, \<open>stop\<close> returns.
\<close>

theorem stop_needs_datagram:
  assumes "ds_tasks d = Some (Waiting, Waiting, Waiting)"
  shows "(\<forall>evs. (\<forall>ev \<in> set evs. \<not> is_receive ev) \<longrightarrow>
        \<not> disc_stop_returns (disc_run v dec evs (disc_stop d))
        \<and> ds_sent (disc_run v dec evs (disc_stop d)) = ds_sent d)
    \<and> disc_stop_returns (disc_run v dec [SendTimer, TestSend, Datagram now ip data, TestListen,
         CleanupTimer t, TestCleanup] (disc_stop d))"
proof -
  have sent: "ds_sent (disc_run v dec evs d1) = ds_sent d1" if "\<not> ds_running d1" for evs d1
    using that
  proof (induction evs arbitrary: d1)
    case (Cons ev evs)
    have "ds_sent (disc_step v dec ev d1) = ds_sent d1 \<and> \<not> ds_running (disc_step v dec ev d1)"
      using Cons.prems
      by (cases ev) (auto simp: disc_step.simps step_send_def step_datagram_def split: option.splits)
    with Cons.IH show ?case by simp
  qed simp
  have "\<not> ds_running (disc_stop d)" "ds_tasks (disc_stop d) = Some (Waiting, Waiting, Waiting)"
    using assms by (simp_all add: disc_stop_def)
  note off = this
  have "\<not> disc_stop_returns (disc_run v dec evs (disc_stop d)) \<and> ds_sent (disc_run v dec evs (disc_stop d)) = ds_sent d"
    if none: "\<forall>ev \<in> set evs. \<not> is_receive ev" for evs
  proof -
    obtain s c where "ds_tasks (disc_run v dec evs (disc_stop d)) = Some (s, Waiting, c)"
      using listener_blocked [of "disc_stop d" Waiting Waiting evs v dec] off none by blast
    then have "\<not> disc_stop_returns (disc_run v dec evs (disc_stop d))" by (simp add: disc_stop_returns_def)
    with sent [OF off(1), of evs] show ?thesis by (simp add: disc_stop_def)
  qed
  moreover have "disc_stop_returns (disc_run v dec [SendTimer, TestSend, Datagram now ip data, TestListen,
         CleanupTimer t, TestCleanup] (disc_stop d))"
    by (simp add: disc_stop_returns_def disc_stop_def disc_step.simps step_send_def step_datagram_def
        assms split: option.split)
  ultimately show ?thesis by blast
qed

section \<open>A concrete service\<close>

definition demo_disc :: discovery where
  "demo_disc = disc_start ''1'' (disc_new ''pc'' 9877 9876)"

definition demo_beacon :: beacon where
  "demo_beacon = \<lparr>bc_device_name = ''x'', bc_version = ''1'', bc_tcp_port = 9877, bc_node_id = Some ''n''\<rparr>"

definition demo_listening :: discovery where
  "demo_listening = disc_run ''1'' (\<lambda>x. Some demo_beacon) [TestSend, TestListen, TestCleanup] demo_disc"

lemma demo_listening_tasks: "ds_tasks demo_listening = Some (Waiting, Waiting, Waiting)" "ds_peers demo_listening = []"
  by (simp_all add: demo_listening_def demo_disc_def disc_start_def disc_new_def disc_new_with_node_id_def
      disc_step.simps step_send_def)

theorem stop_needs_datagram_witness:
  "\<not> disc_stop_returns (disc_run ''1'' (\<lambda>x. None) [SendTimer, TestSend, CleanupTimer 7, TestCleanup] (disc_stop demo_listening))
   \<and> disc_stop_returns (disc_run ''1'' (\<lambda>x. None) [SendTimer, TestSend, Datagram 6 [10, 0, 0, 2] [], TestListen,
        CleanupTimer 7, TestCleanup] (disc_stop demo_listening))"
proof -
  have evs: "\<forall>ev \<in> set [SendTimer, TestSend, CleanupTimer 7, TestCleanup]. \<not> is_receive ev" by simp
  note st = stop_needs_datagram [OF demo_listening_tasks(1), of "''1''" "\<lambda>x. None" 6 "[10, 0, 0, 2]" "[]" 7]
  from st [THEN conjunct1, THEN spec, THEN mp, OF evs] st [THEN conjunct2] show ?thesis by blast
qed

theorem peer_lifetime_witness:
  "\<exists>d1 p. disc_run ''1'' (\<lambda>x. Some demo_beacon) [Datagram 100 [10, 0, 0, 2] [], CleanupTimer 120, TestCleanup] demo_listening = d1
     \<and> map_of (ds_peers d1) ([10, 0, 0, 2], 9877) = Some p \<and> pi_last_seen p = 100
     \<and> map_of (ds_peers (disc_run ''1'' (\<lambda>x. Some demo_beacon) [CleanupTimer 131] d1)) ([10, 0, 0, 2], 9877) = None"
proof -
  let ?evs = "[CleanupTimer 120, TestCleanup]" and ?a = "([10, 0, 0, 2], 9877) :: socket_addr"
  obtain d1 where d1: "disc_run ''1'' (\<lambda>x. Some demo_beacon) (Datagram 100 [10, 0, 0, 2] [] # ?evs) demo_listening = d1" by blast
  have on: "ds_running demo_listening"
    by (simp add: demo_listening_def demo_disc_def disc_start_def disc_new_def disc_new_with_node_id_def
      disc_step.simps step_send_def)
  have "ds_tasks d1 = Some (Waiting, AtTest, Waiting)"
    using on by (simp add: d1 [symmetric] disc_step.simps demo_listening_tasks step_datagram_def)
  moreover have "peers_wf (ds_peers demo_listening)" by (simp add: demo_listening_tasks peers_wf_def)
  moreover have "\<forall>ev \<in> set ?evs \<union> set []. \<not> names_peer (\<lambda>x. Some demo_beacon) ?a ev" by (simp add: names_peer_def)
  moreover have "\<forall>t. CleanupTimer t \<in> set ?evs \<longrightarrow> unat t \<le> unat (100 :: u64) + 30" by auto
  moreover have "?a = ([10, 0, 0, 2], bc_tcp_port demo_beacon)" by (simp add: demo_beacon_def)
  ultimately show ?thesis
    using peer_lifetime [of demo_listening Waiting Waiting "\<lambda>x. Some demo_beacon" "[]" demo_beacon ?a "[10, 0, 0, 2]"
        ?evs "[]" 100 "''1''" d1 Waiting AtTest 131] d1 demo_listening_tasks(1) by auto
qed

end
