(* ===== verification/Cli_Commands.thy ===== *)
theory Cli_Commands
  imports Cli_Config Discovery Cli_Send
begin

text \<open>
  The commands of the command line tool that list and look up: \<open>cmd_list\<close>, \<open>cmd_resume\<close>,
  \<open>cmd_history\<close>, \<open>cmd_status\<close> and \<open>cmd_contacts\<close> of \<open>desktop/p2ptransfer-cli/src/main.rs\<close>.
  The output is a list of lines. The readable form of a number of bytes and of a date are
  parameters; opening the database succeeds.
\<close>

section \<open>Texts\<close>

text \<open>\<open>{:<n}\<close> and \<open>{:-<n}\<close>: padded to the right with a character.\<close>

definition pad_right :: "char \<Rightarrow> nat \<Rightarrow> string \<Rightarrow> string" where
  "pad_right c n s = s @ replicate (n - length s) c"

text \<open>\<open>{:?}\<close> of a status and the decimal form of an \<open>i64\<close>.\<close>

fun debug_status :: "transfer_status \<Rightarrow> string" where
  "debug_status Pending = ''Pending''"
| "debug_status InProgress = ''InProgress''"
| "debug_status Paused = ''Paused''"
| "debug_status Completed = ''Completed''"
| "debug_status Failed = ''Failed''"

definition show_i64 :: "int \<Rightarrow> string" where
  "show_i64 i = (if i < 0 then CHR ''-'' # show_nat (nat (- i)) else show_nat (nat i))"

section \<open>Peers on the network\<close>

text \<open>A peer is shown under the name of the first contact whose last address is its own.\<close>

definition known_name :: "contact list \<Rightarrow> peer_info \<Rightarrow> string" where
  "known_name contacts peer =
     (case List.find (\<lambda>c. ct_last_known_ip c = show_ipv4 (fst (pi_socket_addr peer))) contacts of
        None \<Rightarrow> []
      | Some c \<Rightarrow> '' (Saved as '' @ [CHR 39] @ ct_name c @ [CHR 39] @ '')'')"

definition peer_line :: "contact list \<Rightarrow> u64 \<Rightarrow> peer_info \<Rightarrow> string" where
  "peer_line contacts now peer =
     ''    '' @ pi_device_name peer @ known_name contacts peer @ '' at ''
       @ show_socket_addr (pi_socket_addr peer) @ '' (v'' @ pi_version peer @ '', ''
       @ show_nat (unat (sat_sub now (pi_last_seen peer))) @ ''s ago)''"

text \<open>
  The service runs for the duration, its table is read, and it is stopped. \<open>run\<close> is what the
  steps of the tasks make of the service in that time; each line reads the clock.
\<close>

definition cmd_list ::
  "string \<Rightarrow> string \<Rightarrow> (discovery \<Rightarrow> discovery) \<Rightarrow> (nat \<Rightarrow> u64) \<Rightarrow> resume_db \<Rightarrow> u64 \<Rightarrow> p2p_config
     \<Rightarrow> string list \<times> discovery" where
  "cmd_list version hostname run clock db duration config =
     (let d = disc_start version (disc_new hostname DEFAULT_TCP_PORT (cf_discovery_port config));
          d = run d;
          peers = get_peers d;
          d = disc_stop d;
          begin_line = ''Discovering peers for '' @ show_nat (unat duration) @ ''s...'' in
      if peers = [] then ([begin_line, ''No peers discovered on local network.''], d)
      else let contacts = list_contacts db in
        (begin_line # (''Found '' @ show_nat (length peers) @ '' peer(s):'')
           # map (\<lambda>(i, peer). peer_line contacts (clock i) peer) (enumerate 0 peers), d))"

section \<open>Records\<close>

definition cmd_resume :: "string \<Rightarrow> resume_db \<Rightarrow> string + string list" where
  "cmd_resume transfer_id db =
     (case get_transfer db transfer_id of
        Some record \<Rightarrow>
          Inr [''Resuming transfer '' @ transfer_id @ '':'',
               ''  File: '' @ tr_file_path record,
               ''  Peer: '' @ tr_peer_addr record,
               ''  Progress: '' @ show_i64 (tr_bytes_transferred record) @ ''/''
                 @ show_i64 (tr_file_size record) @ '' bytes'',
               ''  Status: '' @ debug_status (tr_status record),
               [],
               ''Resume support is active. Re-run `send` with same file to resume from offset.'']
      | None \<Rightarrow> Inl (''Transfer not found: '' @ transfer_id))"

definition id_prefix :: "string \<Rightarrow> string" where
  "id_prefix i = take (min 8 (length i)) i"

definition history_line :: "(u64 \<Rightarrow> string) \<Rightarrow> transfer_record \<Rightarrow> string" where
  "history_line human t =
     ''    '' @ id_prefix (tr_id t) @ '': '' @ tr_file_path t @ '' -> '' @ tr_peer_addr t @ '' (''
       @ human (of_i64 (tr_file_size t)) @ '', '' @ debug_status (tr_status t) @ '')''"

definition cmd_history :: "(u64 \<Rightarrow> string) \<Rightarrow> resume_db \<Rightarrow> string list" where
  "cmd_history human db =
     (let transfers = list_transfers db in
      if transfers = [] then [''No transfer history.'']
      else (''Transfer history ('' @ show_nat (length transfers) @ '' entries):'')
             # map (history_line human) transfers)"

text \<open>The records are counted only when the file of the database exists.\<close>

definition active_count :: "transfer_record list \<Rightarrow> nat" where
  "active_count transfers =
     length (filter (\<lambda>t. \<not> (tr_status t = Completed \<or> tr_status t = Failed)) transfers)"

definition cmd_status :: "(u64 \<Rightarrow> string) \<Rightarrow> string \<Rightarrow> resume_db option \<Rightarrow> p2p_config \<Rightarrow> string list" where
  "cmd_status human hostname db config =
     [''P2P Status:'',
      ''  Device: '' @ hostname,
      ''  TCP Port: '' @ show_nat (unat (cf_tcp_port config)),
      ''  Discovery Port: '' @ show_nat (unat (cf_discovery_port config)),
      ''  Multicast Group: 224.0.0.251'',
      ''  Compression Level: '' @ show_i64 (cf_compression_level config),
      ''  Chunk Size: '' @ human (cf_chunk_size config),
      ''  Data Dir: '' @ path_text (cf_data_dir config)]
     @ (case db of
          None \<Rightarrow> []
        | Some db \<Rightarrow>
            let transfers = list_transfers db in
            [''  Active Transfers: '' @ show_nat (active_count transfers),
             ''  Total Transfers: '' @ show_nat (length transfers)])"

section \<open>Contacts\<close>

definition contact_row :: "string \<Rightarrow> string \<Rightarrow> string \<Rightarrow> string \<Rightarrow> string" where
  "contact_row name peer_id addr seen =
     pad_right CHR '' '' 15 name @ '' | '' @ pad_right CHR '' '' 10 peer_id @ '' | ''
       @ pad_right CHR '' '' 20 addr @ '' | '' @ seen"

definition contact_line :: "(int \<Rightarrow> string option) \<Rightarrow> contact \<Rightarrow> string" where
  "contact_line date c =
     contact_row (ct_name c) (ct_peer_id c)
       (ct_last_known_ip c @ '':'' @ show_nat (unat (ct_last_known_port c)))
       (opt_default ''Unknown'' (date (ct_last_seen c)))"

definition contact_rule :: string where
  "contact_rule = pad_right CHR ''-'' 15 [] @ ''-+-'' @ pad_right CHR ''-'' 10 [] @ ''-+-''
     @ pad_right CHR ''-'' 20 [] @ ''-+-'' @ pad_right CHR ''-'' 15 []"

definition cmd_contacts ::
  "(int \<Rightarrow> string option) \<Rightarrow> contacts_action \<Rightarrow> resume_db \<Rightarrow> string list \<times> resume_db" where
  "cmd_contacts date action db =
     (case action of
        ContactsList \<Rightarrow>
          let contacts = list_contacts db in
          if contacts = [] then ([''No saved contacts found.''], db)
          else (contact_row ''Name'' ''Peer ID'' ''Last IP:Port'' ''Last Seen'' # contact_rule
                  # map (contact_line date) contacts, db)
      | ContactsRemove name \<Rightarrow>
          let db = delete_contact db name in
          ([''Contact '' @ [CHR 39] @ name @ [CHR 39] @ '' removed (if it existed).''], db))"

section \<open>Names and addresses\<close>

lemma known_name_Some:
  assumes "known_name contacts peer = '' (Saved as '' @ [CHR 39] @ n @ [CHR 39] @ '')''"
  shows "\<exists>c \<in> set contacts. ct_name c = n \<and> ct_last_known_ip c = show_ipv4 (fst (pi_socket_addr peer))"
  using assms by (auto simp: known_name_def find_Some_iff split: option.splits)

lemma find_distinct: "distinct (map g xs) \<Longrightarrow> x \<in> set xs \<Longrightarrow> List.find (\<lambda>y. g y = g x) xs = Some x"
  by (induction xs) force+

lemma get_contact_listed:
  assumes "db_wf db" "c \<in> set (list_contacts db)"
  shows "get_contact db (ct_name c) = Some c"
  using assms by (simp add: db_wf_def list_contacts_def get_contact_def find_distinct)

text \<open>
  The listing and the sender agree on names: when the listing shows a peer under the
  name of a contact, sending to that name dials the address of this peer.
\<close>

theorem listed_name_dials:
  assumes "db_wf db" "length (fst (pi_socket_addr peer)) = 4" "\<forall>n \<in> set (fst (pi_socket_addr peer)). n < 256"
    and "known_name (list_contacts db) peer = '' (Saved as '' @ [CHR 39] @ n @ [CHR 39] @ '')''"
  shows "\<exists>port. parse_socket_addr (cli_resolve db n) = Some (fst (pi_socket_addr peer), port)"
proof -
  from known_name_Some [OF assms(4)] obtain c where
    c: "c \<in> set (list_contacts db)" "ct_name c = n" "ct_last_known_ip c = show_ipv4 (fst (pi_socket_addr peer))" by blast
  from get_contact_listed [OF assms(1) c(1)] c(2,3)
  have "cli_resolve db n = show_socket_addr (fst (pi_socket_addr peer), ct_last_known_port c)"
    by (simp add: cli_resolve_def show_socket_addr_def)
  with parse_show_socket_addr [OF assms(2,3)] show ?thesis by auto
qed

theorem listed_name_dials_witness:
  "parse_socket_addr (cli_resolve (upsert_contact demo_db ''bo'' ''0A'' ''10.0.0.2'' 9877 7) ''bo'') = Some ([10, 0, 0, 2], 9877)"
proof -
  let ?db = "upsert_contact demo_db ''bo'' ''0A'' ''10.0.0.2'' 9877 7"
  let ?peer = "peer_new ''1'' 5 ''host'' 9877 ([10, 0, 0, 2], 9877)"
  have ip: "show_ipv4 [10, 0, 0, 2] = ''10.0.0.2''" by code_simp
  have db: "db_contacts ?db = [\<lparr>ct_name = ''bo'', ct_peer_id = ''0A'', ct_last_known_ip = ''10.0.0.2'',
      ct_last_known_port = 9877, ct_last_seen = 7\<rparr>]"
    by (simp add: demo_db_def create_transfer_def resume_new_def upsert_contact_def)
  have "db_wf demo_db"
    unfolding demo_db_def by (simp add: db_wf_def create_transfer_def resume_new_def)
  then have "db_wf ?db" by (rule db_wf_upsert)
  moreover have "known_name (list_contacts ?db) ?peer = '' (Saved as '' @ [CHR 39] @ ''bo'' @ [CHR 39] @ '')''"
    by (simp add: known_name_def list_contacts_def db peer_new_def ip)
  ultimately obtain port where "parse_socket_addr (cli_resolve ?db ''bo'') = Some (fst (pi_socket_addr ?peer), port)"
    using listed_name_dials [of ?db ?peer "''bo''"] by (auto simp: peer_new_def)
  moreover have "cli_resolve ?db ''bo'' = show_socket_addr ([10, 0, 0, 2], 9877)"
    by (simp add: cli_resolve_def get_contact_def db show_socket_addr_def ip)
  then have "parse_socket_addr (cli_resolve ?db ''bo'') = Some ([10, 0, 0, 2], 9877)"
    by (simp add: parse_show_socket_addr)
  ultimately show ?thesis by simp
qed

end
