(* ===== verification/File_Iter.thy ===== *)
theory File_Iter
  imports Paths
begin

text \<open>
  \<open>storage/file_iter.rs\<close>: the files below a directory in sorted order, and reading a slice
  of a file. A directory is the list of its entries in the order in which the system lists
  them, with a flag saying whether it can be listed; symbolic links are not modelled.
\<close>

section \<open>Walking a directory\<close>

datatype fs_node = FileNode "byte list" | DirNode bool "(string \<times> fs_node) list"

fun is_dir :: "fs_node option \<Rightarrow> bool" where
  "is_dir (Some (DirNode ok es)) = True"
| "is_dir _ = False"

text \<open>A path that does not exist is not a directory either and is listed as a file.\<close>

fun collect_files :: "path \<Rightarrow> fs_node \<Rightarrow> string + path list"
  and collect_entries :: "path \<Rightarrow> (string \<times> fs_node) list \<Rightarrow> string + path list" where
  "collect_files dir (FileNode d) = Inr [dir]"
| "collect_files dir (DirNode ok es) =
     (if ok then collect_entries dir es else Inl ''Permission denied'')"
| "collect_entries dir [] = Inr []"
| "collect_entries dir ((name, node) # es) =
     res_bind (collect_files (path_join dir (Path [Normal name])) node) (\<lambda>out.
       res_bind (collect_entries dir es) (\<lambda>rest. Inr (out @ rest)))"

record file_iterator =
  fi_entries :: "path list"
  fi_index :: usize

definition file_iterator_new :: "path \<Rightarrow> fs_node option \<Rightarrow> string + file_iterator" where
  "file_iterator_new p node =
     (case node of
        Some (FileNode d) \<Rightarrow> Inr \<lparr>fi_entries = [p], fi_index = 0\<rparr>
      | None \<Rightarrow> Inr \<lparr>fi_entries = sort [p], fi_index = 0\<rparr>
      | Some n \<Rightarrow>
          res_bind (res_map_err (\<lambda>_. ''Failed to collect files'') (collect_files p n))
            (\<lambda>entries. Inr \<lparr>fi_entries = sort entries, fi_index = 0\<rparr>))"

definition total_files :: "file_iterator \<Rightarrow> nat" where
  "total_files it = length (fi_entries it)"

definition fi_remaining :: "file_iterator \<Rightarrow> nat" where
  "fi_remaining it = length (fi_entries it) - unat (fi_index it)"

definition fi_next :: "file_iterator \<Rightarrow> path option \<times> file_iterator" where
  "fi_next it =
     (if length (fi_entries it) \<le> unat (fi_index it) then (None, it)
      else (Some (fi_entries it ! unat (fi_index it)), it\<lparr>fi_index := fi_index it + 1\<rparr>))"

text \<open>What a \<open>for\<close> loop over the iterator sees; at most one turn per entry and one to end.\<close>

fun fi_collect :: "nat \<Rightarrow> file_iterator \<Rightarrow> path list option" where
  "fi_collect 0 it = None"
| "fi_collect (Suc fuel) it =
     (case fi_next it of
        (None, it) \<Rightarrow> Some []
      | (Some p, it) \<Rightarrow> map_option ((#) p) (fi_collect fuel it))"

section \<open>Reading a slice\<close>

text \<open>
  The end of the slice is cut to the file, its start is not: an offset past the end of the
  file makes the slice panic. The sum wraps around.
\<close>

definition read_file_chunk :: "(path \<rightharpoonup> fdata) \<Rightarrow> path \<Rightarrow> u64 \<Rightarrow> usize \<Rightarrow> string + byte list" where
  "read_file_chunk fs p offset len =
     (case fs p of
        None \<Rightarrow> Inl ''Failed to open file''
      | Some f \<Rightarrow>
          (let start = offset; stop = min (start + len) (len64 f) in
           if stop < start then Inl ''slice index starts past its end''
           else Inr (take (unat (stop - start)) (drop (unat start) f))))"

definition file_size :: "(path \<rightharpoonup> fdata) \<Rightarrow> path \<Rightarrow> string + u64" where
  "file_size fs p = ok_or ''Failed to read metadata'' (map_option len64 (fs p))"

section \<open>What the iterator yields\<close>

lemma fi_collect_drop:
  assumes "length (fi_entries it) < 2 ^ 64" "unat (fi_index it) \<le> length (fi_entries it)"
    and "length (fi_entries it) - unat (fi_index it) < fuel"
  shows "fi_collect fuel it = Some (drop (unat (fi_index it)) (fi_entries it))"
  using assms
proof (induction fuel arbitrary: it)
  case (Suc fuel)
  show ?case
  proof (cases "unat (fi_index it) = length (fi_entries it)")
    case False
    with Suc.prems have i: "unat (fi_index it) < length (fi_entries it)" by simp
    with Suc.prems(1) have "unat (fi_index it + 1) = Suc (unat (fi_index it))" by (simp add: unat_word_ariths)
    with i Suc show ?thesis
      by (simp add: fi_next_def flip: Cons_nth_drop_Suc)
  qed (simp add: fi_next_def)
qed simp

text \<open>The node a list of names leads to.\<close>

fun tree_at :: "fs_node \<Rightarrow> string list \<Rightarrow> fs_node option" where
  "tree_at n [] = Some n"
| "tree_at (FileNode d) (s # ss) = None"
| "tree_at (DirNode ok es) (s # ss) = (case map_of es s of None \<Rightarrow> None | Some n \<Rightarrow> tree_at n ss)"

text \<open>Every directory can be listed, and names its entries once.\<close>

fun tree_ok :: "fs_node \<Rightarrow> bool" where
  "tree_ok (FileNode d) = True"
| "tree_ok (DirNode ok es) = (ok \<and> distinct (map fst es) \<and> (\<forall>(s, n) \<in> set es. tree_ok n))"

definition file_paths :: "path \<Rightarrow> fs_node \<Rightarrow> path set" where
  "file_paths p n = {Path (components p @ map Normal ss) | ss. \<exists>d. tree_at n ss = Some (FileNode d)}"

lemma join_name: "path_join p (Path [Normal s]) = Path (components p @ [Normal s])"
  by (simp add: path_join_def is_absolute_def)

lemma file_paths_file: "file_paths p (FileNode d) = {p}"
proof -
  have "tree_at (FileNode d) ss = Some (FileNode e) \<longleftrightarrow> ss = [] \<and> e = d" for ss e by (cases ss) auto
  then show ?thesis by (auto simp: file_paths_def)
qed

lemma file_paths_dir:
  "file_paths p (DirNode ok es) = (\<Union>s \<in> dom (map_of es). file_paths (Path (components p @ [Normal s])) (the (map_of es s)))"
proof -
  have "(\<exists>d. tree_at (DirNode ok es) ss = Some (FileNode d))
      \<longleftrightarrow> (\<exists>s ss' n d. ss = s # ss' \<and> map_of es s = Some n \<and> tree_at n ss' = Some (FileNode d))" for ss
    by (cases ss) (auto split: option.splits)
  then show ?thesis by (force simp: file_paths_def)
qed

lemma file_paths_prefix: "q \<in> file_paths p n \<Longrightarrow> \<exists>r. components q = components p @ r"
  by (auto simp: file_paths_def)

lemma collect_files_paths:
  "tree_ok n \<Longrightarrow> \<exists>out. collect_files p n = Inr out \<and> distinct out \<and> set out = file_paths p n"
  "distinct (map fst es) \<Longrightarrow> \<forall>(s, n) \<in> set es. tree_ok n \<Longrightarrow>
   \<exists>out. collect_entries p es = Inr out \<and> distinct out
     \<and> set out = (\<Union>(s, n) \<in> set es. file_paths (Path (components p @ [Normal s])) n)"
proof (induction p n and p es rule: collect_files_collect_entries.induct)
  case (2 dir ok es)
  then obtain out where out: "collect_entries dir es = Inr out" "distinct out"
      "set out = (\<Union>(s, n) \<in> set es. file_paths (Path (components dir @ [Normal s])) n)"
    by auto
  have "(\<Union>(s, n) \<in> set es. file_paths (Path (components dir @ [Normal s])) n)
      = (\<Union>s \<in> dom (map_of es). file_paths (Path (components dir @ [Normal s])) (the (map_of es s)))"
    using 2(2) by (force simp: dom_map_of_conv_image_fst)
  with out 2(2) show ?case by (simp add: file_paths_dir)
next
  case (4 dir name node es)
  from 4(3,4) obtain out where out: "collect_files (path_join dir (Path [Normal name])) node = Inr out"
      "distinct out" "set out = file_paths (Path (components dir @ [Normal name])) node"
    using 4(1) by (auto simp: join_name)
  from 4(3,4) obtain rest where rest: "collect_entries dir es = Inr rest" "distinct rest"
      "set rest = (\<Union>(s, n) \<in> set es. file_paths (Path (components dir @ [Normal s])) n)"
    using 4(2) by auto
  have "name \<notin> fst ` set es" using 4(3) by simp
  have "set out \<inter> set rest = {}"
  proof -
    have "s = name" if "q \<in> file_paths (Path (components dir @ [Normal name])) node"
        "(s, n) \<in> set es" "q \<in> file_paths (Path (components dir @ [Normal s])) n" for q s n
      using file_paths_prefix [OF that(1)] file_paths_prefix [OF that(3)] by auto
    with \<open>name \<notin> fst ` set es\<close> show ?thesis unfolding out(3) rest(3) by force
  qed
  with out rest show ?case by simp
qed (simp_all add: file_paths_file)

text \<open>
  C30. A loop over the iterator on a directory whose subdirectories can all be listed ends
  after one turn per file and yields exactly the files below the directory, each once and
  in the order of paths.
\<close>

theorem file_iter_complete:
  assumes "tree_ok (DirNode ok es)" "card (file_paths p (DirNode ok es)) < 2 ^ 64"
  shows "\<exists>it ps. file_iterator_new p (Some (DirNode ok es)) = Inr it
    \<and> fi_collect (Suc (total_files it)) it = Some ps
    \<and> set ps = file_paths p (DirNode ok es) \<and> distinct ps \<and> sorted ps"
proof -
  from collect_files_paths(1) [OF assms(1)] obtain out where
    out: "collect_files p (DirNode ok es) = Inr out" "distinct out" "set out = file_paths p (DirNode ok es)"
    by blast
  let ?it = "\<lparr>fi_entries = sort out, fi_index = 0\<rparr> :: file_iterator"
  have "length out < 2 ^ 64" using assms(2) distinct_card [OF out(2)] by (simp add: out(3))
  then have "fi_collect (Suc (total_files ?it)) ?it = Some (sort out)"
    by (subst fi_collect_drop) (simp_all add: total_files_def)
  with out show ?thesis by (simp add: file_iterator_new_def)
qed

theorem file_iter_complete_witness:
  "\<exists>it. file_iterator_new (path_of ''d'') (Some (DirNode True [(''b'', FileNode [1]), (''a'', DirNode True [(''c'', FileNode [])])])) = Inr it
     \<and> (\<exists>ps. fi_collect (Suc (total_files it)) it = Some ps \<and> sorted ps
          \<and> set ps = file_paths (path_of ''d'') (DirNode True [(''b'', FileNode [1]), (''a'', DirNode True [(''c'', FileNode [])])]))"
proof -
  let ?t = "DirNode True [(''b'', FileNode [1]), (''a'', DirNode True [(''c'', FileNode [])])]"
  have ok: "tree_ok ?t" by simp
  let ?a = "Path (components (path_of ''d'') @ [Normal ''b''])"
    and ?b = "Path (components (path_of ''d'') @ [Normal ''a'', Normal ''c''])"
  have "collect_files (path_of ''d'') ?t = Inr [?a, ?b]" by (simp add: join_name)
  with collect_files_paths(1) [OF ok, of "path_of ''d''"] have "file_paths (path_of ''d'') ?t = set [?a, ?b]" by auto
  then have "card (file_paths (path_of ''d'') ?t) \<le> length [?a, ?b]" by (simp only: card_length)
  then have "card (file_paths (path_of ''d'') ?t) < 2 ^ 64" by simp
  from file_iter_complete [OF ok this] show ?thesis by blast
qed

text \<open>A slice inside the file is the bytes of the file; an offset past its end panics.\<close>

lemma read_file_chunk_slice:
  assumes "fs p = Some f" "length f < 2 ^ 63" "unat offset \<le> length f" "unat len < 2 ^ 63"
  shows "read_file_chunk fs p offset len = Inr (take (unat len) (drop (unat offset) f))"
proof -
  have l: "unat (len64 f) = length f" using assms(2) by (simp add: unat_len64)
  have s: "unat (offset + len) = unat offset + unat len" using assms(2-4) by (simp add: unat_word_ariths)
  let ?e = "min (offset + len) (len64 f)"
  have e: "unat ?e = min (unat offset + unat len) (length f)"
    using l s by (simp add: min_def word_le_nat_alt)
  with assms(3) have "offset \<le> ?e" by (simp add: word_le_nat_alt)
  then have "unat (?e - offset) = unat ?e - unat offset" by (rule unat_sub)
  with e have m: "unat (?e - offset) = min (unat len) (length f - unat offset)" using assms(3) by simp
  have "read_file_chunk fs p offset len = Inr (take (unat (?e - offset)) (drop (unat offset) f))"
    using \<open>offset \<le> ?e\<close> assms(1) by (simp only: read_file_chunk_def Let_def option.case) (simp add: not_less)
  also have "\<dots> = Inr (take (unat len) (drop (unat offset) f))"
    unfolding m by (cases "unat len \<le> length f - unat offset") simp_all
  finally show ?thesis .
qed

lemma read_file_chunk_past_end:
  "fs p = Some f \<Longrightarrow> length f < 2 ^ 64 \<Longrightarrow> length f < unat offset
   \<Longrightarrow> read_file_chunk fs p offset len = Inl ''slice index starts past its end''"
  by (simp add: read_file_chunk_def Let_def word_less_nat_alt unat_len64 min_def word_le_nat_alt)

end
