(* ===== verification/Gui_App.thy ===== *)
theory Gui_App
  imports Registry Cli_Commands File_Iter
begin

text \<open>
  The commands of the desktop application (\<open>p2ptransfer-gui/src-tauri/src/main.rs\<close>) on its
  shared state, the matching of contacts with peers of the network, and its identity
  (\<open>identity.rs\<close>). Notifications of the windows are left out; texts are those of one-byte
  characters. TOML and JSON are the parameter \<open>value_lib\<close>; a QUIC connection made only to see
  whether it can be made is the parameter \<open>probe\<close>, or left out where nothing depends on it.
\<close>

section \<open>The state\<close>

record gui_state =
  gs_world :: world
  gs_db :: resume_db
  gs_discovery :: "discovery option"
  gs_device_id :: string
  gs_device_name :: string
  gs_output_dir :: string
  gs_pending_files :: "string list"

section \<open>Listings\<close>

record peer_entry =
  pe_name :: string
  pe_addr :: string
  pe_last_seen :: u64

definition gui_peers :: "gui_state \<Rightarrow> peer_info list" where
  "gui_peers g = (case gs_discovery g of None \<Rightarrow> [] | Some d \<Rightarrow> get_peers d)"

definition list_peers :: "gui_state \<Rightarrow> peer_entry list" where
  "list_peers g = map (\<lambda>p. \<lparr>pe_name = pi_device_name p, pe_addr = show_socket_addr (pi_socket_addr p),
     pe_last_seen = pi_last_seen p\<rparr>) (gui_peers g)"

record transfer_entry =
  te_id :: string
  te_file_path :: string
  te_peer_addr :: string
  te_file_size :: int
  te_bytes_transferred :: int
  te_status :: string

definition gui_list_transfers :: "gui_state \<Rightarrow> transfer_entry list" where
  "gui_list_transfers g = map (\<lambda>t. \<lparr>te_id = tr_id t, te_file_path = tr_file_path t,
     te_peer_addr = tr_peer_addr t, te_file_size = tr_file_size t,
     te_bytes_transferred = tr_bytes_transferred t, te_status = debug_status (tr_status t)\<rparr>)
     (list_transfers (gs_db g))"

definition get_pending_transfers :: "gui_state \<Rightarrow> string set" where
  "get_pending_transfers g = pending_ids (gs_world g)"

definition get_active_transfers :: "gui_state \<Rightarrow> active_transfer set" where
  "get_active_transfers g = ran (w_active (gs_world g))"

section \<open>Transfers\<close>

text \<open>\<open>now\<close> is the clock of the database.\<close>

definition gui_pause_transfer :: "string \<Rightarrow> int \<Rightarrow> gui_state \<Rightarrow> gui_state" where
  "gui_pause_transfer request_id now g =
     (let w = signal_flag request_id flag_pause (gs_world g) in
      case w_active w request_id of
        None \<Rightarrow> g\<lparr>gs_world := w\<rparr>
      | Some t_state \<Rightarrow> g\<lparr>gs_world := set_status request_id ''paused'' w,
          gs_db := pause_transfer (gs_db g) request_id (as_i64 (at_bytes_transferred t_state)) now\<rparr>)"

definition gui_resume_transfer :: "string \<Rightarrow> int \<Rightarrow> gui_state \<Rightarrow> gui_state" where
  "gui_resume_transfer request_id now g =
     (let w = signal_flag request_id flag_resume (gs_world g) in
      case w_active w request_id of
        None \<Rightarrow> g\<lparr>gs_world := w\<rparr>
      | Some _ \<Rightarrow> g\<lparr>gs_world := set_status request_id ''transferring'' w,
          gs_db := update_transfer_status (gs_db g) request_id InProgress now\<rparr>)"

definition gui_cancel_transfer :: "string \<Rightarrow> gui_state \<Rightarrow> gui_state" where
  "gui_cancel_transfer request_id g =
     (let w = signal_flag request_id flag_cancel (gs_world g);
          db = delete_transfer (gs_db g) request_id;
          w = remove_active request_id w;
          w = remove_flag request_id w
      in g\<lparr>gs_world := w, gs_db := db\<rparr>)"

definition gui_delete_transfer :: "string \<Rightarrow> gui_state \<Rightarrow> gui_state" where
  "gui_delete_transfer request_id g =
     (let db = delete_transfer (gs_db g) request_id;
          w = remove_active request_id (gs_world g);
          w = remove_flag request_id w
      in g\<lparr>gs_world := w, gs_db := db\<rparr>)"

definition respond_to_transfer :: "string \<Rightarrow> bool \<Rightarrow> gui_state \<Rightarrow> (string + unit) \<times> gui_state" where
  "respond_to_transfer request_id accept g =
     (let (found, w) = pending_respond request_id accept (gs_world g);
          g = g\<lparr>gs_world := w\<rparr>
      in if \<not> found then (Inl (''No pending request with id '' @ [CHR 39] @ request_id @ [CHR 39]), g)
         else (Inr (), g))"

section \<open>Files waiting to be sent, output directory\<close>

definition open_send_overlay :: "string \<Rightarrow> gui_state \<Rightarrow> gui_state" where
  "open_send_overlay file_path g =
     (if file_path \<noteq> [] \<and> file_path \<notin> set (gs_pending_files g)
      then g\<lparr>gs_pending_files := gs_pending_files g @ [file_path]\<rparr> else g)"

definition get_pending_send_files :: "gui_state \<Rightarrow> string list" where
  "get_pending_send_files g = gs_pending_files g"

definition clear_pending_send_files :: "gui_state \<Rightarrow> gui_state" where
  "clear_pending_send_files g = g\<lparr>gs_pending_files := []\<rparr>"

text \<open>Arguments of a launch: options are dropped, each file is queued.\<close>

definition launch_args :: "string list \<Rightarrow> gui_state \<Rightarrow> gui_state" where
  "launch_args argv g = fold open_send_overlay (filter (\<lambda>a. \<not> starts_with a ''-'') (drop 1 argv)) g"

definition set_output_dir :: "string \<Rightarrow> gui_state \<Rightarrow> gui_state" where
  "set_output_dir dir g = g\<lparr>gs_output_dir := dir\<rparr>"

section \<open>Device identifier\<close>

definition get_device_id :: "gui_state \<Rightarrow> string" where
  "get_device_id g =
     (let i = map upper_char (gs_device_id g) in
      if length i = 8 then take 4 i @ ''-'' @ take 4 (drop 4 i) else i)"

definition get_short_device_id :: "gui_state \<Rightarrow> string" where
  "get_short_device_id g =
     (let i = map upper_char (gs_device_id g) in
      if length i = 8 then take 4 i @ ''-'' @ take 4 (drop 4 i) else i)"

definition normalize_node_id :: "string \<Rightarrow> string" where
  "normalize_node_id i = map upper_char (trim (filter (\<lambda>c. c \<noteq> CHR ''-'') i))"

section \<open>Contacts\<close>

definition eq_ignore_case :: "string \<Rightarrow> string \<Rightarrow> bool" where
  "eq_ignore_case a b = (map upper_char a = map upper_char b)"

text \<open>A peer matches a contact by its device name or by its identifier.\<close>

definition find_peer :: "string \<Rightarrow> string \<Rightarrow> peer_info list \<Rightarrow> peer_info option" where
  "find_peer name norm_id peers =
     List.find (\<lambda>p. eq_ignore_case (pi_device_name p) name
       \<or> (case pi_node_id p of None \<Rightarrow> False | Some i \<Rightarrow> normalize_node_id i = norm_id)) peers"

definition add_contact :: "string \<Rightarrow> string \<Rightarrow> int \<Rightarrow> gui_state \<Rightarrow> (string + unit) \<times> gui_state" where
  "add_contact name node_id now g =
     (let final_node_id = normalize_node_id node_id in
      if length final_node_id \<noteq> 8 \<or> \<not> list_all is_hexdigit final_node_id then
        (Inl ''Device ID must be exactly 8 hex characters.'', g)
      else let (ip, port) = (case find_peer name final_node_id (gui_peers g) of
                 Some p \<Rightarrow> (show_ipv4 (fst (pi_socket_addr p)), snd (pi_socket_addr p))
               | None \<Rightarrow> ([], 0))
           in (Inr (), g\<lparr>gs_db := upsert_contact (gs_db g) name final_node_id ip port now\<rparr>))"

definition remove_contact :: "string \<Rightarrow> gui_state \<Rightarrow> gui_state" where
  "remove_contact name g = g\<lparr>gs_db := delete_contact (gs_db g) name\<rparr>"

record contact_entry =
  ce_name :: string
  ce_node_id :: string
  ce_online :: bool
  ce_online_error :: "string option"

text \<open>
  Whether a contact is online: seen on the network, or reached by a QUIC connection.
  \<open>probe\<close> is the outcome of that connection: success, an error text, or a timeout (\<open>None\<close>).
\<close>

definition contact_status ::
  "'h hash_lib \<Rightarrow> bool \<Rightarrow> (contact \<Rightarrow> (string + unit) option) \<Rightarrow> bool \<Rightarrow> contact \<Rightarrow> bool \<times> string option" where
  "contact_status L endpoint probe is_on_lan c =
     (if is_on_lan then (True, None)
      else if \<not> endpoint then (False, None)
      else case derive_secret_key_from_short_id L (ct_peer_id c) of
        Inl _ \<Rightarrow> (False, Some ''Invalid node ID'')
      | Inr _ \<Rightarrow>
     (case probe c of
        Some (Inr _) \<Rightarrow> (True, None)
      | Some (Inl msg) \<Rightarrow>
          (False, if contains_str msg ''No addressing information''
             then Some ''Peer address not found. Share your device ID again.'' else None)
      | None \<Rightarrow> (False, None)))"

text \<open>The address of a peer that is seen is stored with its contact.\<close>

definition refresh_contact :: "peer_info list \<Rightarrow> int \<Rightarrow> contact \<Rightarrow> resume_db \<Rightarrow> resume_db" where
  "refresh_contact lan_peers now c db =
     (case find_peer (ct_name c) (normalize_node_id (ct_peer_id c)) lan_peers of
        Some p \<Rightarrow> upsert_contact db (ct_name c) (ct_peer_id c) (show_ipv4 (fst (pi_socket_addr p)))
          (snd (pi_socket_addr p)) now
      | None \<Rightarrow> db)"

definition gui_list_contacts ::
  "'h hash_lib \<Rightarrow> bool \<Rightarrow> (contact \<Rightarrow> (string + unit) option) \<Rightarrow> int \<Rightarrow> gui_state
     \<Rightarrow> contact_entry list \<times> gui_state" where
  "gui_list_contacts L endpoint probe now g =
     (let contacts = list_contacts (gs_db g);
          lan_peers = gui_peers g;
          db = fold (refresh_contact lan_peers now) contacts (gs_db g);
          results = map (\<lambda>c.
            let (online, err) = contact_status L endpoint probe
                  (find_peer (ct_name c) (normalize_node_id (ct_peer_id c)) lan_peers \<noteq> None) c
            in \<lparr>ce_name = ct_name c, ce_node_id = ct_peer_id c, ce_online = online, ce_online_error = err\<rparr>) contacts
      in (results, g\<lparr>gs_db := db\<rparr>))"

section \<open>Local addresses\<close>

text \<open>A text that is an IPv6 address counts as not local (the code knows \<open>::1\<close>).\<close>

definition is_private :: "ipv4 \<Rightarrow> bool" where
  "is_private a = (a ! 0 = 10 \<or> (a ! 0 = 172 \<and> 16 \<le> a ! 1 \<and> a ! 1 \<le> 31) \<or> (a ! 0 = 192 \<and> a ! 1 = 168))"

definition is_same_lan :: "string \<Rightarrow> bool" where
  "is_same_lan peer_ip =
     (if peer_ip = [] then False
      else case parse_ipv4 peer_ip of
        None \<Rightarrow> False
      | Some v4 \<Rightarrow> is_private v4 \<or> v4 ! 0 = 127 \<or> (v4 ! 0 = 169 \<and> v4 ! 1 = 254))"

section \<open>Sizes of files and directories\<close>

text \<open>Sums wrap around at 64 bits; a directory that cannot be listed ends the walk.\<close>

fun get_dir_size :: "fs_node \<Rightarrow> string + u64" and entries_size :: "(string \<times> fs_node) list \<Rightarrow> string + u64" where
  "get_dir_size (FileNode d) = Inr 0"
| "get_dir_size (DirNode ok es) = (if ok then entries_size es else Inl ''Permission denied'')"
| "entries_size [] = Inr 0"
| "entries_size ((name, FileNode d) # es) = res_bind (entries_size es) (\<lambda>n. Inr (len64 d + n))"
| "entries_size ((name, DirNode ok fs) # es) =
     res_bind (get_dir_size (DirNode ok fs)) (\<lambda>m. res_bind (entries_size es) (\<lambda>n. Inr (m + n)))"

record file_meta =
  fm_path :: string
  fm_name :: string
  fm_size :: u64
  fm_is_dir :: bool

definition get_files_metadata :: "(path \<Rightarrow> fs_node option) \<Rightarrow> string list \<Rightarrow> file_meta list" where
  "get_files_metadata node paths = map (\<lambda>p.
     let path_buf = path_of p;
         name = opt_default p (file_name path_buf);
         dir = is_dir (node path_buf);
         size = (if dir then (case get_dir_size (the (node path_buf)) of Inl _ \<Rightarrow> 0 | Inr n \<Rightarrow> n)
                 else case node path_buf of Some (FileNode d) \<Rightarrow> len64 d | _ \<Rightarrow> 0)
     in \<lparr>fm_path = p, fm_name = name, fm_size = size, fm_is_dir = dir\<rparr>) paths"

section \<open>Configuration\<close>

text \<open>
  A TOML document read as a JSON object. Whatever the key, \<open>set_config\<close> stores the text it
  gets as a string.
\<close>

record 'v value_lib =
  vl_from_toml :: "string \<Rightarrow> (string \<rightharpoonup> 'v) option"
  vl_to_toml :: "(string \<rightharpoonup> 'v) \<Rightarrow> string + string"
  vl_string :: "string \<Rightarrow> 'v"
  vl_number :: "nat \<Rightarrow> 'v"

definition gui_read_config :: "'v value_lib \<Rightarrow> main_env \<Rightarrow> text_files \<Rightarrow> path \<Rightarrow> string + (string \<rightharpoonup> 'v)" where
  "gui_read_config V M fs p =
     (if \<not> me_readable M p then Inl ''Permission denied''
      else case vl_from_toml V (opt_default [] (fs p)) of None \<Rightarrow> Inl ''parse'' | Some obj \<Rightarrow> Inr obj)"

definition gui_get_config :: "'v value_lib \<Rightarrow> main_env \<Rightarrow> text_files \<Rightarrow> string + (string \<rightharpoonup> 'v)" where
  "gui_get_config V M fs =
     (let config_path = get_default_config_path (me_config_dir M) in
      if fs config_path \<noteq> None then gui_read_config V M fs config_path
      else Inr [''tcp_port'' \<mapsto> vl_number V 9877, ''chunk_size'' \<mapsto> vl_number V 16777216,
             ''compression_level'' \<mapsto> vl_number V 10, ''discovery_port'' \<mapsto> vl_number V 9876])"

definition gui_set_config ::
  "'v value_lib \<Rightarrow> main_env \<Rightarrow> string \<Rightarrow> string \<Rightarrow> text_files \<Rightarrow> (string + unit) \<times> text_files" where
  "gui_set_config V M key val fs =
     (let config_path = get_default_config_path (me_config_dir M) in
      case (if fs config_path \<noteq> None then gui_read_config V M fs config_path else Inr Map.empty) of
        Inl e \<Rightarrow> (Inl e, fs)
      | Inr obj \<Rightarrow>
     (let obj = obj(key \<mapsto> vl_string V val) in
      if (case parent config_path of Some d \<Rightarrow> \<not> me_mkdir M d | None \<Rightarrow> False) then (Inl ''create_dir_all'', fs)
      else case vl_to_toml V obj of
        Inl e \<Rightarrow> (Inl e, fs)
      | Inr toml_str \<Rightarrow>
          if \<not> me_writable M config_path then (Inl ''write'', fs) else (Inr (), fs(config_path \<mapsto> toml_str))))"

section \<open>Identity\<close>

text \<open>
  \<open>load_or_create_identity\<close>. \<open>remove_dir_all\<close> removes every file below a directory. The
  files can be removed; their reading and writing is as the environment says.
\<close>

definition below :: "path \<Rightarrow> path \<Rightarrow> bool" where
  "below d p = (components d \<noteq> components p \<and> take (length (components d)) (components p) = components d)"

definition id_valid :: "string \<Rightarrow> bool" where
  "id_valid trimmed = (length trimmed = 8 \<and> list_all is_hexdigit trimmed)"

definition identity_reset :: "path \<Rightarrow> path \<Rightarrow> path \<Rightarrow> text_files \<Rightarrow> text_files" where
  "identity_reset resume_dir config_path short_id_path fs =
     (\<lambda>p. if below resume_dir p \<or> p = config_path \<or> p = short_id_path then None else fs p)"

definition load_or_create_identity ::
  "'h hash_lib \<Rightarrow> main_env \<Rightarrow> (nat \<Rightarrow> nat) \<Rightarrow> path \<Rightarrow> text_files
     \<Rightarrow> (string + string \<times> byte list) \<times> text_files" where
  "load_or_create_identity L M draw data_dir fs =
     (let old_key_path = path_join data_dir (path_of ''identity.key'');
          short_id_path = path_join data_dir (path_of ''short_id.txt'');
          config_path = get_default_config_path (me_config_dir M);
          resume_dir = path_join data_dir (path_of ''resume'');
          fs = fs(old_key_path := None);
          needs_reset = (case fs short_id_path of
              None \<Rightarrow> True
            | Some content \<Rightarrow> \<not> me_readable M short_id_path \<or> \<not> id_valid (trim content));
          fs = (if needs_reset then identity_reset resume_dir config_path short_id_path fs else fs);
          (r, fs) =
            (case fs short_id_path of
               Some content \<Rightarrow>
                 (if me_readable M short_id_path then Inr (map upper_char (trim content)) else Inl ''read'', fs)
             | None \<Rightarrow>
                 if \<not> me_mkdir M data_dir then (Inl ''create_dir_all'', fs)
                 else let i = generate_random_short_id draw in
                   if me_writable M short_id_path then (Inr i, fs(short_id_path \<mapsto> i)) else (Inl ''write'', fs))
      in case r of
           Inl e \<Rightarrow> (Inl e, fs)
         | Inr short_id \<Rightarrow> (res_bind (derive_secret_key_from_short_id L short_id) (\<lambda>secret. Inr (short_id, secret)), fs))"

section \<open>Identifiers\<close>

lemma of_char_upper: "(of_char (upper_char c) :: nat) = (let n = of_char c in if 97 \<le> n \<and> n \<le> 122 then n - 32 else n)"
proof -
  have "(n - 32) mod 256 = n - 32" if "n \<le> 122" for n :: nat
    using that by simp
  then show ?thesis by (auto simp: upper_char_def Let_def)
qed

lemma upper_char_upper: "upper_char (upper_char c) = upper_char c"
  using of_char_upper [of c] by (auto simp: upper_char_def [of "upper_char c"] Let_def)

lemma upper_upper [simp]: "map upper_char (map upper_char s) = map upper_char s"
  by (simp add: upper_char_upper)

lemma hexdigit_facts:
  assumes "is_hexdigit c"
  shows "\<not> is_space c" "c \<noteq> CHR ''-''" "is_hexdigit (upper_char c)"
proof -
  show "\<not> is_space c" using assms by (auto simp: is_hexdigit_def is_space_def Let_def)
  have "\<not> is_hexdigit CHR ''-''" by (simp add: is_hexdigit_def)
  then show "c \<noteq> CHR ''-''" using assms by auto
  show "is_hexdigit (upper_char c)"
    using assms by (auto simp: is_hexdigit_def of_char_upper Let_def)
qed

lemma upper_dash: "upper_char c = CHR ''-'' \<longleftrightarrow> c = CHR ''-''"
proof
  assume "upper_char c = CHR ''-''"
  then have "(of_char (upper_char c) :: nat) = of_char CHR ''-''" by simp
  then have "(of_char c :: nat) = of_char CHR ''-''" by (auto simp: of_char_upper Let_def split: if_splits)
  then show "c = CHR ''-''" by (simp only: of_char_eq_iff)
qed (simp add: upper_char_def)

lemma upper_space: "is_space (upper_char c) \<longleftrightarrow> is_space c"
  by (auto simp: is_space_def of_char_upper Let_def)

lemma map_upper_props:
  assumes "map upper_char s = map upper_char t"
  shows "list_ex is_space s = list_ex is_space t"
    "map upper_char (filter (\<lambda>c. c \<noteq> CHR ''-'') s) = map upper_char (filter (\<lambda>c. c \<noteq> CHR ''-'') t)"
proof -
  have a: "list_ex is_space (map upper_char u) = list_ex is_space u" for u
    by (induction u) (simp_all add: upper_space)
  have b: "filter (\<lambda>c. c \<noteq> CHR ''-'') (map upper_char u) = map upper_char (filter (\<lambda>c. c \<noteq> CHR ''-'') u)" for u
    by (induction u) (simp_all add: upper_dash)
  show "list_ex is_space s = list_ex is_space t" using a [of s] a [of t] assms by simp
  show "map upper_char (filter (\<lambda>c. c \<noteq> CHR ''-'') s) = map upper_char (filter (\<lambda>c. c \<noteq> CHR ''-'') t)"
    using b [of s] b [of t] assms by simp
qed

lemma id_valid_upper: "id_valid s \<Longrightarrow> id_valid (map upper_char s) \<and> trim s = s"
  by (auto simp: id_valid_def list_all_iff hexdigit_facts list_ex_iff intro!: trim_no_space)

lemma generated_id_valid:
  assumes "\<forall>i. draw i < 16"
  shows "id_valid (generate_random_short_id draw) \<and> map upper_char (generate_random_short_id draw) = generate_random_short_id draw"
  using generated_hex [OF assms] by (auto simp: id_valid_def list_all_iff hex_char_facts map_upper_hex)

text \<open>The two forms of an identifier: as shown, and normalised.\<close>

lemma normalize_shown:
  assumes "id_valid i" "list_all is_space l" "list_all is_space r" "eq_ignore_case t (take 4 i @ ''-'' @ take 4 (drop 4 i))"
  shows "normalize_node_id (l @ t @ r) = map upper_char i"
proof -
  let ?f = "filter (\<lambda>c. c \<noteq> CHR ''-'')"
  have hex: "c \<noteq> CHR ''-''" if "c \<in> set i" for c
    using assms(1) that hexdigit_facts(2) [of c] by (auto simp: id_valid_def list_all_iff)
  then have f: "?f i = i" "?f (take 4 i) = take 4 i" "?f (take 4 (drop 4 i)) = take 4 (drop 4 i)"
    by (auto intro!: filter_True dest: in_set_takeD in_set_dropD)
  have "length i = 8" using assms(1) by (simp add: id_valid_def)
  then have "take 4 i @ take 4 (drop 4 i) = i" by (metis append_take_drop_id length_drop take_all_iff numeral_Bit0_eq_double
        diff_add_inverse2 mult_2 order_refl numeral_Bit0 numeral_plus_numeral add_diff_cancel_left')
  then have t: "map upper_char (?f t) = map upper_char i"
    using map_upper_props(2) [OF assms(4) [unfolded eq_ignore_case_def]] f by simp
  have sp: "\<not> is_space CHR ''-''" by (simp add: is_space_def)
  have "?f u = u" if "list_all is_space u" for u
    using that sp by (auto simp: list_all_iff intro!: filter_True)
  then have "?f (l @ t @ r) = l @ ?f t @ r" using assms(2,3) by simp
  moreover have "\<not> list_ex is_space (?f t)"
    using map_upper_props(1) [OF t] assms(1) by (auto simp: id_valid_def list_all_iff list_ex_iff hexdigit_facts)
  then have "trim (l @ ?f t @ r) = ?f t"
    using assms(2,3) hd_in_set [of "?f t"] last_in_set [of "?f t"] unfolding list_ex_iff by (intro trim_pad) blast+
  ultimately show ?thesis using t by (simp add: normalize_node_id_def)
qed

section \<open>The identity of a device\<close>

definition short_id_path :: "path \<Rightarrow> path" where
  "short_id_path data_dir = path_join data_dir (path_of ''short_id.txt'')"

lemma short_id_path_other: "path_join d (path_of ''identity.key'') \<noteq> path_join d (path_of ''short_id.txt'')"
proof -
  have "components (path_of ''identity.key'') = [Normal ''identity.key'']"
    "components (path_of ''short_id.txt'') = [Normal ''short_id.txt'']"
    "path_of ''identity.key'' \<noteq> path_of ''short_id.txt''" by code_simp+
  then show ?thesis by (simp add: path_join_def is_absolute_def)
qed

lemma identity_state:
  assumes "\<forall>i. draw i < 16" "me_readable M (short_id_path d)"
    and "load_or_create_identity L M draw d fs = (Inr (i, k), fs')"
  shows "\<exists>content. fs' (short_id_path d) = Some content \<and> id_valid (trim content) \<and> i = map upper_char (trim content)
    \<and> derive_secret_key_from_short_id L i = Inr k \<and> fs' (path_join d (path_of ''identity.key'')) = None"
proof -
  let ?p = "short_id_path d" and ?old = "path_join d (path_of ''identity.key'')"
  have ne: "?old \<noteq> ?p" using short_id_path_other by (simp add: short_id_path_def)
  show ?thesis
  proof (cases "\<exists>content. fs ?p = Some content \<and> id_valid (trim content)")
    case True
    with assms(2,3) ne show ?thesis
      by (auto simp: load_or_create_identity_def short_id_path_def Let_def res_bind_Inr)
  next
    case False
    let ?g = "generate_random_short_id draw"
    have "fs' = (identity_reset (path_join d (path_of ''resume'')) (get_default_config_path (me_config_dir M)) ?p (fs(?old := None)))
        (?p \<mapsto> ?g) \<and> i = ?g \<and> derive_secret_key_from_short_id L ?g = Inr k"
      using False assms(2,3) ne
      by (auto simp: load_or_create_identity_def identity_reset_def short_id_path_def Let_def res_bind_Inr
          split: if_splits option.splits)
    moreover from generated_id_valid [OF assms(1)] id_valid_upper
    have "id_valid (trim ?g) \<and> ?g = map upper_char (trim ?g)" by metis
    ultimately show ?thesis using ne by (auto simp: identity_reset_def)
  qed
qed

text \<open>
  C38. The identity of a device is permanent: once it has been loaded or created, every later
  start of the application finds the same identifier and the same key, whatever the random
  generator draws, and changes no file.
\<close>

theorem identity_is_permanent:
  assumes "\<forall>i. draw i < 16" "me_readable M (short_id_path d)"
    and "load_or_create_identity L M draw d fs = (Inr (i, k), fs')"
  shows "load_or_create_identity L M draw' d fs' = (Inr (i, k), fs')"
proof -
  from identity_state [OF assms] obtain content where
    c: "fs' (path_join d (path_of ''short_id.txt'')) = Some content" "id_valid (trim content)"
      "i = map upper_char (trim content)" "derive_secret_key_from_short_id L i = Inr k"
      "fs' (path_join d (path_of ''identity.key'')) = None"
    by (auto simp: short_id_path_def)
  have same: "fs'(path_join d (path_of ''identity.key'') := None) = fs'" using c(5) by auto
  show ?thesis
    using c(1-4) assms(2) unfolding load_or_create_identity_def Let_def same by (simp add: short_id_path_def)
qed

text \<open>
  The first start of the desktop application, and every start that finds no valid
  identifier, removes the configuration file the command line tool uses and everything in
  the directory of the database of transfers and contacts, whether or not it then succeeds.
\<close>

theorem first_start_wipes:
  assumes "\<forall>content. fs (short_id_path d) = Some content \<longrightarrow> \<not> id_valid (trim content)"
    and "p = get_default_config_path (me_config_dir M) \<or> below (path_join d (path_of ''resume'')) p" "p \<noteq> short_id_path d"
  shows "snd (load_or_create_identity L M draw d fs) p = None"
proof -
  let ?old = "path_join d (path_of ''identity.key'')" and ?sp = "path_join d (path_of ''short_id.txt'')"
  let ?fs = "identity_reset (path_join d (path_of ''resume'')) (get_default_config_path (me_config_dir M)) ?sp (fs(?old := None))"
  have reset: "(case (fs(?old := None)) ?sp of None \<Rightarrow> True
      | Some content \<Rightarrow> \<not> me_readable M ?sp \<or> \<not> id_valid (trim content))"
    using assms(1) short_id_path_other [of d] by (simp add: short_id_path_def split: option.split)
  have "?fs ?sp = None" "?fs p = None" using assms(2) by (auto simp: identity_reset_def)
  with assms(3) show ?thesis
    unfolding load_or_create_identity_def Let_def using reset
    by (simp add: short_id_path_def split: sum.split)
qed

text \<open>
  C39. What one device shows another can type: the identifier displayed by a device, typed
  with spaces around it and in either case, is accepted as a contact, and the key derived
  from the stored contact is the key of the device that showed it.
\<close>

theorem shown_identifier_works:
  assumes "\<forall>i. draw i < 16" "me_readable M (short_id_path d)"
    and "load_or_create_identity L M draw d fs = (Inr (i, k), fs')" "gs_device_id g = i"
    and "list_all is_space l" "list_all is_space r" "eq_ignore_case t (get_device_id g)"
  shows "\<exists>g2' c. add_contact name (l @ t @ r) now g2 = (Inr (), g2')
    \<and> get_contact (gs_db g2') name = Some c \<and> derive_secret_key_from_short_id L (ct_peer_id c) = Inr k"
proof -
  from identity_state [OF assms(1-3)] obtain content where
    c: "id_valid (trim content)" "i = map upper_char (trim content)" "derive_secret_key_from_short_id L i = Inr k" by blast
  then have i: "id_valid i" "map upper_char i = i" using id_valid_upper by (blast, simp add: upper_char_upper)
  then have shown: "get_device_id g = take 4 i @ ''-'' @ take 4 (drop 4 i)"
    using assms(4) by (simp add: get_device_id_def id_valid_def)
  from normalize_shown [OF i(1) assms(5,6)] assms(7) i(2) shown
  have "normalize_node_id (l @ t @ r) = i" by simp
  with i(1) c(3) show ?thesis
    by (auto simp: add_contact_def id_valid_def contacts_are_a_map Let_def split: prod.splits option.splits)
qed

section \<open>At a concrete device\<close>

definition demo_draw :: "nat \<Rightarrow> nat" where
  "demo_draw i = [10, 11, 12, 0, 1, 2, 3, 4] ! (i mod 8)"

lemma demo_draw_id: "generate_random_short_id demo_draw = ''ABC01234''"
  by code_simp

lemma demo_draw_bound: "\<forall>i. demo_draw i < 16"
proof
  fix i
  have "list_all (\<lambda>n. demo_draw n < 16) [0..<8]" by code_simp
  then have "demo_draw (i mod 8) < 16" by (simp add: list_all_iff)
  then show "demo_draw i < 16" by (simp add: demo_draw_def)
qed

definition demo_id_fs :: text_files where
  "demo_id_fs = [path_join (path_of ''/d'') (path_of ''resume/transfers.db'') \<mapsto> ''x'']"

lemma demo_key: "\<exists>k. derive_secret_key_from_short_id demo_hash ''ABC01234'' = Inr k"
  using short_id_accepted [OF demo_hash_streaming demo_draw_bound, of "''ABC01234''" "[]" "[]"]
    generated_id_valid [OF demo_draw_bound]
  by (auto simp: demo_draw_id id_valid_def list_ex_iff list_all_iff hexdigit_facts)

lemma demo_identity:
  "\<exists>k fs'. load_or_create_identity demo_hash demo_main_env demo_draw (path_of ''/d'') fs = (Inr (''ABC01234'', k), fs')"
  if "fs (short_id_path (path_of ''/d'')) = None"
proof -
  obtain k where "derive_secret_key_from_short_id demo_hash ''ABC01234'' = Inr k" using demo_key by blast
  with that short_id_path_other [of "path_of ''/d''"] show ?thesis
    by (simp add: load_or_create_identity_def identity_reset_def short_id_path_def demo_main_env_def demo_draw_id Let_def)
qed

theorem identity_is_permanent_witness:
  "\<exists>k fs'. load_or_create_identity demo_hash demo_main_env demo_draw (path_of ''/d'') Map.empty = (Inr (''ABC01234'', k), fs')
     \<and> load_or_create_identity demo_hash demo_main_env (\<lambda>_. 0) (path_of ''/d'') fs' = (Inr (''ABC01234'', k), fs')"
proof -
  obtain k fs' where run: "load_or_create_identity demo_hash demo_main_env demo_draw (path_of ''/d'') Map.empty = (Inr (''ABC01234'', k), fs')"
    using demo_identity [of Map.empty] by auto
  have "me_readable demo_main_env (short_id_path (path_of ''/d''))" by (simp add: demo_main_env_def)
  from identity_is_permanent [OF demo_draw_bound this run] run show ?thesis by blast
qed

theorem first_start_wipes_witness:
  "demo_id_fs (path_of ''/d/resume/transfers.db'') = Some ''x''
   \<and> snd (load_or_create_identity demo_hash demo_main_env demo_draw (path_of ''/d'') demo_id_fs) (path_of ''/d/resume/transfers.db'') = None"
proof -
  have p: "path_join (path_of ''/d'') (path_of ''resume/transfers.db'') = path_of ''/d/resume/transfers.db''"
    "short_id_path (path_of ''/d'') \<noteq> path_of ''/d/resume/transfers.db''"
    "below (path_join (path_of ''/d'') (path_of ''resume'')) (path_of ''/d/resume/transfers.db'')" by code_simp+
  have fs: "demo_id_fs (path_of ''/d/resume/transfers.db'') = Some ''x''" "demo_id_fs (short_id_path (path_of ''/d'')) = None"
    using p by (simp_all add: demo_id_fs_def)
  have "snd (load_or_create_identity demo_hash demo_main_env demo_draw (path_of ''/d'') demo_id_fs) (path_of ''/d/resume/transfers.db'') = None"
    by (rule first_start_wipes) (use p fs in auto)
  with fs show ?thesis by simp
qed

theorem shown_identifier_works_witness:
  "\<exists>k fs' g2' c. load_or_create_identity demo_hash demo_main_env demo_draw (path_of ''/d'') Map.empty = (Inr (''ABC01234'', k), fs')
     \<and> add_contact ''bo'' ('' abc0-1234'' @ '' '') 7 (\<lparr>gs_world = world_new, gs_db = demo_db, gs_discovery = None, gs_device_id = [],
          gs_device_name = ''me'', gs_output_dir = ''.'', gs_pending_files = []\<rparr>) = (Inr (), g2')
     \<and> get_contact (gs_db g2') ''bo'' = Some c \<and> derive_secret_key_from_short_id demo_hash (ct_peer_id c) = Inr k"
proof -
  obtain k fs' where run: "load_or_create_identity demo_hash demo_main_env demo_draw (path_of ''/d'') Map.empty = (Inr (''ABC01234'', k), fs')"
    using demo_identity [of Map.empty] by auto
  let ?g = "\<lparr>gs_world = world_new, gs_db = demo_db, gs_discovery = None, gs_device_id = ''ABC01234'',
          gs_device_name = ''me'', gs_output_dir = ''.'', gs_pending_files = []\<rparr>"
  have r: "me_readable demo_main_env (short_id_path (path_of ''/d''))" by (simp add: demo_main_env_def)
  have up: "map upper_char ''ABC01234'' = ''ABC01234''" by code_simp
  then have "get_device_id ?g = ''ABC0-1234''" by (simp add: get_device_id_def)
  moreover have "eq_ignore_case ''abc0-1234'' ''ABC0-1234''" "list_all is_space '' ''" by code_simp+
  ultimately have "eq_ignore_case ''abc0-1234'' (get_device_id ?g)" "list_all is_space '' ''" by simp_all
  from shown_identifier_works [OF demo_draw_bound r run, of ?g "'' ''" "'' ''" "''abc0-1234''" "''bo''" 7 "?g\<lparr>gs_device_id := []\<rparr>"] this
  run show ?thesis by simp
qed

section \<open>One configuration file, two programs\<close>

text \<open>
  A number set in the desktop application stops the command line tool: the value is
  stored as a string, and as the tool does not accept a string for its port, from then on
  every command of the tool fails, \<open>config --set\<close> and \<open>config --reset\<close> included.
\<close>

theorem gui_set_config_breaks_cli:
  assumes "\<And>obj t. obj ''tcp_port'' = Some (vl_string V val) \<Longrightarrow> vl_to_toml V obj = Inr t \<Longrightarrow> tl_from_str (me_toml M) t = None"
    and "gui_set_config V M ''tcp_port'' val fs = (Inr (), fs')" "cli_config args = None"
  shows "\<exists>e. main M args fs' = (Failed_With e, fs')"
proof -
  let ?p = "get_default_config_path (me_config_dir M)"
  obtain obj t where t: "vl_to_toml V (obj(''tcp_port'' \<mapsto> vl_string V val)) = Inr t" "fs' ?p = Some t"
    using assms(2) by (auto simp: gui_set_config_def Let_def split: sum.splits if_splits option.splits)
  with assms(1) [OF _ t(1)] main_unparsable [of M args ?p fs' t] assms(3) show ?thesis by (auto simp: opt_default_def)
qed

definition demo_value_lib :: "string value_lib" where
  "demo_value_lib = \<lparr>vl_from_toml = (\<lambda>t. None), vl_to_toml = (\<lambda>obj. Inr ''p''), vl_string = (\<lambda>s. s),
     vl_number = show_nat\<rparr>"

theorem gui_set_config_breaks_cli_witness:
  "\<exists>fs' e. gui_set_config demo_value_lib demo_main_env ''tcp_port'' ''80'' Map.empty = (Inr (), fs')
     \<and> main demo_main_env \<lparr>cli_command = Status, cli_config = None, cli_daemon = False\<rparr> fs' = (Failed_With e, fs')"
proof -
  have run: "gui_set_config demo_value_lib demo_main_env ''tcp_port'' ''80'' Map.empty
      = (Inr (), [get_default_config_path None \<mapsto> ''p''])"
    by (simp add: gui_set_config_def demo_value_lib_def demo_main_env_def Let_def split: option.split)
  have "tl_from_str (me_toml demo_main_env) t = None" if "vl_to_toml demo_value_lib obj = Inr t" for obj t
    using that by (auto simp: demo_main_env_def demo_toml_def demo_value_lib_def)
  from gui_set_config_breaks_cli [OF this run] run show ?thesis by fastforce
qed

end
