(* ===== verification/Gui_Send.thy ===== *)
theory Gui_Send
  imports Tcp_Send Resume
begin

text \<open>
  The two TCP senders of the desktop application (\<open>p2ptransfer-gui/src-tauri/src/main.rs\<close>):
  \<open>send_file_direct_tcp\<close>, which the queue of \<open>send_to_contact\<close> uses, a copy of the sender of
  \<open>tcp_compat.rs\<close> that leaves the registries to its caller; and the command \<open>send_file\<close>, which
  acknowledges chunk by chunk and expects a bare \<open>ACCEPT\<close>. Phases that are the same as in
  the core are those of \<open>Tcp_Send\<close>.
\<close>

section \<open>The sender of the queue\<close>

definition gui_send_connect ::
  "bool \<Rightarrow> string \<Rightarrow> string \<Rightarrow> u16 \<Rightarrow> world \<Rightarrow> (string + unit) \<times> world" where
  "gui_send_connect connects i ip port w =
     (let w = emit (SendStatus i ''connecting'') w in
      case parse_socket_addr (ip @ '':'' @ show_nat (unat port)) of
        None \<Rightarrow> (Inl ''invalid socket address syntax'', w)
      | Some a \<Rightarrow>
          if \<not> connects then (Inl (connect_failed_text a), w)
          else (Inr (), emit (SendStatus i ''accepted'') w))"

text \<open>Without a flag in the table the loop neither pauses nor sees a cancel.\<close>

definition gui_send_turn ::
  "nat option \<Rightarrow> send_ctx \<Rightarrow> send_turn \<Rightarrow> send_state \<Rightarrow> send_ctl \<times> send_state" where
  "gui_send_turn flag x t s =
     (let s = s\<lparr>ss_world := apply_cmds (st_user t) (ss_world s)\<rparr> in
      case flag of
        None \<Rightarrow>
          let s = s\<lparr>ss_world := apply_cmds (st_user_dequeue t) (ss_world s)\<rparr> in tcp_send_dequeue x t s
      | Some r \<Rightarrow>
     (case wait_result (flag_at r (ss_world s)) of
        None \<Rightarrow> (SendContinue, s)
      | Some True \<Rightarrow> (SendReturn cancel_text, s)
      | Some False \<Rightarrow>
          let s = s\<lparr>ss_world := apply_cmds (st_user_dequeue t) (ss_world s)\<rparr> in
          if is_cancelled (flag_at r (ss_world s)) then (SendReturn cancel_text, s)
          else tcp_send_dequeue x t s))"

fun gui_send_loop :: "nat option \<Rightarrow> send_ctx \<Rightarrow> send_turn list \<Rightarrow> send_state
    \<Rightarrow> ((string + unit) \<times> send_state) option" where
  "gui_send_loop flag x [] s = None"
| "gui_send_loop flag x (t # ts) s =
     (case gui_send_turn flag x t s of
        (SendContinue, s') \<Rightarrow> gui_send_loop flag x ts s'
      | (SendBreak, s') \<Rightarrow> Some (Inr (), s')
      | (SendReturn e, s') \<Rightarrow> Some (Inl e, s'))"

definition gui_send_after_loop ::
  "string \<Rightarrow> string + string \<Rightarrow> string + unit \<Rightarrow> send_state \<Rightarrow> send_result" where
  "gui_send_after_loop i reader r s =
     (case r of
        Inl cancel_msg \<Rightarrow>
          (Inl cancel_msg, snd (conn_send (TAG_ERROR # bytes_of cancel_msg) (ss_conn s)),
           emit (Cancelled i) (ss_world s))
      | Inr _ \<Rightarrow>
          (case reader of
             Inl e \<Rightarrow> (Inl e, ss_conn s, ss_world s)
           | Inr final_hash \<Rightarrow>
               let (res, c) = tcp_send_complete final_hash (ss_conn s) in (res, c, ss_world s)))"

definition gui_send_direct ::
  "'h hash_lib \<Rightarrow> send_env \<Rightarrow> string \<Rightarrow> string \<Rightarrow> string \<Rightarrow> u16 \<Rightarrow> conn \<Rightarrow> world \<Rightarrow> filesystem
     \<Rightarrow> send_result option" where
  "gui_send_direct L E i path_arg ip port c w fs =
     (case gui_send_connect (se_connects E) i ip port w of
        (Inl e, w) \<Rightarrow> Some (Inl e, c, w)
      | (Inr _, w) \<Rightarrow>
     (case tcp_send_hello (se_crypto E) (se_secret E) c of
        (Inl e, c) \<Rightarrow> Some (Inl e, c, w)
      | (Inr key, c) \<Rightarrow>
     (let p = path_of path_arg; prefix = generate_nonce_prefix (se_rng E) in
      case tcp_send_metadata L E fs p False prefix c of
        (Inl e, c) \<Rightarrow> Some (Inl e, c, w)
      | (Inr (md, start_offset), c) \<Rightarrow>
     (let w = emit (SendStatus i ''transferring'') w;
          (frames, reader) = tcp_reader L (se_crypto E) (se_io E) fs p key prefix start_offset;
          flag = w_flags w i;
          x = \<lparr>sc_id = i, sc_flag = opt_default 0 flag, sc_total = md_file_size md\<rparr>;
          s = \<lparr>ss_conn = c, ss_world = w, ss_frames = frames, ss_bytes = start_offset\<rparr>
      in map_option (\<lambda>(r, s). gui_send_after_loop i reader r s)
           (gui_send_loop flag x (se_turns E) s)))))"

section \<open>The command \<open>send_file\<close>\<close>

definition gui_fallback_text :: "ipv4 \<times> u16 \<Rightarrow> string" where
  "gui_fallback_text a = ''Cannot reach '' @ show_socket_addr a @ ''.''"

text \<open>The address: that of the contact of this name, if there is one.\<close>

definition gui_resolve :: "resume_db \<Rightarrow> string \<Rightarrow> string" where
  "gui_resolve db peer =
     (case get_contact db peer of
        Some c \<Rightarrow> ct_last_known_ip c @ '':'' @ show_nat (unat (ct_last_known_port c))
      | None \<Rightarrow> peer)"

definition gui_connect :: "bool \<Rightarrow> resume_db \<Rightarrow> string \<Rightarrow> string + unit" where
  "gui_connect connects db peer =
     (case parse_socket_addr (gui_resolve db peer) of
        None \<Rightarrow> Inl (''Cannot resolve '' @ [CHR 39] @ peer @ [CHR 39])
      | Some peer_addr \<Rightarrow> if connects then Inr () else Inl (gui_fallback_text peer_addr))"

definition gui_file_hello ::
  "crypto_lib \<Rightarrow> byte list \<Rightarrow> conn \<Rightarrow> (string + byte list) \<times> conn" where
  "gui_file_hello C secret c =
     (let kx = ecdh_new C secret in
      case conn_send (0x05 # public_key_bytes kx) c of
        (Inl e, c) \<Rightarrow> (Inl e, c)
      | (Inr _, c) \<Rightarrow>
     (case conn_receive c of
        (Inl e, c) \<Rightarrow> (Inl e, c)
      | (Inr response, c) \<Rightarrow>
          if response = [] \<or> hd response \<noteq> 0x06 then (Inl ''Expected SERVER_HELLO'', c)
          else if length (tl response) \<noteq> 32 then (Inl ''Invalid server pubkey'', c)
          else (session_key C kx (tl response), c)))"

definition gui_file_metadata ::
  "'h hash_lib \<Rightarrow> send_env \<Rightarrow> filesystem \<Rightarrow> path \<Rightarrow> conn \<Rightarrow> (string + transfer_metadata) \<times> conn" where
  "gui_file_metadata L E fs p c =
     (case create_metadata L (se_io E) fs p (16 * 1024 * 1024) False (se_session_uuid E) of
        Inl e \<Rightarrow> (Inl e, c)
      | Inr metadata \<Rightarrow>
     (let metadata = metadata\<lparr>md_nonce_prefix := generate_nonce_prefix (se_rng E)\<rparr> in
      case mc_enc (se_codec E) metadata of
        None \<Rightarrow> (Inl ''serialization failed'', c)
      | Some meta_json \<Rightarrow>
     (case conn_send (0x00 # meta_json) c of
        (Inl e, c) \<Rightarrow> (Inl e, c)
      | (Inr _, c) \<Rightarrow> (Inr metadata, c))))"

text \<open>\<open>n\<close> chunks from \<open>chunk_index\<close> on; what the peer answers to a chunk is not looked at.\<close>

fun gui_file_chunks ::
  "send_env \<Rightarrow> filesystem \<Rightarrow> path \<Rightarrow> transfer_metadata \<Rightarrow> byte list \<Rightarrow> nat \<Rightarrow> u64 \<Rightarrow> conn
     \<Rightarrow> (string + unit) \<times> conn" where
  "gui_file_chunks E fs p md key 0 chunk_index c = (Inr (), c)"
| "gui_file_chunks E fs p md key (Suc n) chunk_index c =
     (case prepare_chunk (se_io E) fs p md chunk_index of
        Inl e \<Rightarrow> (Inl e, c)
      | Inr chunk_data \<Rightarrow>
     (case encrypt (se_crypto E) key (build_nonce (md_nonce_prefix md) chunk_index) chunk_data of
        Inl e \<Rightarrow> (Inl e, c)
      | Inr encrypted \<Rightarrow>
     (case conn_send (chunk_frame chunk_index encrypted) c of
        (Inl e, c) \<Rightarrow> (Inl e, c)
      | (Inr _, c) \<Rightarrow>
     (case conn_receive c of
        (Inl e, c) \<Rightarrow> (Inl e, c)
      | (Inr _, c) \<Rightarrow> gui_file_chunks E fs p md key n (chunk_index + 1) c))))"

definition gui_send_file ::
  "'h hash_lib \<Rightarrow> send_env \<Rightarrow> string \<Rightarrow> string \<Rightarrow> resume_db \<Rightarrow> filesystem \<Rightarrow> conn
     \<Rightarrow> (string + string) \<times> conn" where
  "gui_send_file L E path_arg peer db fs c =
     (case gui_connect (se_connects E) db peer of
        Inl e \<Rightarrow> (Inl e, c)
      | Inr _ \<Rightarrow>
     (case gui_file_hello (se_crypto E) (se_secret E) c of
        (Inl e, c) \<Rightarrow> (Inl e, c)
      | (Inr enc_key, c) \<Rightarrow>
     (case gui_file_metadata L E fs (path_of path_arg) c of
        (Inl e, c) \<Rightarrow> (Inl e, c)
      | (Inr metadata, c) \<Rightarrow>
     (case conn_receive c of
        (Inl e, c) \<Rightarrow> (Inl e, c)
      | (Inr ack, c) \<Rightarrow>
     (if ack \<noteq> bytes_of ''ACCEPT'' then (Inl ''Transfer rejected'', c)
      else case gui_file_chunks E fs (path_of path_arg) metadata enc_key
                  (unat (md_total_chunks metadata)) 0 c of
        (Inl e, c) \<Rightarrow> (Inl e, c)
      | (Inr _, c) \<Rightarrow>
     (case conn_receive c of
        (Inl e, c) \<Rightarrow> (Inl e, c)
      | (Inr _, c) \<Rightarrow> (Inr ''Transfer complete'', c)))))))"

end
