(* ===== verification/Gui_Recv.thy ===== *)
theory Gui_Recv
  imports Tcp_Recv
begin

text \<open>
  \<open>handle_incoming\<close> of the desktop application (\<open>p2ptransfer-gui/src-tauri/src/main.rs\<close>), a
  copy of the receiver of \<open>tcp_compat.rs\<close> that has drifted from it: it does not look at
  \<open>force_restart\<close>, keeps the pause flag on an unexpected tag until the loop has ended, and
  removes the active entry once more on an error. Phases that are the same in both files are
  those of \<open>Tcp_Recv\<close>. The window that asks the user is left out.
\<close>

section \<open>Resuming\<close>

definition gui_resume_point :: "transfer_metadata \<Rightarrow> u64 \<Rightarrow> u64 \<times> bool" where
  "gui_resume_point md existing_len =
     (if existing_len > 0 \<and> existing_len < md_file_size md
      then (align_block LAN_BLOCK_SIZE existing_len, True)
      else (0, False))"

definition gui_recv_accept ::
  "string \<Rightarrow> transfer_metadata \<Rightarrow> path \<Rightarrow> filesystem \<Rightarrow> conn \<Rightarrow> (string + u64 \<times> bool) \<times> conn" where
  "gui_recv_accept addr md output_path fs c =
     (let (resume_offset, is_resume) = gui_resume_point md (existing_length output_path fs)
      in case conn_send (accept_frame resume_offset) c of
           (Inl e, c) \<Rightarrow> (Inl (''Failed to send ACCEPT to '' @ addr @ '': '' @ e), c)
         | (Inr _, c) \<Rightarrow> (Inr (resume_offset, is_resume), c))"

section \<open>The receive loop\<close>

definition gui_recv_frame ::
  "recv_ctx \<Rightarrow> recv_turn \<Rightarrow> byte list \<Rightarrow> recv_state \<Rightarrow> loop_ctl \<times> recv_state" where
  "gui_recv_frame x t msg s =
     (if msg = [] then
        recv_fail (rc_id x) ''Empty message received''
          (s\<lparr>rs_conn := send_err ''Empty message'' (rs_conn s)\<rparr>)
      else if hd msg = 0x01 then tcp_recv_chunk x t msg s
      else if hd msg = 0x03 then (Break, s\<lparr>rs_hash := utf8_lossy (tl msg)\<rparr>)
      else if hd msg = 0x04 then
        (let err = utf8_lossy (tl msg) in
         if mentions_cancel err then recv_fail (rc_id x) ''cancelled'' s
         else recv_fail (rc_id x) (''Sender error: '' @ err) s)
      else recv_fail (rc_id x) (''Unexpected message tag: 0x'' @ hex_byte (hd msg)) s)"

definition gui_recv_turn :: "recv_ctx \<Rightarrow> recv_turn \<Rightarrow> recv_state \<Rightarrow> loop_ctl \<times> recv_state" where
  "gui_recv_turn x t s =
     (let s = s\<lparr>rs_world := apply_cmds (rt_user t) (rs_world s)\<rparr> in
      case wait_result (flag_at (rc_flag x) (rs_world s)) of
        None \<Rightarrow> (Continue, s)
      | Some True \<Rightarrow> (Return (Inl ''cancelled''), s)
      | Some False \<Rightarrow>
          (case conn_receive (rs_conn s) of
             (Inl e, c) \<Rightarrow> recv_fail (rc_id x)
               (''Network read error from '' @ rc_addr x @ '': '' @ e) (s\<lparr>rs_conn := c\<rparr>)
           | (Inr msg, c) \<Rightarrow> gui_recv_frame x t msg (s\<lparr>rs_conn := c\<rparr>)))"

fun gui_recv_loop :: "recv_ctx \<Rightarrow> recv_turn list \<Rightarrow> recv_state
    \<Rightarrow> ((string + unit) \<times> recv_state) option" where
  "gui_recv_loop x [] s = None"
| "gui_recv_loop x (t # ts) s =
     (case gui_recv_turn x t s of
        (Continue, s') \<Rightarrow> gui_recv_loop x ts s'
      | (Break, s') \<Rightarrow> Some (Inr (), s')
      | (Return r, s') \<Rightarrow> Some (r, s'))"

section \<open>The end of a transfer\<close>

definition gui_recv_after_loop ::
  "'h hash_lib \<Rightarrow> recv_ctx \<Rightarrow> transfer_metadata \<Rightarrow> rat \<Rightarrow> string + unit \<Rightarrow> recv_state
     \<Rightarrow> recv_result" where
  "gui_recv_after_loop L x md elapsed r s =
     (let p = wc_path (rc_writer x); i = rc_id x;
          w = remove_flag i (rs_world s);
          fs = snd (tcp_writer (rc_writer x) (rs_blocks s) (rc_fs x))
      in case r of
           Inl e \<Rightarrow>
             if mentions_cancel e then
               (Inl ''Transfer cancelled by user'',
                snd (conn_send (0x04 # bytes_of ''Transfer cancelled by user'') (rs_conn s)),
                emit (Cancelled i) (remove_active i w), remove_file p fs)
             else (Inl e, rs_conn s, remove_active i w, remove_file p fs)
         | Inr _ \<Rightarrow> tcp_recv_finish L x md elapsed (s\<lparr>rs_world := w\<rparr>))"

definition gui_handle_incoming ::
  "'h hash_lib \<Rightarrow> recv_env \<Rightarrow> path \<Rightarrow> conn \<Rightarrow> world \<Rightarrow> filesystem \<Rightarrow> recv_result option" where
  "gui_handle_incoming L E output_dir c w fs =
     (case tcp_recv_hello (re_crypto E) (re_secret E) (re_addr E) c of
        (Inl e, c) \<Rightarrow> Some (Inl e, c, w, fs)
      | (Inr key, c) \<Rightarrow>
     (case tcp_recv_metadata (re_codec E) (re_addr E) c of
        (Inl e, c) \<Rightarrow> Some (Inl e, c, w, fs)
      | (Inr md, c) \<Rightarrow>
     (case tcp_recv_decide (re_uuid E) (re_addr E) md (re_answer E) w of
        (False, w) \<Rightarrow> Some (Inl ''Transfer rejected'', send_err ''timeout'' c, w, fs)
      | (True, w) \<Rightarrow>
     (let p = path_join output_dir (path_of (md_file_name md)) in
      case gui_recv_accept (re_addr E) md p fs c of
        (Inl e, c) \<Rightarrow> Some (Inl e, c, w, fs)
      | (Inr (resume_offset, is_resume), c) \<Rightarrow>
     (let (x, s) = tcp_recv_start E md p key resume_offset is_resume c w fs in
      map_option (\<lambda>(r, s). gui_recv_after_loop L x md (re_elapsed E) r s)
        (gui_recv_loop x (re_turns E) s))))))"

section \<open>Against the receiver of the core\<close>

definition forget_restart :: "transfer_metadata \<Rightarrow> transfer_metadata" where
  "forget_restart md = md\<lparr>md_force_restart := False\<rparr>"

definition no_restart_codec :: "meta_codec \<Rightarrow> meta_codec" where
  "no_restart_codec M = M\<lparr>mc_dec := (\<lambda>j. map_option forget_restart (mc_dec M j))\<rparr>"

definition drop_flag :: "string \<Rightarrow> recv_state \<Rightarrow> recv_state" where
  "drop_flag i s = s\<lparr>rs_world := remove_flag i (rs_world s)\<rparr>"

lemma remove_commute:
  "remove_active i (remove_flag j w) = remove_flag j (remove_active i w)"
  "remove_flag i (remove_flag i w) = remove_flag i w"
  "w_active w i = None \<Longrightarrow> remove_active i w = w"
  by (simp_all add: remove_active_def remove_flag_def fun_upd_idem)

lemma frames_agree:
  "fst (gui_recv_frame x t msg s) = fst (tcp_recv_frame x t msg s)"
  "drop_flag (rc_id x) (snd (gui_recv_frame x t msg s)) = drop_flag (rc_id x) (snd (tcp_recv_frame x t msg s))"
  "(\<exists>e. fst (tcp_recv_frame x t msg s) = Return (Inl e)) \<or> gui_recv_frame x t msg s = tcp_recv_frame x t msg s"
  by (auto simp: gui_recv_frame_def tcp_recv_frame_def recv_fail_def drop_flag_def remove_commute Let_def)

lemma turns_agree:
  "fst (gui_recv_turn x t s) = fst (tcp_recv_turn x t s)"
  "drop_flag (rc_id x) (snd (gui_recv_turn x t s)) = drop_flag (rc_id x) (snd (tcp_recv_turn x t s))"
  "(\<exists>e. fst (tcp_recv_turn x t s) = Return (Inl e)) \<or> gui_recv_turn x t s = tcp_recv_turn x t s"
  using frames_agree
  by (auto simp: gui_recv_turn_def tcp_recv_turn_def Let_def split: option.splits bool.splits prod.splits sum.splits)

lemma loops_agree:
  "map_option (\<lambda>(r, s). (r, drop_flag (rc_id x) s)) (gui_recv_loop x ts s)
     = map_option (\<lambda>(r, s). (r, drop_flag (rc_id x) s)) (tcp_recv_loop x ts s)"
proof (induction ts arbitrary: s)
  case (Cons t ts)
  obtain ctl s1 s2 where g: "gui_recv_turn x t s = (ctl, s1)" and c: "tcp_recv_turn x t s = (ctl, s2)"
    using turns_agree(1) [of x t s] by (metis prod.collapse)
  with turns_agree(2,3) [of x t s] have "drop_flag (rc_id x) s1 = drop_flag (rc_id x) s2"
    "(\<exists>e. ctl = Return (Inl e)) \<or> s1 = s2" by auto
  with Cons.IH g c show ?case by (auto split: loop_ctl.splits)
qed simp

lemma recv_turn_error_inactive:
  "gui_recv_turn x t s = (Return (Inl e), s') \<Longrightarrow> mentions_cancel e \<or> w_active (rs_world s') (rc_id x) = None"
proof -
  have cancel: "mentions_cancel ''cancelled''" by code_simp
  have frame: "gui_recv_frame x t msg s = (Return (Inl e), s') \<Longrightarrow> w_active (rs_world s') (rc_id x) = None" for msg s s'
    by (auto simp: gui_recv_frame_def tcp_recv_chunk_def recv_fail_def Let_def split: if_splits)
  assume "gui_recv_turn x t s = (Return (Inl e), s')"
  then show ?thesis
    by (auto simp: gui_recv_turn_def recv_fail_def cancel Let_def split: option.splits bool.splits prod.splits sum.splits dest: frame)
qed

lemma recv_loop_error_inactive:
  "gui_recv_loop x ts s = Some (Inl e, s') \<Longrightarrow> mentions_cancel e \<or> w_active (rs_world s') (rc_id x) = None"
  by (induction ts arbitrary: s) (auto split: prod.splits loop_ctl.splits dest: recv_turn_error_inactive)

lemma after_loops_agree:
  assumes "drop_flag (rc_id x) s1 = drop_flag (rc_id x) s2"
    and "\<And>e. r = Inl e \<Longrightarrow> mentions_cancel e \<or> w_active (rs_world s1) (rc_id x) = None"
  shows "gui_recv_after_loop L x md el r s1 = tcp_recv_after_loop L x md el r s2"
proof -
  let ?i = "rc_id x"
  have eq: "remove_flag ?i (rs_world s1) = remove_flag ?i (rs_world s2)" "rs_blocks s1 = rs_blocks s2"
      "rs_conn s1 = rs_conn s2" "s1\<lparr>rs_world := w\<rparr> = s2\<lparr>rs_world := w\<rparr>" for w
    using assms(1) by (cases s1; cases s2; simp add: drop_flag_def)+
  show ?thesis
  proof (cases r)
    case (Inl e)
    have "remove_active ?i (remove_flag ?i (rs_world s1)) = remove_flag ?i (rs_world s1)" if "\<not> mentions_cancel e"
      using assms(2) [OF Inl] that by (simp add: remove_commute)
    with Inl eq show ?thesis by (auto simp: gui_recv_after_loop_def tcp_recv_after_loop_def Let_def)
  next
    case (Inr u)
    with eq show ?thesis by (simp add: gui_recv_after_loop_def tcp_recv_after_loop_def Let_def)
  qed
qed

lemma forget_restart_fields [simp]:
  "md_file_name (forget_restart md) = md_file_name md" "md_file_size (forget_restart md) = md_file_size md"
  "md_checksum (forget_restart md) = md_checksum md" "md_nonce_prefix (forget_restart md) = md_nonce_prefix md"
  "\<not> md_force_restart (forget_restart md)"
  by (simp_all add: forget_restart_def)

lemma metadata_agree:
  "tcp_recv_metadata (no_restart_codec M) addr c = map_prod (map_sum id forget_restart) id (tcp_recv_metadata M addr c)"
  by (auto simp: tcp_recv_metadata_def no_restart_codec_def split: prod.splits sum.splits option.splits)

lemma finish_agrees: "tcp_recv_finish L x (forget_restart md) el s = tcp_recv_finish L x md el s"
  unfolding tcp_recv_finish_def by (simp only: forget_restart_fields)

lemma recv_phases_agree:
  "tcp_recv_decide i addr (forget_restart md) cmds w = tcp_recv_decide i addr md cmds w"
  "tcp_recv_accept addr (forget_restart md) p fs c = gui_recv_accept addr md p fs c"
  "tcp_recv_start (E\<lparr>re_codec := M\<rparr>) (forget_restart md) p key off res c w fs = tcp_recv_start E md p key off res c w fs"
  by (simp_all add: tcp_recv_decide_def tcp_recv_accept_def gui_recv_accept_def tcp_resume_point_def
      gui_resume_point_def tcp_recv_start_def)

lemma after_loop_agrees: "tcp_recv_after_loop L x (forget_restart md) = tcp_recv_after_loop L x md"
  by (intro ext) (unfold tcp_recv_after_loop_def finish_agrees, rule refl)

lemma receivers_equal:
  "gui_handle_incoming L E dir c w fs
     = tcp_handle_incoming L (E\<lparr>re_codec := no_restart_codec (re_codec E)\<rparr>) dir c w fs"
proof -
  have loops: "map_option (\<lambda>(r, s). gui_recv_after_loop L x md el r s) (gui_recv_loop x ts s)
      = map_option (\<lambda>(r, s). tcp_recv_after_loop L x md el r s) (tcp_recv_loop x ts s)" for x md el ts s
  proof (cases "gui_recv_loop x ts s")
    case None
    with loops_agree [of x ts s] show ?thesis by (cases "tcp_recv_loop x ts s") simp_all
  next
    case (Some p)
    then obtain r s1 where g: "gui_recv_loop x ts s = Some (r, s1)" by (cases p) simp
    with loops_agree [of x ts s] obtain s2 where "tcp_recv_loop x ts s = Some (r, s2)"
      "drop_flag (rc_id x) s1 = drop_flag (rc_id x) s2" by (cases "tcp_recv_loop x ts s") auto
    with g after_loops_agree [of x s1 s2 r L md el] recv_loop_error_inactive [of x ts s] show ?thesis by auto
  qed
  show ?thesis
    by (simp add: gui_handle_incoming_def tcp_handle_incoming_def metadata_agree recv_phases_agree after_loop_agrees loops Let_def
        split: prod.splits sum.splits bool.splits)
qed

text \<open>
  C34. The receiver of the desktop application is the receiver of the core with one
  difference: for all inputs, peers, commands and failures it does exactly what the core
  receiver does on the same metadata with the request to restart removed, to the
  connection, to the registries and to the files.
\<close>

theorem gui_receiver_is_core:
  "gui_handle_incoming L E dir c w fs
     = tcp_handle_incoming L (E\<lparr>re_codec := no_restart_codec (re_codec E)\<rparr>) dir c w fs"
  by (rule receivers_equal)

end
