(* ===== verification/Gui_Queue.thy ===== *)
theory Gui_Queue
  imports Gui_App Gui_Send Gui_Recv Alpn_Send
begin

text \<open>
  \<open>send_to_contact\<close> of the desktop application: a transfer stays in a queue and is tried
  again every three seconds, over TCP when the address is a local one and over QUIC when the
  endpoint is bound, until it is delivered, rejected or cancelled. One element of a list is
  what the outside world does during one round. What packing a directory
  writes into the archive is an input, as are the contents of the contacts table other commands leave.
\<close>

section \<open>One round\<close>

record queue_round_env =
  gr_user :: "user_cmd list"
  gr_now :: int
  gr_peers :: "peer_info list option"
  gr_tcp :: send_env
  gr_tcp_conn :: conn
  gr_quic :: "(alpn_send_env \<times> quic_conn) option"
  gr_sleep :: "user_cmd list"

record queue_ctx =
  qc_id :: string
  qc_flag :: nat
  qc_name :: string
  qc_contact :: contact
  qc_path :: path
  qc_device :: string
  qc_fs :: filesystem

datatype queue_ctl = QueueAgain | QueueDone "string + string"

type_synonym queue_state = "world \<times> resume_db"

definition clear_entries :: "string \<Rightarrow> world \<Rightarrow> world" where
  "clear_entries i w = remove_flag i (remove_active i w)"

text \<open>The contact as it is stored now, with the address of a peer that matches it.\<close>

definition queue_target ::
  "queue_ctx \<Rightarrow> queue_round_env \<Rightarrow> resume_db \<Rightarrow> contact \<times> resume_db" where
  "queue_target x t db =
     (let current = opt_default (qc_contact x) (get_contact db (qc_name x));
          norm_peer_id = normalize_node_id (ct_peer_id current) in
      case gr_peers t of
        None \<Rightarrow> (current, db)
      | Some peers \<Rightarrow>
     (case find_peer (qc_name x) norm_peer_id peers of
        None \<Rightarrow> (current, db)
      | Some p \<Rightarrow>
          let current = current\<lparr>ct_last_known_ip := show_ipv4 (fst (pi_socket_addr p)),
                ct_last_known_port := snd (pi_socket_addr p)\<rparr>
          in (current, upsert_contact db (qc_name x) (ct_peer_id current) (ct_last_known_ip current)
                (ct_last_known_port current) (gr_now t))))"

text \<open>An attempt gives a result that ends the queue, or none; \<open>None\<close> when it does not return.\<close>

definition queue_tcp ::
  "'h hash_lib \<Rightarrow> queue_ctx \<Rightarrow> queue_round_env \<Rightarrow> contact \<Rightarrow> world \<Rightarrow> ((string + string) option \<times> world) option" where
  "queue_tcp L x t target w =
     (if \<not> is_same_lan (ct_last_known_ip target) then Some (None, w)
      else case gui_send_direct L (gr_tcp t) (qc_id x) (path_text (qc_path x)) (ct_last_known_ip target)
                 (ct_last_known_port target) (gr_tcp_conn t) w (qc_fs x) of
        None \<Rightarrow> None
      | Some (Inr hash, c, w) \<Rightarrow> Some (Some (Inr hash), clear_entries (qc_id x) w)
      | Some (Inl e, c, w) \<Rightarrow>
          if contains_str e ''rejected'' \<or> e = ''REJECTED''
          then Some (Some (Inl e), clear_entries (qc_id x) w)
          else Some (None, w))"

definition queue_quic ::
  "'h hash_lib \<Rightarrow> queue_ctx \<Rightarrow> queue_round_env \<Rightarrow> contact \<Rightarrow> world \<Rightarrow> ((string + string) option \<times> world) option" where
  "queue_quic L x t target w =
     (case gr_quic t of
        None \<Rightarrow> Some (None, w)
      | Some (E, c) \<Rightarrow>
     (case derive_secret_key_from_short_id L (ct_peer_id target) of
        Inl _ \<Rightarrow> Some (None, w)
      | Inr _ \<Rightarrow>
     (case alpn_send_file L E (qc_id x) (qc_path x) (qc_device x) False c w (qc_fs x) of
        None \<Rightarrow> None
      | Some (Inr hash, c, w) \<Rightarrow> Some (Some (Inr hash), clear_entries (qc_id x) w)
      | Some (Inl e, c, w) \<Rightarrow>
          if contains_str e ''REJECTED'' \<or> contains_str e ''cancelled''
          then Some (Some (Inl e), clear_entries (qc_id x) w)
          else Some (None, w))))"

definition queue_sleep :: "queue_ctx \<Rightarrow> queue_round_env \<Rightarrow> queue_state \<Rightarrow> queue_ctl \<times> queue_state" where
  "queue_sleep x t = (\<lambda>(w, db).
     let w = emit (SendStatus (qc_id x) ''queued'') (set_status (qc_id x) ''queued'' w);
         w = apply_cmds (gr_sleep t) w
     in if is_cancelled (flag_at (qc_flag x) w)
        then (QueueDone (Inl ''Transfer cancelled by user''),
              emit (Cancelled (qc_id x)) (clear_entries (qc_id x) w), db)
        else (QueueAgain, w, db))"

text \<open>A round in which the flag stays paused does nothing.\<close>

definition queue_round ::
  "'h hash_lib \<Rightarrow> queue_ctx \<Rightarrow> queue_round_env \<Rightarrow> queue_state \<Rightarrow> (queue_ctl \<times> queue_state) option" where
  "queue_round L x t = (\<lambda>(w, db).
     let w = apply_cmds (gr_user t) w in
     case wait_result (flag_at (qc_flag x) w) of
       None \<Rightarrow> Some (QueueAgain, w, db)
     | Some True \<Rightarrow>
         Some (QueueDone (Inl ''REJECTED''), emit (Cancelled (qc_id x)) (clear_entries (qc_id x) w), db)
     | Some False \<Rightarrow>
    (let (target, db) = queue_target x t db in
     case queue_tcp L x t target w of
       None \<Rightarrow> None
     | Some (Some r, w) \<Rightarrow> Some (QueueDone r, w, db)
     | Some (None, w) \<Rightarrow>
    (case queue_quic L x t target w of
       None \<Rightarrow> None
     | Some (Some r, w) \<Rightarrow> Some (QueueDone r, w, db)
     | Some (None, w) \<Rightarrow> Some (queue_sleep x t (w, db)))))"

fun queue_loop ::
  "'h hash_lib \<Rightarrow> queue_ctx \<Rightarrow> queue_round_env list \<Rightarrow> queue_state
     \<Rightarrow> ((string + string) \<times> queue_state) option" where
  "queue_loop L x [] s = None"
| "queue_loop L x (t # ts) s =
     (case queue_round L x t s of
        None \<Rightarrow> None
      | Some (QueueAgain, s) \<Rightarrow> queue_loop L x ts s
      | Some (QueueDone r, s) \<Rightarrow> Some (r, s))"

section \<open>The command\<close>

text \<open>
  What packing a directory does to the archive file: it is not created, or it is left with what
  has been written before an error, or it is complete.
\<close>

datatype tar_outcome =
    TarNotCreated string
  | TarNotPacked string fdata
  | TarNotFinished string fdata
  | TarMade fdata

definition temp_archive_path :: "path \<Rightarrow> path \<Rightarrow> path" where
  "temp_archive_path temp dir =
     (let folder_name = opt_default [] (file_name dir);
          temp_dir = path_join temp (path_of ''p2ptransfer'')
      in path_join temp_dir (path_of (folder_name @ ''.tar'')))"

definition archive_directory_to_temp ::
  "path \<Rightarrow> tar_outcome \<Rightarrow> path \<Rightarrow> filesystem \<Rightarrow> (string + path) \<times> filesystem" where
  "archive_directory_to_temp temp tar dir fs =
     (let archive_path = temp_archive_path temp dir in
      case tar of
        TarNotCreated e \<Rightarrow> (Inl (''Failed to create temp tar file: '' @ e), fs)
      | TarNotPacked e d \<Rightarrow> (Inl (''Failed to pack folder into tar archive: '' @ e), fs(archive_path \<mapsto> d))
      | TarNotFinished e d \<Rightarrow> (Inl (''Failed to finish tar archive: '' @ e), fs(archive_path \<mapsto> d))
      | TarMade d \<Rightarrow> (Inr archive_path, fs(archive_path \<mapsto> d)))"

record send_to_env =
  gq_is_dir :: "path \<Rightarrow> bool"
  gq_temp :: path
  gq_tar :: "path \<Rightarrow> tar_outcome"
  gq_rounds :: "queue_round_env list"
  gq_device :: string

type_synonym send_to_result = "(string + string) \<times> queue_state \<times> filesystem"

definition send_to_contact ::
  "'h hash_lib \<Rightarrow> send_to_env \<Rightarrow> string \<Rightarrow> string \<Rightarrow> string \<Rightarrow> queue_state \<Rightarrow> filesystem
     \<Rightarrow> send_to_result option" where
  "send_to_contact L E request_id path_arg contact_name = (\<lambda>(w, db) fs.
     case get_contact db contact_name of
       None \<Rightarrow> Some (Inl (''Contact '' @ [CHR 39] @ contact_name @ [CHR 39] @ '' not found''), (w, db), fs)
     | Some target \<Rightarrow>
    (let original = path_of path_arg; dir = gq_is_dir E original in
     if fs original = None \<and> \<not> dir then Some (Inl (''File not found: '' @ path_arg), (w, db), fs)
     else case (if dir then archive_directory_to_temp (gq_temp E) (gq_tar E original) original fs
                else (Inr original, fs)) of
       (Inl e, fs) \<Rightarrow> Some (Inl e, (w, db), fs)
     | (Inr send_path, fs) \<Rightarrow>
    (let (flag, w) = insert_flag request_id w;
         w = insert_active \<lparr>at_request_id = request_id, at_role = ''sender'', at_status = ''queued'',
               at_file_name = opt_default [] (file_name send_path), at_total_bytes = len64 (file_at send_path fs),
               at_bytes_transferred = 0\<rparr> w;
         w = emit (SendStatus request_id ''queued'') w;
         x = \<lparr>qc_id = request_id, qc_flag = flag, qc_name = contact_name, qc_contact = target,
               qc_path = send_path, qc_device = gq_device E, qc_fs = fs\<rparr>
     in map_option (\<lambda>(r, s). (r, s, if dir then remove_file send_path fs else fs))
          (queue_loop L x (gq_rounds E) (w, db)))))"

section \<open>The queue leaves nothing behind\<close>

lemma clear_entries_cleared: "w_active (clear_entries i w) i = None \<and> w_flags (clear_entries i w) i = None"
  by (simp add: clear_entries_def)

lemma queue_round_clears:
  assumes "queue_round L x t s = Some (QueueDone r, w, db)"
  shows "w_active w (qc_id x) = None \<and> w_flags w (qc_id x) = None"
proof -
  have tcp: "queue_tcp L x t c v = Some (Some r, w) \<Longrightarrow> \<exists>u. w = clear_entries (qc_id x) u" for c v
    by (auto simp: queue_tcp_def split: if_splits option.splits prod.splits sum.splits)
  have quic: "queue_quic L x t c v = Some (Some r, w) \<Longrightarrow> \<exists>u. w = clear_entries (qc_id x) u" for c v
    by (auto simp: queue_quic_def split: if_splits option.splits prod.splits sum.splits)
  have sleep: "queue_sleep x t v = (QueueDone r, w, db) \<Longrightarrow> \<exists>u. w = emit (Cancelled (qc_id x)) (clear_entries (qc_id x) u)" for v
    by (auto simp: queue_sleep_def Let_def split: prod.splits if_splits)
  from assms have "(\<exists>u. w = clear_entries (qc_id x) u) \<or> (\<exists>u. w = emit (Cancelled (qc_id x)) (clear_entries (qc_id x) u))"
    by (auto simp: queue_round_def Let_def split: prod.splits option.splits bool.splits dest: tcp quic sleep)
  then show ?thesis by (auto simp: clear_entries_def)
qed

lemma queue_loop_clears:
  "queue_loop L x ts s = Some (r, w, db) \<Longrightarrow> w_active w (qc_id x) = None \<and> w_flags w (qc_id x) = None"
  by (induction ts arbitrary: s) (auto split: option.splits prod.splits queue_ctl.splits dest: queue_round_clears)

lemma archive_made:
  assumes "archive_directory_to_temp temp tar dir fs = (Inr q, fs')"
  shows "q = temp_archive_path temp dir \<and> remove_file q fs' = remove_file q fs"
  using assms by (auto simp: archive_directory_to_temp_def remove_file_def Let_def split: tar_outcome.splits)

text \<open>
  The archive is named after the last component of the directory alone. So the archive of a
  second directory of this name replaces that of the first, whose transfer may still be waiting
  in the queue.
\<close>

theorem archives_share_a_name:
  assumes "file_name d1 = file_name d2"
    and "archive_directory_to_temp temp (TarMade a1) d1 fs = (Inr p1, fs1)"
    and "archive_directory_to_temp temp (TarMade a2) d2 fs1 = (Inr p2, fs2)"
  shows "p2 = p1 \<and> fs2 p1 = Some a2"
  using assms by (auto simp: archive_directory_to_temp_def temp_archive_path_def Let_def)

lemma archives_share_a_name_witness:
  "archive_directory_to_temp (path_of ''/tmp'') (TarMade [2]) (path_of ''/b/doc'')
      (snd (archive_directory_to_temp (path_of ''/tmp'') (TarMade [1]) (path_of ''/a/doc'') Map.empty))
    = (Inr (path_of ''/tmp/p2ptransfer/doc.tar''), [path_of ''/tmp/p2ptransfer/doc.tar'' \<mapsto> [2]])"
proof -
  let ?p = "path_of ''/tmp/p2ptransfer/doc.tar''"
  have name: "file_name (path_of ''/a/doc'') = file_name (path_of ''/b/doc'')" by code_simp
  have path: "temp_archive_path (path_of ''/tmp'') (path_of ''/a/doc'') = ?p"
      "temp_archive_path (path_of ''/tmp'') (path_of ''/b/doc'') = ?p" by code_simp+
  have first: "archive_directory_to_temp (path_of ''/tmp'') (TarMade [1]) (path_of ''/a/doc'') Map.empty = (Inr ?p, [?p \<mapsto> [1]])"
    and second: "archive_directory_to_temp (path_of ''/tmp'') (TarMade [2]) (path_of ''/b/doc'') [?p \<mapsto> [1]] = (Inr ?p, [?p \<mapsto> [2]])"
    by (simp_all add: archive_directory_to_temp_def path Let_def)
  from archives_share_a_name [OF name first second] first second show ?thesis by simp
qed

text \<open>
  C36. When the command returns, however it ends, the transfer has left the tables of flags
  and of active transfers, and the archive packed for a directory is gone; a command that
  fails before the queue has changed nothing, except that a directory that could not be packed
  may leave an unfinished archive.
\<close>

theorem queue_cleans_up:
  assumes "send_to_contact L E i p name (w, db) fs = Some (r, (w', db'), fs')"
  shows "(w' = w \<and> db' = db \<and> (\<exists>e. r = Inl e \<and> (fs' = fs
            \<or> gq_is_dir E (path_of p) \<and> archive_directory_to_temp (gq_temp E) (gq_tar E (path_of p)) (path_of p) fs = (Inl e, fs'))))
    \<or> (w_active w' i = None \<and> w_flags w' i = None
        \<and> fs' = (if gq_is_dir E (path_of p) then remove_file (temp_archive_path (gq_temp E) (path_of p)) fs else fs))"
proof (cases "get_contact db name")
  case (Some target)
  let ?o = "path_of p"
  let ?A = "if gq_is_dir E ?o then archive_directory_to_temp (gq_temp E) (gq_tar E ?o) ?o fs else (Inr ?o, fs)"
  obtain a fa where A: "?A = (a, fa)" by fastforce
  show ?thesis
  proof (cases "(fs ?o = None \<and> \<not> gq_is_dir E ?o) \<or> (\<exists>e. a = Inl e)")
    case True
    with assms Some A show ?thesis by (auto simp: send_to_contact_def Let_def split: if_splits)
  next
    case False
    then obtain q where q: "a = Inr q" by (cases a) auto
    from assms Some False A q obtain x w1 where
      run: "queue_loop L x (gq_rounds E) (w1, db) = Some (r, w', db')" "qc_id x = i"
        "fs' = (if gq_is_dir E ?o then remove_file q fa else fa)"
      by (auto simp: send_to_contact_def Let_def split: prod.splits if_splits)
    from queue_loop_clears [OF run(1)] run(2,3) A q archive_made [of "gq_temp E" "gq_tar E ?o" ?o fs q fa] show ?thesis
      by (auto split: if_splits)
  qed
qed (use assms in \<open>auto simp: send_to_contact_def\<close>)

section \<open>A cancel that is lost\<close>

text \<open>As long as the table leads to the flag of the queue a cancel ends it.\<close>

lemma queue_round_cancelled:
  assumes "w_flags w (qc_id x) = Some (qc_flag x)" "qc_flag x < length (w_flag_store w)" "gr_user t = [GuiCancelCmd (qc_id x)]"
  shows "\<exists>w'. queue_round L x t (w, db) = Some (QueueDone (Inl ''REJECTED''), w', db)"
proof -
  have "wait_result (flag_at (qc_flag x) (apply_cmds (gr_user t) w)) = Some True"
    using assms by (simp add: flag_at_signal wait_result_def flag_cancel_def watch_send_def)
  then show ?thesis by (simp add: queue_round_def)
qed

text \<open>A flag no table entry leads to: no command of the user reaches it.\<close>

definition detached :: "nat \<Rightarrow> world \<Rightarrow> bool" where
  "detached r w \<longleftrightarrow> r < length (w_flag_store w) \<and> (\<forall>j. w_flags w j \<noteq> Some r)"

definition unreached :: "nat \<Rightarrow> pause_flag \<Rightarrow> world \<Rightarrow> bool" where
  "unreached r f w \<longleftrightarrow> detached r w \<and> flag_at r w = f"

lemma unreached_same:
  "w_flag_store v = w_flag_store w \<Longrightarrow> w_flags v = w_flags w \<Longrightarrow> unreached r f v = unreached r f w"
  by (simp add: unreached_def detached_def flag_at_store [of v w])

lemma unreached_simps [simp]:
  "unreached r f (emit e w) = unreached r f w" "unreached r f (set_status i st w) = unreached r f w"
  "unreached r f (set_bytes i n w) = unreached r f w" "unreached r f (remove_active i w) = unreached r f w"
  "unreached r f (insert_active a w) = unreached r f w"
  "unreached r f (emit_send_status i st w) = unreached r f w" "unreached r f (emit_transfer_error i st w) = unreached r f w"
  by (rule unreached_same; simp add: emit_send_status_def emit_transfer_error_def)+

lemma unreached_remove_flag: "unreached r f w \<Longrightarrow> unreached r f (remove_flag i w)"
  by (auto simp: unreached_def detached_def flag_at_def remove_flag_def)

lemma unreached_signal: "unreached r f w \<Longrightarrow> unreached r f (signal_flag i g w)"
  by (auto simp: unreached_def detached_def flag_at_def signal_flag_def nth_list_update split: option.splits)

lemma unreached_cmd: "unreached r f w \<Longrightarrow> unreached r f (apply_cmd c w)"
proof (cases c)
  case (RespondCmd i b)
  then show "unreached r f w \<Longrightarrow> ?thesis" using unreached_same [of "apply_cmd c w" w] by simp
qed (auto simp: unreached_signal unreached_remove_flag)

lemma unreached_cmds: "unreached r f w \<Longrightarrow> unreached r f (apply_cmds cs w)"
  unfolding apply_cmds_def by (induction cs arbitrary: w) (simp_all add: unreached_cmd)

lemma insert_flag_detaches:
  assumes "world_wf w" "w_flags w i = Some r"
  shows "unreached r (flag_at r w) (snd (insert_flag i w))"
proof -
  have refs: "refs_ok (w_flags w) (length (w_flag_store w))" using assms(1) by (simp add: world_wf_def)
  then have "r < length (w_flag_store w)" "\<forall>j. w_flags w j = Some r \<longrightarrow> j = i"
    using assms(2) unfolding refs_ok_def by blast+
  then show ?thesis
    by (auto simp: unreached_def detached_def flag_at_def insert_flag_def Let_def nth_append)
qed

text \<open>
  A round in which the receiver is away: TCP cannot connect and QUIC is not bound, or its
  connection times out.
\<close>

definition away :: "queue_round_env \<Rightarrow> bool" where
  "away t \<longleftrightarrow> \<not> send_env.se_connects (gr_tcp t)
     \<and> (case gr_quic t of None \<Rightarrow> True | Some (E, c) \<Rightarrow> be_connect E = ConnectTimeout)"

lemma contains_str_set: "contains_str s p \<Longrightarrow> set p \<subseteq> set s"
  by (auto simp: contains_str_iff)

lemma no_j_in_address: "CHR ''j'' \<notin> set (connect_failed_text a)"
proof -
  have d: "CHR ''j'' \<noteq> digit_char k" if "k < 10" for k
  proof
    assume "CHR ''j'' = digit_char k"
    with that have "digit_val CHR ''j'' = Some k" by simp
    moreover have "digit_val CHR ''j'' = None" by code_simp
    ultimately show False by simp
  qed
  then have n: "CHR ''j'' \<notin> set (show_nat n)" for n using show_nat_digits by blast
  then have "CHR ''j'' \<notin> set (show_ipv4 b)" for b
    using set_join_with [of "''.''" "map show_nat b"] by (auto simp: show_ipv4_def)
  with n show ?thesis by (simp add: connect_failed_text_def show_socket_addr_def)
qed

lemma queue_tcp_away:
  assumes "\<not> send_env.se_connects (gr_tcp t)" "unreached r f w"
  shows "\<exists>w'. queue_tcp L x t target w = Some (None, w') \<and> unreached r f w'"
proof -
  have "\<not> contains_str (connect_failed_text a) ''rejected''" for a
    using contains_str_set [of "connect_failed_text a" "''rejected''"] no_j_in_address [of a] by auto
  moreover have "\<not> contains_str ''invalid socket address syntax'' ''rejected''" by code_simp
  moreover have "connect_failed_text a \<noteq> ''REJECTED''" for a by (simp add: connect_failed_text_def)
  ultimately show ?thesis
    using assms by (auto simp: queue_tcp_def gui_send_direct_def gui_send_connect_def Let_def split: option.splits)
qed

lemma queue_quic_away:
  assumes "case gr_quic t of None \<Rightarrow> True | Some (E, c) \<Rightarrow> be_connect E = ConnectTimeout" "unreached r f w"
  shows "\<exists>w'. queue_quic L x t target w = Some (None, w') \<and> unreached r f w'"
proof (cases "gr_quic t")
  case (Some p)
  then obtain E c where E: "gr_quic t = Some (E, c)" "be_connect E = ConnectTimeout" using assms(1) by (cases p) auto
  have "\<not> contains_str ''Connection timed out'' ''REJECTED''" "\<not> contains_str ''Connection timed out'' ''cancelled''"
    "\<not> contains_str (''Cannot stat file: '' @ ''No such file or directory'') ''REJECTED''"
    "\<not> contains_str (''Cannot stat file: '' @ ''No such file or directory'') ''cancelled''" by code_simp+
  with E assms(2) show ?thesis
    by (auto simp: queue_quic_def alpn_send_file_def alpn_send_connect_def fail_with_def Let_def split: option.splits sum.splits)
qed (use assms in \<open>simp add: queue_quic_def\<close>)

lemma queue_round_away:
  assumes "away t" "unreached (qc_flag x) f w" "\<not> is_cancelled f" "\<not> is_paused f"
  shows "\<exists>w' db'. queue_round L x t (w, db) = Some (QueueAgain, w', db') \<and> unreached (qc_flag x) f w'"
proof -
  let ?v = "apply_cmds (gr_user t) w"
  have v: "unreached (qc_flag x) f ?v" by (rule unreached_cmds [OF assms(2)])
  then have wait: "wait_result (flag_at (qc_flag x) ?v) = Some False"
    using assms(3,4) by (simp add: unreached_def wait_result_def)
  obtain target db1 where tg: "queue_target x t db = (target, db1)" by (cases "queue_target x t db")
  obtain w1 where w1: "queue_tcp L x t target ?v = Some (None, w1)" "unreached (qc_flag x) f w1"
    using queue_tcp_away [of t "qc_flag x" f ?v L x target] v assms(1) by (auto simp: away_def)
  obtain w2 where w2: "queue_quic L x t target w1 = Some (None, w2)" "unreached (qc_flag x) f w2"
    using queue_quic_away [of t "qc_flag x" f w1 L x target] w1(2) assms(1) by (auto simp: away_def)
  let ?u = "apply_cmds (gr_sleep t) (emit (SendStatus (qc_id x) ''queued'') (set_status (qc_id x) ''queued'' w2))"
  have u: "unreached (qc_flag x) f ?u" using w2(2) by (simp add: unreached_cmds)
  then have "queue_sleep x t (w2, db1) = (QueueAgain, ?u, db1)"
    using assms(3) by (simp add: queue_sleep_def unreached_def Let_def)
  with wait tg w1(1) w2(1) u show ?thesis by (simp add: queue_round_def Let_def)
qed

lemma queue_loop_away:
  "\<forall>t \<in> set ts. away t \<Longrightarrow> unreached (qc_flag x) f w \<Longrightarrow> \<not> is_cancelled f \<Longrightarrow> \<not> is_paused f
     \<Longrightarrow> queue_loop L x ts (w, db) = None"
proof (induction ts arbitrary: w db)
  case (Cons t ts)
  from queue_round_away [of t x f w L db] Cons.prems obtain w' db' where
    "queue_round L x t (w, db) = Some (QueueAgain, w', db')" "unreached (qc_flag x) f w'" by auto
  with Cons show ?case by simp
qed simp

lemma queue_quic_detaches:
  assumes "world_wf w" "w_flags w (qc_id x) = Some r" "gr_quic t = Some (E, c)" "be_connect E = Connected"
    and "qc_fs x (qc_path x) = Some f" "be_timeout E" "derive_secret_key_from_short_id L (ct_peer_id target) = Inr k"
  shows "\<exists>res w'. queue_quic L x t target w = Some (res, w')
    \<and> (res = None \<longrightarrow> unreached r (flag_at r w) w')"
proof -
  let ?i = "qc_id x"
  let ?w1 = "emit_send_status ?i ''connecting'' w"
  have w1: "world_wf ?w1" "w_flags ?w1 ?i = Some r" "flag_at r ?w1 = flag_at r w"
    using assms(1,2) by (simp_all add: emit_send_status_def)
  define a where "a = \<lparr>at_request_id = ?i, at_role = ''sender'', at_status = ''connecting'',
      at_file_name = opt_default [] (file_name (qc_path x)), at_total_bytes = len64 f, at_bytes_transferred = 0\<rparr>"
  have wa: "world_wf (insert_active a ?w1)" "w_flags (insert_active a ?w1) ?i = Some r" "flag_at r (insert_active a ?w1) = flag_at r w"
    using w1 by (simp_all add: world_wf_insert_active)
  have d: "unreached r (flag_at r w) (snd (insert_flag ?i (insert_active a ?w1)))"
    using insert_flag_detaches [OF wa(1,2)] wa(3) by simp
  have conn: "alpn_send_connect (be_connect E) ?i (qc_path x) (qc_fs x) w
      = (Inr (opt_default [] (file_name (qc_path x)), len64 f), ?w1)"
    using assms(4,5) by (simp add: alpn_send_connect_def Let_def)
  obtain rr c1 w2 where req: "alpn_send_request E ?i (qc_device x) (opt_default [] (file_name (qc_path x))) (len64 f) False c ?w1
      = (rr, c1, w2)" by (metis prod_cases3)
  then have w2: "unreached r (flag_at r w) w2"
    using d by (auto simp: alpn_send_request_def a_def Let_def split: prod.splits sum.splits)
  have "\<exists>e c2 w'. alpn_send_file L E ?i (qc_path x) (qc_device x) False c w (qc_fs x) = Some (Inl e, c2, w')
      \<and> unreached r (flag_at r w) w'"
  proof (cases rr)
    case (Inl e)
    with req w2 conn show ?thesis by (simp add: alpn_send_file_def)
  next
    case (Inr u)
    with req w2 conn assms(6) show ?thesis
      by (simp add: alpn_send_file_def alpn_send_response_def fail_with_def Let_def)
  qed
  then show ?thesis using assms(3,7) by (auto simp: queue_quic_def)
qed

text \<open>
  C37. A cancel can be lost in the queue: once the receiver has been reached over QUIC and has
  not answered in time, the table of flags holds the flag of that attempt and no longer the
  one the queue waits on; as long as the receiver is then away, no sequence of pauses,
  resumes, cancels and deletions ends the queue.
\<close>

theorem queue_cancel_lost:
  assumes "world_wf w" "w_flags w (qc_id x) = Some (qc_flag x)" "flag_at (qc_flag x) w = f"
    and "\<not> is_cancelled f" "\<not> is_paused f"
    and "gr_user t = []" "\<not> is_same_lan (ct_last_known_ip (fst (queue_target x t db)))"
    and "derive_secret_key_from_short_id L (ct_peer_id (fst (queue_target x t db))) = Inr k"
    and "gr_quic t = Some (E, c)" "be_connect E = Connected" "be_timeout E" "qc_fs x (qc_path x) = Some d"
    and "fst (the (queue_round L x t (w, db))) = QueueAgain" "\<forall>t' \<in> set ts. away t'"
  shows "queue_loop L x (t # ts) (w, db) = None"
proof -
  have wait: "wait_result (flag_at (qc_flag x) w) = Some False"
    using assms(3-5) by (simp add: wait_result_def)
  obtain target db1 where tg: "queue_target x t db = (target, db1)" by (cases "queue_target x t db")
  with assms(7) have tcp: "queue_tcp L x t target w = Some (None, w)" by (simp add: queue_tcp_def)
  obtain res w1 where q: "queue_quic L x t target w = Some (res, w1)" "res = None \<longrightarrow> unreached (qc_flag x) f w1"
    using queue_quic_detaches [OF assms(1,2,9,10,12,11), of L target k] assms(3,8) tg by auto
  have none: "res = None"
    using assms(6,13) wait tg tcp q(1) by (cases res) (simp_all add: queue_round_def)
  let ?u = "apply_cmds (gr_sleep t) (emit (SendStatus (qc_id x) ''queued'') (set_status (qc_id x) ''queued'' w1))"
  have u: "unreached (qc_flag x) f ?u" using q(2) none by (simp add: unreached_cmds)
  then have "queue_round L x t (w, db) = Some (QueueAgain, ?u, db1)"
    using assms(4,6) wait tg tcp q(1) none
    by (simp add: queue_round_def queue_sleep_def unreached_def Let_def)
  with queue_loop_away [OF assms(14) u assms(4,5)] show ?thesis by simp
qed

end
