(* ===== verification/Gui_Session.thy ===== *)
theory Gui_Session
  imports Gui_Queue Tcp_Session Cli_Wire
begin

text \<open>
  The desktop application among the other programs: what its command \<open>send_file\<close> does with
  the answer of every receiver of the repository, and concrete runs of its queue.
\<close>

section \<open>The command \<open>send_file\<close> and the receivers\<close>

lemma conn_send_Inr: "conn_send m c = (Inr u, c') \<Longrightarrow> cn_out c' = cn_out c @ send_message m"
  by (auto simp: conn_send_def split: list.splits option.splits)

lemma accept_frame_not_bare: "accept_frame off \<noteq> bytes_of ''ACCEPT''"
proof
  assume "accept_frame off = bytes_of ''ACCEPT''"
  then have "hd (accept_frame off) = hd (bytes_of ''ACCEPT'')" by simp
  then show False by (simp add: accept_frame_def bytes_of_def)
qed

text \<open>What an accepting receiver writes: that of the core, of the desktop, of the command line tool.\<close>

lemma accepting_answers:
  "tcp_recv_accept addr md p fs c = (Inr a, c') \<Longrightarrow> \<exists>off. cn_out c' = cn_out c @ send_message (accept_frame off)"
  "gui_recv_accept addr md p fs c = (Inr a, c') \<Longrightarrow> \<exists>off. cn_out c' = cn_out c @ send_message (accept_frame off)"
  "tag_send TAG_METADATA (bytes_of ''ACCEPT'') c = (Inr u, c') \<Longrightarrow> \<exists>off. cn_out c' = cn_out c @ send_message (accept_frame off)"
proof -
  show "tcp_recv_accept addr md p fs c = (Inr a, c') \<Longrightarrow> \<exists>off. cn_out c' = cn_out c @ send_message (accept_frame off)"
    "gui_recv_accept addr md p fs c = (Inr a, c') \<Longrightarrow> \<exists>off. cn_out c' = cn_out c @ send_message (accept_frame off)"
    by (auto simp: tcp_recv_accept_def gui_recv_accept_def split: prod.splits sum.splits dest: conn_send_Inr)
  have "TAG_METADATA # bytes_of ''ACCEPT'' = accept_frame 0" by (simp add: accept_frame_def TAG_METADATA_def)
  then show "tag_send TAG_METADATA (bytes_of ''ACCEPT'') c = (Inr u, c') \<Longrightarrow> \<exists>off. cn_out c' = cn_out c @ send_message (accept_frame off)"
    by (metis conn_send_Inr tag_send_def)
qed

text \<open>
  C35. The command \<open>send_file\<close> of the desktop application never transfers anything to a
  receiver of this repository: it waits for the bare text ACCEPT, every receiver that
  accepts, of the core, of the desktop and of the command line tool, sends a tag before it,
  and the command reports a rejected transfer without having sent a chunk.
\<close>

theorem send_file_always_rejected:
  assumes "gui_connect (se_connects E) db peer = Inr ()"
    and "gui_file_hello (se_crypto E) (se_secret E) c = (Inr key, c1)"
    and "gui_file_metadata L E fs (path_of p) c1 = (Inr md, c2)"
    and "tcp_recv_accept addr md' q fs' cr = (Inr a, cr') \<or> gui_recv_accept addr md' q fs' cr = (Inr a, cr')
      \<or> tag_send TAG_METADATA (bytes_of ''ACCEPT'') cr = (Inr u, cr')"
    and "cn_out cr' = cn_out cr @ answer" "cn_in c2 = answer @ rest"
  shows "gui_send_file L E p peer db fs c = (Inl ''Transfer rejected'', c2\<lparr>cn_in := rest\<rparr>)"
proof -
  obtain off where "cn_out cr' = cn_out cr @ send_message (accept_frame off)"
    using assms(4) accepting_answers [where c = cr and c' = cr'] by blast
  with assms(5,6) have "cn_in c2 = send_message (accept_frame off) @ rest" by simp
  from conn_receive_put [OF this accept_frame_fits]
  have "conn_receive c2 = (Inr (accept_frame off), c2\<lparr>cn_in := rest\<rparr>)" .
  with assms(1-3) accept_frame_not_bare [of off] show ?thesis by (simp add: gui_send_file_def)
qed

lemma gui_file_hello_ok:
  assumes "crypto_ok C" "cn_sends c = []"
    and "cn_in c = send_message (0x06 # public_key_bytes (ecdh_new C b)) @ rest"
    and "session_key C (ecdh_new C a) (public_key_bytes (ecdh_new C b)) = Inr key"
  shows "gui_file_hello C a c = (Inr key, c\<lparr>cn_in := rest,
    cn_out := cn_out c @ send_message (0x05 # public_key_bytes (ecdh_new C a))\<rparr>)"
proof -
  let ?m = "0x06 # public_key_bytes (ecdh_new C b)"
  have "fits_payload ?m" using length_public_key [OF assms(1), of b] by (intro fits_small) simp
  with assms length_public_key [OF assms(1), of b] show ?thesis
    by (simp add: gui_file_hello_def conn_send_ok conn_receive_put Let_def)
qed

lemma create_metadata_total:
  "streaming_hash L \<Longrightarrow> fs p = Some f \<Longrightarrow> io_readable io p \<Longrightarrow> \<exists>md. create_metadata L io fs p cs force uuid = Inr md"
  by (simp add: create_metadata_def hash_file_reader Let_def)

lemma gui_file_metadata_ok:
  assumes "create_metadata L (se_io E) fs p (16 * 1024 * 1024) False (se_session_uuid E) = Inr md0"
    and "\<And>md. mc_enc (se_codec E) md = Some j" "cn_sends c = []"
  shows "gui_file_metadata L E fs p c = (Inr (md0\<lparr>md_nonce_prefix := generate_nonce_prefix (se_rng E)\<rparr>),
      c\<lparr>cn_out := cn_out c @ send_message (0 # j)\<rparr>)"
  unfolding gui_file_metadata_def assms(1) sum.case Let_def assms(2) option.case conn_send_ok [OF assms(3)] by simp

theorem send_file_always_rejected_witness:
  "\<exists>s_in c. gui_send_file demo_hash (demo_send_env \<lparr>mc_enc = (\<lambda>_. Some [1]), mc_dec = (\<lambda>_. None)\<rparr> [])
      ''/a'' ''10.0.0.2:9877'' demo_db [path_of ''/a'' \<mapsto> [1]] (conn_open s_in) = (Inl ''Transfer rejected'', c)"
proof -
  let ?C = demo_crypto and ?E = "demo_send_env \<lparr>mc_enc = (\<lambda>_. Some [1]), mc_dec = (\<lambda>_. None)\<rparr> []"
  let ?fs = "[path_of ''/a'' \<mapsto> [1]] :: filesystem"
  have C: "crypto_ok ?C"
    by (simp add: crypto_ok_def demo_crypto_dh demo_crypto_aead) (simp add: demo_crypto_def)
  let ?ans = "send_message (accept_frame 0)"
  let ?in = "send_message (0x06 # public_key_bytes (ecdh_new ?C [7])) @ ?ans"
  obtain key where "session_key ?C (ecdh_new ?C [9]) (public_key_bytes (ecdh_new ?C [7])) = Inr key"
    using session_key_total [OF C] by blast
  from gui_file_hello_ok [OF C _ _ this, of "conn_open ?in" ?ans] obtain c1 where
    c1: "gui_file_hello (se_crypto ?E) (se_secret ?E) (conn_open ?in) = (Inr key, c1)" "cn_in c1 = ?ans" "cn_sends c1 = []"
    by (auto simp: conn_open_def demo_send_env_def)
  define E where "E = ?E"
  obtain md0 where "create_metadata demo_hash (se_io E) ?fs (path_of ''/a'') (16 * 1024 * 1024) False (se_session_uuid E) = Inr md0"
    using create_metadata_total [OF demo_hash_streaming, of ?fs "path_of ''/a''" "[1]" "se_io E" "16 * 1024 * 1024" False "se_session_uuid E"]
    by (auto simp: E_def demo_send_env_def io_all_def)
  then have "gui_file_metadata demo_hash E ?fs (path_of ''/a'') c1
      = (Inr (md0\<lparr>md_nonce_prefix := generate_nonce_prefix (se_rng E)\<rparr>), c1\<lparr>cn_out := cn_out c1 @ send_message [0, 1]\<rparr>)"
    by (rule gui_file_metadata_ok) (simp_all add: E_def demo_send_env_def c1(3))
  moreover have "cn_in (c1\<lparr>cn_out := cn_out c1 @ send_message [0, 1]\<rparr>) = ?ans" using c1(2) by simp
  ultimately obtain md c2 where c2: "gui_file_metadata demo_hash ?E ?fs (path_of ''/a'') c1 = (Inr md, c2)" "cn_in c2 = ?ans"
    unfolding E_def by blast
  have "show_nat (unat (9877 :: u16)) = ''9877''"
  proof -
    have "digit_char 9 = CHR ''9''" "digit_char 8 = CHR ''8''" "digit_char 7 = CHR ''7''" by code_simp+
    then show ?thesis by (simp add: show_nat.simps)
  qed
  with parse_demo_addr have addr: "parse_socket_addr ''10.0.0.2:9877'' = Some ([10, 0, 0, 2], 9877)" by simp
  have "db_contacts demo_db = []" by (simp add: demo_db_def create_transfer_def resume_new_def)
  then have "get_contact demo_db ''10.0.0.2:9877'' = None" by (simp add: get_contact_def)
  then have "gui_resolve demo_db ''10.0.0.2:9877'' = ''10.0.0.2:9877''" by (simp only: gui_resolve_def option.case)
  moreover have "se_connects ?E" by (simp add: demo_send_env_def)
  ultimately have con: "gui_connect (se_connects ?E) demo_db ''10.0.0.2:9877'' = Inr ()"
    using addr by (simp only: gui_connect_def option.case if_True)
  have answer: "tag_send TAG_METADATA (bytes_of ''ACCEPT'') (conn_open []) = (Inr (), \<lparr>cn_in = [], cn_out = ?ans, cn_sends = []\<rparr>)"
    by (simp add: tag_send_def conn_send_def conn_open_def accept_frame_def TAG_METADATA_def)
  have "gui_send_file demo_hash ?E ''/a'' ''10.0.0.2:9877'' demo_db ?fs (conn_open ?in)
      = (Inl ''Transfer rejected'', c2\<lparr>cn_in := []\<rparr>)"
    using send_file_always_rejected [OF con c1(1) c2(1), of _ _ _ _ "conn_open []" _ "\<lparr>cn_in = [], cn_out = ?ans, cn_sends = []\<rparr>" "()" ?ans "[]"]
      answer c2(2) by (simp add: conn_open_def)
  then show ?thesis by blast
qed

section \<open>Runs of the queue\<close>

definition demo_contact :: contact where
  "demo_contact = \<lparr>ct_name = ''bo'', ct_peer_id = ''ABC01234'', ct_last_known_ip = [], ct_last_known_port = 0,
     ct_last_seen = 7\<rparr>"

definition demo_queue_db :: resume_db where
  "demo_queue_db = demo_db\<lparr>db_contacts := [demo_contact]\<rparr>"

definition demo_quic_env :: alpn_send_env where
  "demo_quic_env = \<lparr>be_codec = \<lparr>ac_req_enc = (\<lambda>_. Some [1]), ac_req_dec = (\<lambda>_. None), ac_resp_enc = (\<lambda>_. None),
       ac_resp_dec = (\<lambda>_. None)\<rparr>, be_io = io_all, be_node_id = ''n'', be_connect = Connected, be_timeout = True,
     be_turns = [], be_finish = None\<rparr>"

definition demo_round :: "user_cmd list \<Rightarrow> (alpn_send_env \<times> quic_conn) option \<Rightarrow> queue_round_env" where
  "demo_round cs q = \<lparr>gr_user = cs, gr_now = 8, gr_peers = None,
     gr_tcp = (demo_send_env \<lparr>mc_enc = (\<lambda>_. None), mc_dec = (\<lambda>_. None)\<rparr> [])\<lparr>se_connects := False\<rparr>,
     gr_tcp_conn = conn_open [], gr_quic = q, gr_sleep = []\<rparr>"

theorem queue_cleans_up_witness:
  "\<exists>w' db'. send_to_contact demo_hash \<lparr>gq_is_dir = (\<lambda>_. False), gq_temp = path_of ''/tmp'', gq_tar = (\<lambda>_. TarNotCreated ''tar''),
        gq_rounds = [demo_round [GuiCancelCmd ''q''] None], gq_device = ''me''\<rparr>
      ''q'' ''/a'' ''bo'' (world_new, demo_queue_db) [path_of ''/a'' \<mapsto> [1]] = Some (Inl ''REJECTED'', (w', db'), [path_of ''/a'' \<mapsto> [1]])
     \<and> w_flags w' ''q'' = None"
proof -
  let ?E = "\<lparr>gq_is_dir = (\<lambda>_. False), gq_temp = path_of ''/tmp'', gq_tar = (\<lambda>_. TarNotCreated ''tar''), gq_rounds = [demo_round [GuiCancelCmd ''q''] None], gq_device = ''me''\<rparr>"
  have contact: "get_contact demo_queue_db ''bo'' = Some demo_contact"
    by (simp add: get_contact_def demo_queue_db_def demo_contact_def)
  let ?a = "\<lparr>at_request_id = ''q'', at_role = ''sender'', at_status = ''queued'', at_file_name = opt_default [] (file_name (path_of ''/a'')),
    at_total_bytes = len64 [1 :: byte], at_bytes_transferred = 0\<rparr>"
  obtain w1 where ins: "insert_flag ''q'' world_new = (0, w1)" "w_flags w1 ''q'' = Some 0" "0 < length (w_flag_store w1)"
    by (simp add: insert_flag_def world_new_def Let_def)
  let ?w = "emit (SendStatus ''q'' ''queued'') (insert_active ?a w1)"
  let ?x = "\<lparr>qc_id = ''q'', qc_flag = 0, qc_name = ''bo'', qc_contact = demo_contact, qc_path = path_of ''/a'',
    qc_device = ''me'', qc_fs = [path_of ''/a'' \<mapsto> [1]]\<rparr>"
  obtain w' where "queue_round demo_hash ?x (demo_round [GuiCancelCmd ''q''] None) (?w, demo_queue_db)
      = Some (QueueDone (Inl ''REJECTED''), w', demo_queue_db)"
    using queue_round_cancelled [of ?w ?x "demo_round [GuiCancelCmd ''q''] None" demo_hash demo_queue_db]
    ins(2,3) by (auto simp: demo_round_def)
  with ins(1) obtain db' where run: "send_to_contact demo_hash ?E ''q'' ''/a'' ''bo'' (world_new, demo_queue_db) [path_of ''/a'' \<mapsto> [1]]
      = Some (Inl ''REJECTED'', (w', db'), [path_of ''/a'' \<mapsto> [1]])"
    by (simp add: send_to_contact_def contact Let_def file_at_def opt_default_def)
  have "w_flags w' ''q'' = None"
    using queue_cleans_up [OF run] by (auto simp: world_new_def)
  with run show ?thesis by blast
qed

lemma demo_quic_times_out:
  assumes "fs p = Some f"
  shows "\<exists>c' w'. alpn_send_file demo_hash demo_quic_env i p n False (quic_open []) w fs
    = Some (Inl ''Receiver did not respond within 90 seconds'', c', w')"
  using assms
  by (simp add: alpn_send_file_def alpn_send_connect_def alpn_send_request_def alpn_send_response_def fail_with_def
      demo_quic_env_def quic_write_json_ok quic_open_def Let_def)

theorem queue_cancel_lost_witness:
  "\<exists>w x. w_flags w ''q'' = Some (qc_flag x) \<and> flag_at (qc_flag x) w = flag_new
     \<and> queue_loop demo_hash x [demo_round [] (Some (demo_quic_env, quic_open [])),
         demo_round [GuiCancelCmd ''q''] None, demo_round [CancelCmd ''q''] None] (w, demo_queue_db) = None"
proof -
  let ?w = "snd (insert_flag ''q'' world_new)" and ?p = "path_of ''/a''"
  let ?x = "\<lparr>qc_id = ''q'', qc_flag = 0, qc_name = ''bo'', qc_contact = demo_contact, qc_path = ?p,
    qc_device = ''me'', qc_fs = [?p \<mapsto> [1]]\<rparr>"
  let ?t = "demo_round [] (Some (demo_quic_env, quic_open []))"
  have w: "world_wf ?w" "w_flags ?w ''q'' = Some 0" "flag_at 0 ?w = flag_new"
    using world_wf_insert_flag [OF world_wf_new] by (simp_all add: world_new_def flag_at_def)
  have run: "\<not> is_cancelled flag_new" "\<not> is_paused flag_new" by (simp_all add: flag_new_def watch_channel_def)
  have contact: "get_contact demo_queue_db ''bo'' = Some demo_contact"
    by (simp add: get_contact_def demo_queue_db_def demo_contact_def)
  then have target: "queue_target ?x ?t demo_queue_db = (demo_contact, demo_queue_db)"
    by (simp add: queue_target_def demo_round_def opt_default_def Let_def)
  obtain k where key: "derive_secret_key_from_short_id demo_hash (ct_peer_id demo_contact) = Inr k"
    using demo_key by (auto simp: demo_contact_def)
  obtain c' w' where q: "alpn_send_file demo_hash demo_quic_env ''q'' ?p ''me'' False (quic_open []) ?w [?p \<mapsto> [1]]
      = Some (Inl ''Receiver did not respond within 90 seconds'', c', w')"
    using demo_quic_times_out [of "[?p \<mapsto> [1]]" ?p "[1]" "''q''" "''me''" ?w] by auto
  have "\<not> contains_str ''Receiver did not respond within 90 seconds'' ''REJECTED''"
    "\<not> contains_str ''Receiver did not respond within 90 seconds'' ''cancelled''" by code_simp+
  with key q have quic: "queue_quic demo_hash ?x ?t demo_contact ?w = Some (None, w')"
    by (simp add: queue_quic_def demo_round_def)
  have "demo_quic_env = demo_quic_env\<lparr>be_connect := Connected, be_timeout := True\<rparr>" by (simp add: demo_quic_env_def)
  then have env: "be_connect demo_quic_env = Connected" "be_timeout demo_quic_env" by (simp_all add: demo_quic_env_def)
  from queue_quic_detaches [OF w(1), of ?x 0 ?t demo_quic_env "quic_open []" "[1]" demo_hash demo_contact k] env key quic w(2)
  have "unreached 0 (flag_at 0 ?w) w'" by (simp add: demo_round_def)
  then have fw: "flag_at 0 w' = flag_new" using w(3) by (simp add: unreached_def)
  have tcp: "queue_tcp demo_hash ?x ?t demo_contact ?w = Some (None, ?w)"
    by (simp add: queue_tcp_def is_same_lan_def demo_contact_def)
  have "fst (the (queue_round demo_hash ?x ?t (?w, demo_queue_db))) = QueueAgain"
    using target tcp quic w(3) run fw
    by (simp add: queue_round_def queue_sleep_def wait_result_def demo_round_def Let_def)
  moreover have "\<forall>t' \<in> set [demo_round [GuiCancelCmd ''q''] None, demo_round [CancelCmd ''q''] None]. away t'"
    by (simp add: away_def demo_round_def)
  moreover have "\<not> is_same_lan (ct_last_known_ip (fst (queue_target ?x ?t demo_queue_db)))"
    unfolding target by (simp add: is_same_lan_def demo_contact_def)
  moreover have "gr_user ?t = []" "gr_quic ?t = Some (demo_quic_env, quic_open [])" by (simp_all add: demo_round_def)
  ultimately have "queue_loop demo_hash ?x [?t, demo_round [GuiCancelCmd ''q''] None, demo_round [CancelCmd ''q''] None] (?w, demo_queue_db) = None"
    using w run key env
    by (intro queue_cancel_lost [where f = flag_new and k = k and d = "[1]" and E = demo_quic_env and c = "quic_open []"])
      (simp_all only: target fst_conv, simp_all)
  with w show ?thesis by (intro exI [of _ ?w] exI [of _ ?x]) simp
qed

end
