(* ===== verification/Gui_Delivers.thy ===== *)
theory Gui_Delivers
  imports Gui_Session
begin

text \<open>
  From one desktop to another: the queue of \<open>send_to_contact\<close> with its TCP sender, joined to
  the receiver of the desktop application.
\<close>

section \<open>The undisturbed sender is that of the core\<close>

lemma dequeue_follows:
  assumes "ss_conn s2 = ss_conn s" "ss_frames s2 = ss_frames s" "ss_bytes s2 = ss_bytes s"
  shows "fst (tcp_send_dequeue y t s2) = fst (tcp_send_dequeue x t s)"
    and "ss_conn (snd (tcp_send_dequeue y t s2)) = ss_conn (snd (tcp_send_dequeue x t s))"
    and "ss_frames (snd (tcp_send_dequeue y t s2)) = ss_frames (snd (tcp_send_dequeue x t s))"
    and "ss_bytes (snd (tcp_send_dequeue y t s2)) = ss_bytes (snd (tcp_send_dequeue x t s))"
  using assms
  by (simp_all add: tcp_send_dequeue_def Let_def split: list.splits prod.splits sum.splits)

lemma dequeue_flag: "flag_at r (ss_world (snd (tcp_send_dequeue x t s))) = flag_at r (ss_world s)"
  by (auto simp: tcp_send_dequeue_def Let_def split: list.splits prod.splits sum.splits option.splits)

lemma gui_loop_follows:
  assumes "\<forall>t \<in> set ts. st_user t = [] \<and> st_user_dequeue t = []"
    and "flag_at (sc_flag x) (ss_world s) = flag_new" "flag_at r (ss_world s2) = flag_new"
    and "ss_conn s2 = ss_conn s" "ss_frames s2 = ss_frames s" "ss_bytes s2 = ss_bytes s"
    and "tcp_send_loop x ts s = Some (a, s')"
  shows "\<exists>s2'. gui_send_loop (Some r) y ts s2 = Some (a, s2') \<and> ss_conn s2' = ss_conn s'"
  using assms
proof (induction ts arbitrary: s s2)
  case (Cons t ts)
  have w: "wait_result flag_new = Some False" "\<not> is_cancelled flag_new"
    by (simp_all add: wait_result_def flag_new_def watch_channel_def)
  define d where "d = tcp_send_dequeue x t s"
  define d2 where "d2 = tcp_send_dequeue y t s2"
  have turns: "tcp_send_turn x t s = d" "gui_send_turn (Some r) y t s2 = d2"
    using Cons.prems(1-3) w by (simp_all add: tcp_send_turn_def gui_send_turn_def d_def d2_def Let_def)
  note D = dequeue_follows [OF Cons.prems(4-6), of y t x, folded d_def d2_def]
  have fl: "flag_at (sc_flag x) (ss_world (snd d)) = flag_new" "flag_at r (ss_world (snd d2)) = flag_new"
    using Cons.prems(2,3) by (simp_all add: d_def d2_def dequeue_flag)
  have ts: "\<forall>t \<in> set ts. st_user t = [] \<and> st_user_dequeue t = []" using Cons.prems(1) by simp
  show ?case
    using Cons.prems(7) D Cons.IH [OF ts fl D(2-4)] turns
    by (cases d; cases d2; cases "fst d") auto
qed simp

text \<open>
  Where the core's sender has run without a pause or a cancel, that of the desktop, whose
  caller has registered the flag, sends the same bytes and ends with the same result.
\<close>

lemma gui_sender_follows:
  assumes "tcp_send_file L E i p ip port False c sw fs = Some (res, c1, w1)" "se_connects E"
    and "\<forall>t \<in> set (se_turns E). st_user t = [] \<and> st_user_dequeue t = []"
    and "parse_socket_addr (ip @ '':'' @ show_nat (unat port)) \<noteq> None"
    and "w_flags w i = Some r" "flag_at r w = flag_new"
  shows "\<exists>w2. gui_send_direct L E i p ip port c w fs = Some (res, c1, w2)"
proof -
  let ?q = "path_of p" and ?pre = "generate_nonce_prefix (se_rng E)"
  obtain fl v where con: "tcp_send_connect (se_connects E) i ?q ip port fs sw = (Inr fl, v)" "flag_at fl v = flag_new"
    using assms(2,4) by (auto simp: tcp_send_connect_def case_prod_beta Let_def flag_at_def)
  obtain u where gcon: "gui_send_connect (se_connects E) i ip port w = (Inr (), u)"
    "w_flags u i = Some r" "flag_at r u = flag_new"
    using assms(2,4-6) by (auto simp: gui_send_connect_def Let_def)
  obtain k c2 where hello: "tcp_send_hello (se_crypto E) (se_secret E) c = (k, c2)" by fastforce
  show ?thesis
  proof (cases k)
    case (Inl e)
    with assms(1) con gcon hello show ?thesis by (simp add: tcp_send_file_def gui_send_direct_def Let_def)
  next
    case (Inr key)
    obtain m c3 where meta: "tcp_send_metadata L E fs ?q False ?pre c2 = (m, c3)" by fastforce
    show ?thesis
    proof (cases m)
      case (Inl e)
      with assms(1) con gcon hello meta Inr show ?thesis by (simp add: tcp_send_file_def gui_send_direct_def Let_def)
    next
      case md: (Inr mo)
      obtain md off where mo: "mo = (md, off)" by (cases mo)
      obtain frames reader where rd: "tcp_reader L (se_crypto E) (se_io E) fs ?q key ?pre off = (frames, reader)" by fastforce
      let ?x = "\<lparr>sc_id = i, sc_flag = fl, sc_total = md_file_size md\<rparr>"
      let ?y = "\<lparr>sc_id = i, sc_flag = r, sc_total = md_file_size md\<rparr>"
      let ?s = "\<lparr>ss_conn = c3, ss_world = emit (SendStatus i ''transferring'') v, ss_frames = frames, ss_bytes = off\<rparr>"
      let ?s2 = "\<lparr>ss_conn = c3, ss_world = emit (SendStatus i ''transferring'') u, ss_frames = frames, ss_bytes = off\<rparr>"
      obtain a s' where loop: "tcp_send_loop ?x (se_turns E) ?s = Some (a, s')"
        and res: "(res, c1, w1) = tcp_send_after_loop i reader a s'"
        using assms(1) con(1) hello meta Inr md mo rd by (auto simp: tcp_send_file_def Let_def)
      obtain s2' where gloop: "gui_send_loop (Some r) ?y (se_turns E) ?s2 = Some (a, s2')" "ss_conn s2' = ss_conn s'"
        using gui_loop_follows [OF assms(3), of ?x ?s r ?s2 a s' ?y] con(2) gcon(3) loop by auto
      have "\<exists>w2. gui_send_after_loop i reader a s2' = (res, c1, w2)"
        using res gloop(2)
        by (auto simp: tcp_send_after_loop_def gui_send_after_loop_def Let_def split: sum.splits prod.splits)
      with gcon hello meta Inr md mo rd gloop(1) show ?thesis
        by (auto simp: gui_send_direct_def Let_def opt_default_def)
    qed
  qed
qed

section \<open>A delivery\<close>

lemma clear_entries_simps [simp]: "w_active (clear_entries i w) i = None" "w_flags (clear_entries i w) i = None"
  using clear_entries_cleared [of i w] by simp_all

text \<open>The setting of a session with the receiver of the desktop application.\<close>

lemma desktop_setting:
  assumes "tcp_setting L SE RE p ip port False out f sfs md tgt"
  shows "tcp_setting L SE (RE\<lparr>re_codec := no_restart_codec (re_codec RE)\<rparr>) p ip port False out f sfs md tgt"
proof -
  have "forget_restart md = md" using setting_md(3) [OF assms] by (simp add: forget_restart_def)
  then have "wire_ready M (no_restart_codec N) md" if "wire_ready M N md" for M N
    using that by (auto simp: wire_ready_def no_restart_codec_def)
  with assms show ?thesis unfolding tcp_setting_def recv_ready_def by auto
qed

text \<open>
  C33. Sending a file to a contact works between two desktops of a local network: when the
  contact's device is among the discovered peers, the first round of the queue finds its
  present address, the two programs run to the end together, the receiver's directory holds
  the file of the sender, the command returns its digest, the address of the contact is up to
  date, and the transfer has left the tables of the sender.
\<close>

theorem desktop_delivers:
  assumes "get_contact db name = Some ct" "fs (path_of p) = Some f" "\<not> gq_is_dir Q (path_of p)"
    and "gq_rounds Q = t # ts" "gr_user t = []"
    and "gr_peers t = Some ps" "find_peer name (normalize_node_id (ct_peer_id ct)) ps = Some pr"
    and "ip = show_ipv4 (fst (pi_socket_addr pr))" "port = snd (pi_socket_addr pr)" "is_same_lan ip"
    and "tcp_setting L (gr_tcp t) RE (path_text (path_of p)) ip port False out f fs md tgt" "rfs tgt = None"
  shows "\<exists>s_in r_in c1 w0 w1 w' c2 w2.
    send_to_contact L (Q\<lparr>gq_rounds := t\<lparr>gr_tcp_conn := conn_open s_in\<rparr> # ts\<rparr>) i p name (w, db) fs
      = Some (Inr (to_hex (blake3_hash L f)), (w', upsert_contact db name (ct_peer_id ct) ip port (gr_now t)), fs)
    \<and> gui_send_direct L (gr_tcp t) i (path_text (path_of p)) ip port (conn_open s_in) w0 fs
      = Some (Inr (to_hex (blake3_hash L f)), c1, w1) \<and> cn_out c1 = r_in
    \<and> gui_handle_incoming L RE out (conn_open r_in) rw rfs = Some (Inr (), c2, w2, rfs(tgt \<mapsto> f)) \<and> cn_out c2 = s_in
    \<and> w_active w' i = None \<and> w_flags w' i = None"
proof -
  let ?hash = "to_hex (blake3_hash L f)" and ?E = "gr_tcp t" and ?p = "path_text (path_of p)"
  let ?RE = "RE\<lparr>re_codec := no_restart_codec (re_codec RE)\<rparr>"
  have "tcp_resume_point md (existing_length tgt rfs) = (0, False)"
    using assms(12) by (simp add: tcp_resume_point_def existing_length_def)
  from tcp_session_outcome [OF desktop_setting [OF assms(11)] this refl refl, of i w rw]
  obtain s_in r_in c1 v1 c2 w2 where ses: "tcp_session L ?E ?RE i ?p ip port False out w fs rw rfs s_in r_in
      = Some ((Inr ?hash, c1, v1), (Inr (), c2, w2, rfs(tgt \<mapsto> f)))" by auto
  then have send: "tcp_send_file L ?E i ?p ip port False (conn_open s_in) w fs = Some (Inr ?hash, c1, v1)"
    and recv: "tcp_handle_incoming L ?RE out (conn_open r_in) rw rfs = Some (Inr (), c2, w2, rfs(tgt \<mapsto> f))"
    and ends: "cn_out c1 = r_in" "cn_out c2 = s_in"
    by (auto simp: tcp_session_def split: option.splits prod.splits if_splits)
  have ready: "se_connects ?E" "parse_socket_addr (ip @ '':'' @ show_nat (unat port)) \<noteq> None"
      "\<forall>t \<in> set (se_turns ?E). st_user t = [] \<and> st_user_dequeue t = []"
    using assms(11) by (simp_all add: tcp_setting_def send_ready_def)
  obtain r u where ins: "insert_flag i w = (r, u)" "w_flags u i = Some r" "flag_at r u = flag_new"
    by (simp add: insert_flag_def Let_def flag_at_def)
  define w0 where "w0 = emit (SendStatus i ''queued'') (insert_active \<lparr>at_request_id = i, at_role = ''sender'',
    at_status = ''queued'', at_file_name = opt_default [] (file_name (path_of p)), at_total_bytes = len64 f,
    at_bytes_transferred = 0\<rparr> u)"
  have w0: "w_flags w0 i = Some r" "flag_at r w0 = flag_new" using ins by (simp_all add: w0_def)
  obtain w1 where direct: "gui_send_direct L ?E i ?p ip port (conn_open s_in) w0 fs = Some (Inr ?hash, c1, w1)"
    using gui_sender_follows [OF send ready(1,3,2) w0] by blast
  define x where "x = \<lparr>qc_id = i, qc_flag = r, qc_name = name, qc_contact = ct, qc_path = path_of p,
    qc_device = gq_device Q, qc_fs = fs\<rparr>"
  define t' where "t' = t\<lparr>gr_tcp_conn := conn_open s_in\<rparr>"
  define db' where "db' = upsert_contact db name (ct_peer_id ct) ip port (gr_now t)"
  define tg where "tg = ct\<lparr>ct_last_known_ip := ip, ct_last_known_port := port\<rparr>"
  have target: "queue_target x t' db = (tg, db')"
    using assms(1,6-9) by (simp add: queue_target_def x_def t'_def db'_def tg_def opt_default_def Let_def)
  have tcp: "queue_tcp L x t' tg w0 = Some (Some (Inr ?hash), clear_entries i w1)"
    using direct assms(10) by (simp add: queue_tcp_def x_def t'_def tg_def)
  have "wait_result (flag_at r w0) = Some False" by (simp add: w0(2) wait_result_def)
  then have "queue_round L x t' (w0, db) = Some (QueueDone (Inr ?hash), clear_entries i w1, db')"
    using target tcp assms(5) by (simp add: queue_round_def x_def t'_def Let_def)
  then have "queue_loop L x (t' # ts) (w0, db) = Some (Inr ?hash, clear_entries i w1, db')" by simp
  then have "send_to_contact L (Q\<lparr>gq_rounds := t' # ts\<rparr>) i p name (w, db) fs
      = Some (Inr ?hash, (clear_entries i w1, db'), fs)"
    using assms(1-3) ins(1)
    by (simp add: send_to_contact_def Let_def file_at_def opt_default_def w0_def x_def)
  moreover have "gui_handle_incoming L RE out (conn_open r_in) rw rfs = Some (Inr (), c2, w2, rfs(tgt \<mapsto> f))"
    using recv by (simp add: receivers_equal)
  ultimately show ?thesis
    using direct ends unfolding t'_def db'_def
    by (intro exI [of _ s_in] exI [of _ r_in] exI [of _ c1] exI [of _ w0] exI [of _ w1] exI [of _ "clear_entries i w1"]
        exI [of _ c2] exI [of _ w2]) simp
qed

section \<open>A concrete delivery\<close>

definition demo_peer :: peer_info where
  "demo_peer = \<lparr>pi_device_name = ''pc'', pi_version = ''1'', pi_tcp_port = 9877,
     pi_socket_addr = ([10, 0, 0, 2], 9877), pi_last_seen = 5, pi_node_id = Some ''abc0-1234''\<rparr>"

definition demo_deliver_round :: "fdata \<Rightarrow> queue_round_env" where
  "demo_deliver_round f = \<lparr>gr_user = [], gr_now = 8, gr_peers = Some [demo_peer], gr_tcp = demo_SE f,
     gr_tcp_conn = conn_open [], gr_quic = None, gr_sleep = []\<rparr>"

definition demo_Q :: "fdata \<Rightarrow> send_to_env" where
  "demo_Q f = \<lparr>gq_is_dir = (\<lambda>_. False), gq_temp = path_of ''/tmp'', gq_tar = (\<lambda>_. TarNotCreated ''tar''), gq_rounds = [demo_deliver_round f], gq_device = ''me''\<rparr>"

lemma desktop_delivers_witness:
  "\<exists>s_in r_in w' db' c2 w2.
    send_to_contact demo_hash (demo_Q [1, 2, 3]\<lparr>gq_rounds := [demo_deliver_round [1, 2, 3]\<lparr>gr_tcp_conn := conn_open s_in\<rparr>]\<rparr>)
        ''r1'' demo_path ''bo'' (world_new, demo_queue_db) [path_of demo_path \<mapsto> [1, 2, 3]]
      = Some (Inr (to_hex (blake3_hash demo_hash [1, 2, 3])), (w', db'), [path_of demo_path \<mapsto> [1, 2, 3]])
    \<and> gui_handle_incoming demo_hash (demo_RE [1, 2, 3]) (path_of ''/out'') (conn_open r_in) world_new Map.empty
      = Some (Inr (), c2, w2, [demo_target [1, 2, 3] \<mapsto> [1, 2, 3]])"
proof -
  let ?f = "[1, 2, 3] :: fdata"
  have contact: "get_contact demo_queue_db ''bo'' = Some demo_contact"
    by (simp add: get_contact_def demo_queue_db_def demo_contact_def)
  have ip: "show_ipv4 [10, 0, 0, 2] = ''10.0.0.2''" by code_simp
  have lan: "is_same_lan ''10.0.0.2''" by code_simp
  have path: "path_text (path_of demo_path) = demo_path" by code_simp
  have norm: "normalize_node_id ''abc0-1234'' = ''ABC01234''" "normalize_node_id ''ABC01234'' = ''ABC01234''" by code_simp+
  have "find_peer ''bo'' (normalize_node_id (ct_peer_id demo_contact)) [demo_peer] = Some demo_peer"
    using norm by (simp add: find_peer_def demo_peer_def demo_contact_def)
  moreover have "gr_peers (demo_deliver_round ?f) = Some [demo_peer]" "gr_user (demo_deliver_round ?f) = []"
    "gr_tcp (demo_deliver_round ?f) = demo_SE ?f" by (simp_all add: demo_deliver_round_def)
  moreover have "gq_rounds (demo_Q ?f) = demo_deliver_round ?f # []" "\<not> gq_is_dir (demo_Q ?f) (path_of demo_path)"
    by (simp_all add: demo_Q_def)
  moreover have "tcp_setting demo_hash (demo_SE ?f) (demo_RE ?f) (path_text (path_of demo_path)) ''10.0.0.2'' 9877 False
      (path_of ''/out'') ?f [path_of demo_path \<mapsto> ?f] (demo_meta ?f) (demo_target ?f)"
    unfolding path by (rule demo_setting) simp
  moreover have "''10.0.0.2'' = show_ipv4 (fst (pi_socket_addr demo_peer))" "9877 = snd (pi_socket_addr demo_peer)"
    by (simp_all add: demo_peer_def ip)
  moreover have "[path_of demo_path \<mapsto> ?f] (path_of demo_path) = Some ?f" by simp
  moreover have "(Map.empty :: filesystem) (demo_target ?f) = None" by simp
  ultimately show ?thesis
    using desktop_delivers [where Q = "demo_Q ?f" and t = "demo_deliver_round ?f" and ts = "[]" and RE = "demo_RE ?f"
        and out = "path_of ''/out''" and i = "''r1''" and p = demo_path and name = "''bo''" and w = world_new and rw = world_new
        and rfs = Map.empty and f = ?f and tgt = "demo_target ?f" and md = "demo_meta ?f" and ip = "''10.0.0.2''" and port = 9877
        and pr = demo_peer and ps = "[demo_peer]" and L = demo_hash and fs = "[path_of demo_path \<mapsto> ?f]", OF contact] lan
    by metis
qed

end
