(* ===== verification/Mobile.thy ===== *)
theory Mobile
  imports Gui_App Tcp_Send Alpn_Send
begin

text \<open>
  The bridge of the mobile application (\<open>mobile/p2ptransfer-flutter/rust/src/api.rs\<close>): its
  commands on the registries, the look-up of a peer, and the sender that tries TCP on the
  local network first and QUIC after it. Binding the endpoint and the sockets is left out.
\<close>

section \<open>Events\<close>

datatype frb_event =
  FrbSendStatus string string
| FrbRejected string
| FrbError string string
| FrbIncoming string string string string u64
| FrbProgress string u64 u64 rat
| FrbComplete string string string rat
| FrbCancelled string

fun frb_map :: "transfer_event \<Rightarrow> frb_event" where
  "frb_map (SendStatus i s) = FrbSendStatus i s"
| "frb_map (Rejected i) = FrbRejected i"
| "frb_map (TransferError i e) = FrbError i e"
| "frb_map (Incoming i sd nd nm n) = FrbIncoming i sd nd nm n"
| "frb_map (Progress i n k v) = FrbProgress i n k v"
| "frb_map (Complete i p h t) = FrbComplete i p h t"
| "frb_map (Cancelled i) = FrbCancelled i"

text \<open>The forwarding task sends on every event in its order.\<close>

definition frb_forward :: "transfer_event list \<Rightarrow> frb_event list" where
  "frb_forward events = map frb_map events"

section \<open>Commands\<close>

record mobile_state =
  mb_world :: world
  mb_endpoint :: bool
  mb_router :: bool
  mb_discovery :: "discovery option"
  mb_output_dir :: string

definition mobile_new :: mobile_state where
  "mobile_new = \<lparr>mb_world = world_new, mb_endpoint = False, mb_router = False, mb_discovery = None, mb_output_dir = []\<rparr>"

text \<open>\<open>binds\<close>: whether the endpoint and the discovery socket can be bound.\<close>

definition init_backend ::
  "'h hash_lib \<Rightarrow> bool \<times> bool \<Rightarrow> string \<Rightarrow> string \<Rightarrow> string \<Rightarrow> mobile_state \<Rightarrow> (string + unit) \<times> mobile_state" where
  "init_backend L binds version node_id output_dir m =
     (case derive_secret_key_from_short_id L node_id of
        Inl e \<Rightarrow> (Inl e, m)
      | Inr _ \<Rightarrow>
     (if \<not> fst binds then (Inl ''Failed to bind iroh endpoint'', m)
      else let m = (if snd binds then m\<lparr>mb_discovery :=
                  Some (disc_start version (disc_new_with_node_id ''Mobile'' 9877 9876 (Some node_id)))\<rparr> else m)
           in (Inr (), m\<lparr>mb_output_dir := output_dir, mb_endpoint := True, mb_router := True\<rparr>)))"

text \<open>Setting the directory after the start has no effect.\<close>

definition mobile_set_output_dir :: "string \<Rightarrow> mobile_state \<Rightarrow> mobile_state" where
  "mobile_set_output_dir dir m = m"

definition mobile_respond :: "string \<Rightarrow> bool \<Rightarrow> mobile_state \<Rightarrow> mobile_state" where
  "mobile_respond request_id accepted m = m\<lparr>mb_world := snd (pending_respond request_id accepted (mb_world m))\<rparr>"

definition mobile_pause :: "string \<Rightarrow> mobile_state \<Rightarrow> mobile_state" where
  "mobile_pause request_id m = m\<lparr>mb_world := signal_flag request_id flag_pause (mb_world m)\<rparr>"

definition mobile_resume :: "string \<Rightarrow> mobile_state \<Rightarrow> mobile_state" where
  "mobile_resume request_id m = m\<lparr>mb_world := signal_flag request_id flag_resume (mb_world m)\<rparr>"

definition mobile_cancel :: "string \<Rightarrow> mobile_state \<Rightarrow> mobile_state" where
  "mobile_cancel request_id m = m\<lparr>mb_world := signal_flag request_id flag_cancel (mb_world m)\<rparr>"

section \<open>Peers\<close>

definition mobile_peers :: "mobile_state \<Rightarrow> peer_info list" where
  "mobile_peers m = (case mb_discovery m of None \<Rightarrow> [] | Some d \<Rightarrow> get_peers d)"

definition mobile_find_peer :: "string \<Rightarrow> mobile_state \<Rightarrow> peer_info option" where
  "mobile_find_peer target m =
     (let norm_id = normalize_node_id target in
      List.find (\<lambda>p. (case pi_node_id p of None \<Rightarrow> False | Some i \<Rightarrow> normalize_node_id i = norm_id)
        \<or> eq_ignore_case (pi_device_name p) target) (mobile_peers m))"

text \<open>\<open>tcp\<close> and \<open>quic\<close>: whether a connection can be made.\<close>

definition check_peer_online ::
  "'h hash_lib \<Rightarrow> (socket_addr \<Rightarrow> bool) \<Rightarrow> bool \<Rightarrow> string \<Rightarrow> mobile_state \<Rightarrow> bool" where
  "check_peer_online L tcp quic target m =
     ((case mobile_find_peer target m of Some p \<Rightarrow> tcp (pi_socket_addr p) | None \<Rightarrow> False)
      \<or> (mb_endpoint m \<and> (case derive_secret_key_from_short_id L target of Inl _ \<Rightarrow> False | Inr _ \<Rightarrow> quic)))"

section \<open>Sending\<close>

record mobile_send_env =
  ms_tcp :: send_env
  ms_tcp_conn :: conn
  ms_quic :: alpn_send_env
  ms_quic_conn :: quic_conn

definition mobile_stops :: "string \<Rightarrow> bool" where
  "mobile_stops e = (contains_str e ''rejected'' \<or> e = ''REJECTED'' \<or> contains_str e ''cancelled'' \<or> contains_str e ''Cancelled'')"

text \<open>
  The attempt over TCP: not made, or its result. As the functions it calls, it returns the
  connection as well: what has been written to it and what is left to read.
\<close>

definition mobile_tcp ::
  "'h hash_lib \<Rightarrow> mobile_send_env \<Rightarrow> string \<Rightarrow> string \<Rightarrow> peer_info option \<Rightarrow> world \<Rightarrow> filesystem
     \<Rightarrow> ((string + string) option \<times> conn \<times> world) option" where
  "mobile_tcp L E request_id file_path peer w fs =
     (case peer of
        None \<Rightarrow> Some (None, ms_tcp_conn E, w)
      | Some p \<Rightarrow> map_option (\<lambda>(r, c, w). (Some r, c, w))
          (tcp_send_file L (ms_tcp E) request_id file_path (show_ipv4 (fst (pi_socket_addr p)))
             (snd (pi_socket_addr p)) False (ms_tcp_conn E) w fs))"

definition mobile_complete :: "string \<Rightarrow> string \<Rightarrow> string \<Rightarrow> world \<Rightarrow> world" where
  "mobile_complete request_id file_path hash w = emit (Complete request_id file_path hash 0) w"

definition mobile_quic ::
  "'h hash_lib \<Rightarrow> mobile_send_env \<Rightarrow> string \<Rightarrow> string \<Rightarrow> string \<Rightarrow> world \<Rightarrow> filesystem
     \<Rightarrow> ((string + string) \<times> quic_conn \<times> world) option" where
  "mobile_quic L E request_id file_path sender_name w fs =
     map_option (\<lambda>(r, c, w).
        case r of Inl e \<Rightarrow> (Inl e, c, w) | Inr hash \<Rightarrow> (Inr hash, c, mobile_complete request_id file_path hash w))
       (alpn_send_file L (ms_quic E) request_id (path_of file_path) sender_name False (ms_quic_conn E) w fs)"

text \<open>The result, the TCP and the QUIC connection as the send leaves them, and the registries.\<close>

definition mobile_send_file ::
  "'h hash_lib \<Rightarrow> mobile_send_env \<Rightarrow> string \<Rightarrow> string \<Rightarrow> string \<Rightarrow> string \<Rightarrow> mobile_state \<Rightarrow> filesystem
     \<Rightarrow> ((string + string) \<times> (conn \<times> quic_conn) \<times> world) option" where
  "mobile_send_file L E request_id target file_path sender_name m fs =
     (if \<not> mb_endpoint m then Some (Inl ''Backend not initialized'', (ms_tcp_conn E, ms_quic_conn E), mb_world m)
      else case derive_secret_key_from_short_id L target of
        Inl e \<Rightarrow> Some (Inl e, (ms_tcp_conn E, ms_quic_conn E), mb_world m)
      | Inr _ \<Rightarrow>
     (case mobile_tcp L E request_id file_path (mobile_find_peer target m) (mb_world m) fs of
        None \<Rightarrow> None
      | Some (Some (Inr hash), c, w) \<Rightarrow>
          Some (Inr hash, (c, ms_quic_conn E), mobile_complete request_id file_path hash w)
      | Some (Some (Inl e), c, w) \<Rightarrow>
          if mobile_stops e then Some (Inl e, (c, ms_quic_conn E), w)
          else map_option (\<lambda>(r, q, w). (r, (c, q), w)) (mobile_quic L E request_id file_path sender_name w fs)
      | Some (None, c, w) \<Rightarrow>
          map_option (\<lambda>(r, q, w). (r, (c, q), w)) (mobile_quic L E request_id file_path sender_name w fs)))"

section \<open>What a send does\<close>

text \<open>
  A send of the mobile application that succeeds has been delivered by exactly one of the
  two protocols: over TCP, and then QUIC has not been tried; or over QUIC, after TCP had no
  peer to go to or failed for a reason that is neither a rejection nor a cancel. The last
  event tells the user that the transfer is complete, with the digest that is returned.
\<close>

theorem mobile_send_delivers_once:
  assumes "mobile_send_file L E i target p sender m fs = Some (Inr hash, cs, w')"
  shows "\<exists>w1. w' = emit (Complete i p hash 0) w1 \<and>
    ((\<exists>peer c. mobile_find_peer target m = Some peer
        \<and> tcp_send_file L (ms_tcp E) i p (show_ipv4 (fst (pi_socket_addr peer))) (snd (pi_socket_addr peer)) False
            (ms_tcp_conn E) (mb_world m) fs = Some (Inr hash, c, w1) \<and> cs = (c, ms_quic_conn E))
     \<or> (\<exists>w0 c. snd cs = c \<and> alpn_send_file L (ms_quic E) i (path_of p) sender False (ms_quic_conn E) w0 fs = Some (Inr hash, c, w1)
        \<and> (mobile_find_peer target m = None \<and> w0 = mb_world m
          \<or> (\<exists>peer e c. mobile_find_peer target m = Some peer \<and> \<not> mobile_stops e
              \<and> tcp_send_file L (ms_tcp E) i p (show_ipv4 (fst (pi_socket_addr peer))) (snd (pi_socket_addr peer)) False
                  (ms_tcp_conn E) (mb_world m) fs = Some (Inl e, c, w0)))))"
proof -
  have quic: "\<exists>w1. w' = emit (Complete i p hash 0) w1
      \<and> alpn_send_file L (ms_quic E) i (path_of p) sender False (ms_quic_conn E) w0 fs = Some (Inr hash, q, w1)"
    if "mobile_quic L E i p sender w0 fs = Some (Inr hash, q, w')" for w0 q
  proof -
    from that obtain r c w1 where "alpn_send_file L (ms_quic E) i (path_of p) sender False (ms_quic_conn E) w0 fs = Some (r, c, w1)"
      "(case r of Inl e \<Rightarrow> (Inl e, c, w1) | Inr h \<Rightarrow> (Inr h, c, mobile_complete i p h w1)) = (Inr hash, q, w')"
      by (auto simp: mobile_quic_def)
    then show ?thesis by (cases r) (auto simp: mobile_complete_def)
  qed
  obtain a c w where tcp: "mobile_tcp L E i p (mobile_find_peer target m) (mb_world m) fs = Some (a, c, w)"
    using assms by (auto simp: mobile_send_file_def split: if_splits sum.splits option.splits)
  show ?thesis
  proof (cases a)
    case None
    then obtain q where "mobile_quic L E i p sender w fs = Some (Inr hash, q, w')" "cs = (c, q)"
      using assms tcp by (auto simp: mobile_send_file_def split: if_splits sum.splits)
    moreover have "mobile_find_peer target m = None \<and> w = mb_world m"
      using tcp None by (auto simp: mobile_tcp_def split: option.splits)
    ultimately show ?thesis using quic by fastforce
  next
    case (Some r)
    then obtain peer where peer: "mobile_find_peer target m = Some peer"
      "tcp_send_file L (ms_tcp E) i p (show_ipv4 (fst (pi_socket_addr peer))) (snd (pi_socket_addr peer)) False
         (ms_tcp_conn E) (mb_world m) fs = Some (r, c, w)"
      using tcp by (auto simp: mobile_tcp_def split: option.splits)
    show ?thesis
    proof (cases r)
      case (Inr h)
      with assms tcp Some have "h = hash \<and> cs = (c, ms_quic_conn E) \<and> w' = emit (Complete i p hash 0) w"
        by (auto simp: mobile_send_file_def mobile_complete_def split: if_splits sum.splits)
      with peer Inr show ?thesis by blast
    next
      case (Inl e)
      with assms tcp Some obtain q where "\<not> mobile_stops e" "mobile_quic L E i p sender w fs = Some (Inr hash, q, w')" "cs = (c, q)"
        by (auto simp: mobile_send_file_def split: if_splits sum.splits)
      with quic [OF this(2)] peer Inl show ?thesis by fastforce
    qed
  qed
qed

text \<open>
  The identifier in the form in which the desktop application shows it, with a dash, is not
  accepted by the sender of the mobile application.
\<close>

theorem mobile_refuses_shown_identifier:
  assumes "mb_endpoint m" "id_valid (gs_device_id g)"
  shows "mobile_send_file L E i (get_device_id g) p sender m fs
    = Some (Inl ''Short ID must be exactly 8 characters.'', (ms_tcp_conn E, ms_quic_conn E), mb_world m)"
proof -
  let ?i = "map upper_char (gs_device_id g)"
  have v: "id_valid ?i" using id_valid_upper [OF assms(2)] by simp
  then have shown: "get_device_id g = take 4 ?i @ ''-'' @ take 4 (drop 4 ?i)" "length (get_device_id g) = 9"
    by (simp_all add: get_device_id_def id_valid_def Let_def)
  have "\<not> is_space CHR ''-''" by (simp add: is_space_def)
  moreover have "\<not> is_space c" if "c \<in> set ?i" for c
    using v that hexdigit_facts(1) [of c] by (auto simp: id_valid_def list_all_iff)
  ultimately have "\<not> list_ex is_space (get_device_id g)"
    unfolding shown(1) list_ex_iff by (auto dest!: in_set_takeD in_set_dropD simp: image_iff)
  then have "trim (get_device_id g) = get_device_id g" by (rule trim_no_space)
  then have "derive_secret_key_from_short_id L (get_device_id g) = Inl ''Short ID must be exactly 8 characters.''"
    using shown(2) by (simp add: derive_secret_key_from_short_id_def)
  with assms(1) show ?thesis by (simp add: mobile_send_file_def)
qed

end
