(* ===== verification/Mobile_Session.thy ===== *)
theory Mobile_Session
  imports Mobile Alpn_Session
begin

text \<open>
  The sender of the mobile application joined to the QUIC receiver of the core, and concrete
  runs of the bridge.
\<close>

section \<open>From the mobile application to a receiver\<close>

lemma mobile_tcp_update [simp]:
  "mobile_tcp L (E\<lparr>ms_quic_conn := c\<rparr>) = mobile_tcp L E"
  by (intro ext) (simp add: mobile_tcp_def split: option.splits)

lemma mobile_sends_over_quic:
  assumes "mb_endpoint m" "derive_secret_key_from_short_id L target = Inr k"
    and "mobile_tcp L E i p (mobile_find_peer target m) (mb_world m) fs = Some (a, c0, w0)"
    and "a = None \<or> a = Some (Inl e) \<and> \<not> mobile_stops e"
    and "alpn_send_file L (ms_quic E) i (path_of p) sender False (ms_quic_conn E) w0 fs = Some (Inr h, c, w1)"
  shows "mobile_send_file L E i target p sender m fs = Some (Inr h, (c0, c), emit (Complete i p h 0) w1)"
  using assms(4) assms(1-3,5) by (auto simp: mobile_send_file_def mobile_quic_def mobile_complete_def)


section \<open>Concrete runs\<close>

definition demo_mobile :: mobile_state where
  "demo_mobile = mobile_new\<lparr>mb_endpoint := True, mb_router := True\<rparr>"

lemma demo_mobile_peer: "mobile_find_peer t demo_mobile = None"
  by (simp add: demo_mobile_def mobile_new_def mobile_find_peer_def mobile_peers_def Let_def)

definition demo_mobile_E :: "byte list \<Rightarrow> mobile_send_env" where
  "demo_mobile_E s_in = \<lparr>ms_tcp = demo_send_env \<lparr>mc_enc = (\<lambda>_. None), mc_dec = (\<lambda>_. None)\<rparr> [],
     ms_tcp_conn = conn_open [], ms_quic = demo_alpn_SE [1, 2], ms_quic_conn = quic_open s_in\<rparr>"


text \<open>A send that succeeds, without the other side.\<close>

lemma demo_mobile_send:
  "\<exists>s_in h cs w'. mobile_send_file demo_hash (demo_mobile_E s_in) ''r1'' ''ABC01234'' demo_name ''me'' demo_mobile
     [path_of demo_name \<mapsto> [1, 2]] = Some (Inr h, cs, w')"
proof -
  obtain k where k: "derive_secret_key_from_short_id demo_hash ''ABC01234'' = Inr k" using demo_key by blast
  have "alpn_target (path_of ''/out'') rq Map.empty = (unique_path Map.empty (path_join (path_of ''/out'') (path_of (tq_file_name rq))), False)" for rq
    by (simp add: alpn_target_def path_exists_def Let_def)
  from alpn_session_outcome [OF demo_alpn_setting [of "[1, 2]"] this refl refl, of world_new world_new]
  obtain s_in r_in c1 w1 R where
    "alpn_session demo_hash (demo_alpn_SE [1, 2]) (demo_alpn_RE [1, 2]) ''r1'' (path_of demo_name) ''me'' False (path_of ''/out'')
       world_new [path_of demo_name \<mapsto> [1, 2]] world_new Map.empty s_in r_in
       = Some ((Inr (to_hex (blake3_hash demo_hash [1, 2])), c1, w1), R)"
    by fastforce
  then have "alpn_send_file demo_hash (demo_alpn_SE [1, 2]) ''r1'' (path_of demo_name) ''me'' False (quic_open s_in) world_new
       [path_of demo_name \<mapsto> [1, 2]] = Some (Inr (to_hex (blake3_hash demo_hash [1, 2])), c1, w1)"
    by (auto simp: alpn_session_def split: option.splits prod.splits if_splits)
  moreover have "mobile_tcp demo_hash (demo_mobile_E s_in) ''r1'' demo_name (mobile_find_peer ''ABC01234'' demo_mobile)
      (mb_world demo_mobile) [path_of demo_name \<mapsto> [1, 2]] = Some (None, conn_open [], world_new)"
    unfolding demo_mobile_peer by (simp add: mobile_tcp_def demo_mobile_E_def demo_mobile_def mobile_new_def)
  ultimately have "mobile_send_file demo_hash (demo_mobile_E s_in) ''r1'' ''ABC01234'' demo_name ''me'' demo_mobile
     [path_of demo_name \<mapsto> [1, 2]] = Some (Inr (to_hex (blake3_hash demo_hash [1, 2])), (conn_open [], c1),
        emit (Complete ''r1'' demo_name (to_hex (blake3_hash demo_hash [1, 2])) 0) w1)"
    by (intro mobile_sends_over_quic [where a = None, OF _ k]) (simp_all add: demo_mobile_E_def demo_mobile_def mobile_new_def)
  then show ?thesis by blast
qed

lemma mobile_send_delivers_once_witness:
  "\<exists>s_in h cs w' w0 w1 c. mobile_send_file demo_hash (demo_mobile_E s_in) ''r1'' ''ABC01234'' demo_name ''me'' demo_mobile
       [path_of demo_name \<mapsto> [1, 2]] = Some (Inr h, cs, w')
     \<and> alpn_send_file demo_hash (demo_alpn_SE [1, 2]) ''r1'' (path_of demo_name) ''me'' False (quic_open s_in) w0
         [path_of demo_name \<mapsto> [1, 2]] = Some (Inr h, c, w1)"
proof -
  obtain s_in h cs w' where run: "mobile_send_file demo_hash (demo_mobile_E s_in) ''r1'' ''ABC01234'' demo_name ''me''
      demo_mobile [path_of demo_name \<mapsto> [1, 2]] = Some (Inr h, cs, w')" using demo_mobile_send by blast
  have q: "ms_quic (demo_mobile_E s_in) = demo_alpn_SE [1, 2]" "ms_quic_conn (demo_mobile_E s_in) = quic_open s_in"
    by (simp_all add: demo_mobile_E_def)
  from mobile_send_delivers_once [OF run] show ?thesis
    unfolding q demo_mobile_peer using run by fast
qed

lemma mobile_refuses_shown_identifier_witness:
  "mobile_send_file demo_hash (demo_mobile_E []) ''r1''
     (get_device_id \<lparr>gs_world = world_new, gs_db = demo_db, gs_discovery = None, gs_device_id = ''ABC01234'',
        gs_device_name = ''me'', gs_output_dir = ''.'', gs_pending_files = []\<rparr>) demo_name ''me'' demo_mobile Map.empty
   = Some (Inl ''Short ID must be exactly 8 characters.'',
       (ms_tcp_conn (demo_mobile_E []), ms_quic_conn (demo_mobile_E [])), mb_world demo_mobile)"
proof (rule mobile_refuses_shown_identifier)
  show "mb_endpoint demo_mobile" by (simp add: demo_mobile_def)
  have "id_valid ''ABC01234''" by code_simp
  then show "id_valid (gs_device_id \<lparr>gs_world = world_new, gs_db = demo_db, gs_discovery = None, gs_device_id = ''ABC01234'',
        gs_device_name = ''me'', gs_output_dir = ''.'', gs_pending_files = []\<rparr>)" by simp
qed

end
