(* ===== verification/Ffi.thy ===== *)
theory Ffi
  imports Compression Hashing Discovery
begin

text \<open>
  The C interface (\<open>mobile/p2ptransfer-ffi/src/lib.rs\<close>). Strings and buffers are the values
  they hold, a null pointer to a name is the empty name; freeing them is left out.
\<close>

section \<open>Hashing and compressing\<close>

definition ffi_hash :: "'h hash_lib \<Rightarrow> byte list \<Rightarrow> string" where
  "ffi_hash L data = concat (map hex_byte (blake3_hash L data))"

text \<open>A panic does not return.\<close>

definition ffi_compress ::
  "'z zstd_lib \<Rightarrow> (int \<rightharpoonup> 'z) \<Rightarrow> byte list \<Rightarrow> int \<Rightarrow> string + byte list \<times> u64 \<times> (int \<rightharpoonup> 'z)" where
  "ffi_compress Z comps data level =
     (case zstd_compress Z comps data level of
        (Inl (ZstdPanic e), comps) \<Rightarrow> Inl e
      | (r, comps) \<Rightarrow>
     (let compressed = (case r of Inl _ \<Rightarrow> data | Inr c \<Rightarrow> c);
          out = u32_to_le (word_of_nat (length compressed)) @ compressed
      in Inr (out, len64 out, comps)))"

section \<open>Discovery\<close>

definition ffi_device_name :: "string \<Rightarrow> string" where
  "ffi_device_name device_name = (if device_name = [] then ''MobileDevice'' else device_name)"

text \<open>
  The peers found in the time given, as the JSON text \<open>json\<close> makes of them; an empty list when
  the socket cannot be bound. \<open>heard\<close> is what happens during the time of the search,
  \<open>later\<close> what happens while the function waits for the service to stop, and None a call
  that still waits after it.
\<close>

definition ffi_discover_peers ::
  "(peer_info list \<Rightarrow> string option) \<Rightarrow> bool \<Rightarrow> string \<Rightarrow> (byte list \<Rightarrow> beacon option)
     \<Rightarrow> (u64 \<Rightarrow> disc_event list) \<Rightarrow> disc_event list \<Rightarrow> string \<Rightarrow> u64 \<Rightarrow> string option" where
  "ffi_discover_peers json binds version dec heard later device_name duration_secs =
     (if \<not> binds then Some ''[]''
      else let d = disc_start version (disc_new (ffi_device_name device_name) 9877 9876);
               d = disc_run version dec (heard (max duration_secs 1)) d;
               peers = get_peers d
           in if disc_stop_returns (disc_run version dec later (disc_stop d))
              then Some (opt_default ''[]'' (json peers)) else None)"

section \<open>What a caller gets\<close>

lemma ffi_compress_Inr:
  "ffi_compress Z comps data level = Inr (out, n, comps') \<Longrightarrow>
   \<exists>r c. zstd_compress Z comps data level = (r, comps') \<and> (r = Inr c \<or> c = data)
     \<and> out = u32_to_le (word_of_nat (length c)) @ c \<and> n = len64 out"
  by (auto simp: ffi_compress_def Let_def split: prod.splits sum.splits zstd_error.splits)

text \<open>
  A buffer returned to a C caller is framed by the length of what follows and not by the length
  of the data, as its comment says; what follows is a compressed form of the data or, when
  the compressor failed, the data.
\<close>

theorem ffi_compress_result:
  assumes "zstd_roundtrip Z" "comps_ok Z comps"
    and "ffi_compress Z comps data level = Inr (out, n, comps')"
  shows "comps_ok Z comps' \<and> n = len64 out
    \<and> u32_from_le (take 4 out) = word_of_nat (length (drop 4 out))
    \<and> (zstd_decompress Z (drop 4 out) = Inr data \<or> drop 4 out = data)"
proof -
  obtain r c where rc: "zstd_compress Z comps data level = (r, comps')" "r = Inr c \<or> c = data"
    "out = u32_to_le (word_of_nat (length c)) @ c" "n = len64 out"
    using ffi_compress_Inr [OF assms(3)] by blast
  have ok: "comps_ok Z comps'" using zstd_compress_comps_ok [OF assms(2) rc(1)] .
  have "zstd_decompress Z c = Inr data \<or> c = data"
    using rc(1,2) zstd_compress_decompress [OF assms(1,2), of data level c comps'] by auto
  with ok show ?thesis by (simp add: rc(3,4))
qed

text \<open>
  No reader of such a buffer can tell the two cases apart: data on which the compressor fails
  and which is itself the compressed form of other data gives the same buffer as that data.
\<close>

theorem ffi_compress_ambiguous:
  assumes "comps_ok Z comps" "zstd_compress Z comps data level = (Inr c, comps')"
    and "zstd_compress Z comps c level = (Inl (ZstdFailed e), comps'')"
  shows "\<exists>n. ffi_compress Z comps data level = Inr (u32_to_le (word_of_nat (length c)) @ c, n, comps')
    \<and> ffi_compress Z comps c level = Inr (u32_to_le (word_of_nat (length c)) @ c, n, comps'')"
  using assms(2,3) by (simp add: ffi_compress_def Let_def)

text \<open>
  A search for peers does not return to its C caller when its listener waits for a datagram
  at the end of the time and none arrives any more: its own beacons have ended with it.
\<close>

theorem ffi_discover_hangs:
  assumes "disc_run version dec (heard (max secs 1)) (disc_start version (disc_new (ffi_device_name name) 9877 9876)) = d"
    and "ds_tasks d = Some (s, Waiting, c)" "\<forall>ev \<in> set later. \<not> is_receive ev"
  shows "ffi_discover_peers json True version dec heard later name secs = None"
proof -
  have "\<not> ds_running (disc_stop d)" "ds_tasks (disc_stop d) = Some (s, Waiting, c)"
    using assms(2) by (simp_all add: disc_stop_def)
  from listener_blocked [OF this assms(3), of version dec]
  have "\<not> disc_stop_returns (disc_run version dec later (disc_stop d))" by (auto simp: disc_stop_returns_def)
  with assms(1) show ?thesis by (simp add: ffi_discover_peers_def)
qed

section \<open>Concrete calls\<close>

lemma ffi_compress_result_witness:
  "comps_ok demo_zstd [3 \<mapsto> 3]
    \<and> (zstd_decompress demo_zstd [3, 7] = Inr [7] \<or> [3, 7] = [7 :: byte])"
proof -
  have "ffi_compress demo_zstd Map.empty [7] 3 = Inr (u32_to_le (word_of_nat 2) @ [3, 7], len64 (u32_to_le (word_of_nat 2) @ [3, 7 :: byte]), [3 \<mapsto> 3])"
    by (simp add: ffi_compress_def zstd_compress_def demo_zstd_def clamp_level_def MAX_LEVEL_def Let_def ok_or_def)
  from ffi_compress_result [OF demo_zstd_roundtrip comps_ok_empty this] show ?thesis by simp
qed

definition short_zstd :: "int zstd_lib" where
  "short_zstd = demo_zstd\<lparr>z_bulk := (\<lambda>c d. if length d < 2 then Some (word_of_int c # d) else None)\<rparr>"

lemma ffi_compress_ambiguous_witness:
  "\<exists>n. ffi_compress short_zstd Map.empty [7] 3 = Inr (u32_to_le (word_of_nat (length [3, 7 :: byte])) @ [3, 7], n, [3 \<mapsto> 3])
    \<and> ffi_compress short_zstd Map.empty [3, 7] 3 = Inr (u32_to_le (word_of_nat (length [3, 7 :: byte])) @ [3, 7], n, [3 \<mapsto> 3])"
  by (rule ffi_compress_ambiguous [OF comps_ok_empty, where e = "''Zstd compression failed''"])
     (simp_all add: zstd_compress_def short_zstd_def demo_zstd_def clamp_level_def MAX_LEVEL_def Let_def ok_or_def)

lemma ffi_discover_hangs_witness:
  "ffi_discover_peers (\<lambda>_. None) True ''1'' (\<lambda>_. None) (\<lambda>_. [TestSend, TestListen, TestCleanup])
     [SendTimer, TestSend, CleanupTimer 7, TestCleanup] [] 0 = None"
  by (rule ffi_discover_hangs [OF refl, where s = Waiting and c = Waiting])
     (simp_all add: disc_start_def disc_new_def disc_new_with_node_id_def disc_step.simps step_send_def)

end
