(* ===== verification/Cli_Listen.thy ===== *)
theory Cli_Listen
  imports Cli_Pipeline
begin

text \<open>
  \<open>cmd_listen\<close> of \<open>desktop/p2ptransfer-cli/src/main.rs\<close>: the listener accepts connections
  and runs each as a task of its own. All tasks share the table of active transfers, the
  database and the files, and their steps interleave in any order; a list of choices is one
  interleaving. The opening of a connection is one step.
\<close>

section \<open>The listener\<close>

datatype 'z listen_conn =
    LcAccepted "'z cli_recv_env" conn
  | LcPipe "'z cli_ctx" cli_pipe
  | LcOver "string option" conn

record 'z cli_listener =
  ls_conns :: "'z listen_conn list"
  ls_host :: cli_host
  ls_ended :: "string option"

datatype 'z listen_choice =
    LnAccept "'z cli_recv_env" conn
  | LnAcceptError string
  | LnBegin nat
  | LnPipe nat cli_choice

definition listen_start :: "resume_db \<Rightarrow> filesystem \<Rightarrow> 'z cli_listener" where
  "listen_start db fs = \<lparr>ls_conns = [],
     ls_host = \<lparr>ch_shared = [], ch_active = Map.empty, ch_db = db, ch_fs = fs\<rparr>, ls_ended = None\<rparr>"

text \<open>A failing \<open>accept\<close> ends the listener, and with it the tasks; the shutdown channel is never used.\<close>

definition listen_begin :: "path \<Rightarrow> nat \<Rightarrow> 'z cli_listener \<Rightarrow> 'z cli_listener" where
  "listen_begin output_dir k s =
     (case ls_conns s ! k of
        LcAccepted E c \<Rightarrow>
          (case cli_recv_begin E output_dir c (ls_host s) of
             (Inl e, c, h) \<Rightarrow> s\<lparr>ls_conns := (ls_conns s)[k := LcOver (Some e) c], ls_host := h\<rparr>
           | (Inr None, c, h) \<Rightarrow> s\<lparr>ls_conns := (ls_conns s)[k := LcOver None c], ls_host := h\<rparr>
           | (Inr (Some (key, r)), c, h) \<Rightarrow>
               s\<lparr>ls_conns := (ls_conns s)[k :=
                    LcPipe \<lparr>cx_crypto = ce_crypto E, cx_zstd = ce_zstd E, cx_key = key, cx_ref = r\<rparr>
                      \<lparr>cp_conn = c, cp_tasks = [], cp_hash = [], cp_phase = PhRunning\<rparr>], ls_host := h\<rparr>)
      | _ \<Rightarrow> s)"

definition listen_pipe :: "'h hash_lib \<Rightarrow> nat \<Rightarrow> cli_choice \<Rightarrow> 'z cli_listener \<Rightarrow> 'z cli_listener" where
  "listen_pipe L k ch s =
     (case ls_conns s ! k of
        LcPipe x pp \<Rightarrow>
          (case cli_step L x ch (pp, ls_host s) of
             None \<Rightarrow> s
           | Some (pp, h) \<Rightarrow> s\<lparr>ls_conns := (ls_conns s)[k := LcPipe x pp], ls_host := h\<rparr>)
      | _ \<Rightarrow> s)"

fun listen_step :: "'h hash_lib \<Rightarrow> path \<Rightarrow> 'z listen_choice \<Rightarrow> 'z cli_listener \<Rightarrow> 'z cli_listener" where
  "listen_step L output_dir ch s =
     (if ls_ended s \<noteq> None then s
      else case ch of
        LnAccept E c \<Rightarrow> s\<lparr>ls_conns := ls_conns s @ [LcAccepted E c]\<rparr>
      | LnAcceptError e \<Rightarrow> s\<lparr>ls_ended := Some e\<rparr>
      | LnBegin k \<Rightarrow> (if k < length (ls_conns s) then listen_begin output_dir k s else s)
      | LnPipe k ch \<Rightarrow> (if k < length (ls_conns s) then listen_pipe L k ch s else s))"

definition cmd_listen ::
  "'h hash_lib \<Rightarrow> path \<Rightarrow> 'z listen_choice list \<Rightarrow> 'z cli_listener \<Rightarrow> 'z cli_listener" where
  "cmd_listen L output_dir chs s = fold (listen_step L output_dir) chs s"

lemma cmd_listen_simps [simp]:
  "cmd_listen L out [] s = s"
  "cmd_listen L out (ch # chs) s = cmd_listen L out chs (listen_step L out ch s)"
  by (simp_all add: cmd_listen_def)

lemma cmd_listen_append: "cmd_listen L out (as @ bs) s = cmd_listen L out bs (cmd_listen L out as s)"
  by (simp add: cmd_listen_def)

section \<open>What a step of one connection touches\<close>

text \<open>Of the shared state a connection sees its transfer and the file of this transfer.\<close>

definition conn_view :: "'z cli_ctx \<Rightarrow> cli_host \<Rightarrow> cli_shared \<times> fdata option" where
  "conn_view x h = (shared_at x h, ch_fs h (sh_path (shared_at x h)))"

lemma cli_write_chunk_only:
  assumes "cli_write_chunk p cs i d out fs = (r, fs')"
  shows "\<forall>q. q \<noteq> p \<longrightarrow> fs' q = fs q" "fs p \<noteq> None \<Longrightarrow> fs' p \<noteq> None"
  using assms by (auto simp: cli_write_chunk_def Let_def split: if_splits option.splits)

lemma cli_write_chunk_local:
  assumes "cli_write_chunk p cs i d out fs = (r, fs')" "gs p = fs p"
  shows "\<exists>gs'. cli_write_chunk p cs i d out gs = (r, gs') \<and> gs' p = fs' p"
proof -
  have "file_at p gs = file_at p fs" using assms(2) by (simp add: file_at_def)
  then show ?thesis using assms by (auto simp: cli_write_chunk_def Let_def split: if_splits option.splits)
qed

lemma cli_step_touches:
  assumes "cli_step L x ch (pp, h) = Some (pp', h')" "cx_ref x < length (ch_shared h)"
  shows "length (ch_shared h') = length (ch_shared h)"
    and "\<forall>r. r \<noteq> cx_ref x \<longrightarrow> ch_shared h' ! r = ch_shared h ! r"
    and "sh_path (shared_at x h') = sh_path (shared_at x h)"
    and "sh_session (shared_at x h') = sh_session (shared_at x h)"
    and "\<forall>q. q \<noteq> sh_path (shared_at x h) \<longrightarrow> ch_fs h' q = ch_fs h q"
    and "ch_fs h (sh_path (shared_at x h)) \<noteq> None \<Longrightarrow> ch_fs h' (sh_path (shared_at x h)) \<noteq> None"
    and "ch_active h' = ch_active h \<or> ch_active h' = (ch_active h)(sh_session (shared_at x h) := None)"
  using assms
  by (cases ch; force simp: cli_step_frame_def cli_step_write_def cli_step_hash_def cli_step_join_def
        cli_step_verify_def cli_broken_def cli_count_chunk_def Let_def dest: cli_write_chunk_only
        split: if_splits cli_task.splits sum.splits prod.splits option.splits)+

lemma cli_step_local:
  assumes "cli_step L x ch (pp, h) = Some (pp', h')" "conn_view x g = conn_view x h"
    and "cx_ref x < length (ch_shared h)" "cx_ref x < length (ch_shared g)"
  shows "\<exists>g'. cli_step L x ch (pp, g) = Some (pp', g') \<and> conn_view x g' = conn_view x h'"
proof -
  have sh: "shared_at x g = shared_at x h" using assms(2) by (simp add: conn_view_def)
  have fs: "ch_fs g (sh_path (shared_at x h)) = ch_fs h (sh_path (shared_at x h))"
    using assms(2) sh by (simp add: conn_view_def)
  show ?thesis
  proof (cases ch)
    case (ChWrite k out)
    obtain i c e where t: "k < length (cp_tasks pp)" "cp_tasks pp ! k = TaskSealed i c e"
      using assms(1) ChWrite by (auto simp: cli_step_write_def split: if_splits cli_task.splits)
    show ?thesis
    proof (cases "open_chunk (cx_crypto x) (cx_zstd x) (cx_key x) (md_nonce_prefix (meta_at x h)) i c e")
      case (Inl a)
      with t ChWrite assms(1) have "h' = h" "pp' = pp\<lparr>cp_tasks := (cp_tasks pp)[k := TaskDone (Inl a)]\<rparr>"
        by (auto simp: cli_step_write_def Let_def)
      with Inl t ChWrite assms(2) show ?thesis by (simp add: cli_step_write_def Let_def sh)
    next
      case (Inr d)
      obtain r fs' where w: "cli_write_chunk (sh_path (shared_at x h)) (md_chunk_size (meta_at x h)) i d out (ch_fs h) = (r, fs')"
        by fastforce
      from cli_write_chunk_local [where gs = "ch_fs g", OF w fs] obtain gs' where
        "cli_write_chunk (sh_path (shared_at x h)) (md_chunk_size (meta_at x h)) i d out (ch_fs g) = (r, gs')"
        "gs' (sh_path (shared_at x h)) = fs' (sh_path (shared_at x h))" by blast
      with w Inr t ChWrite assms(1) show ?thesis by (auto simp: cli_step_write_def Let_def sh conn_view_def)
    qed
  qed (use assms(1,3,4) fs in \<open>auto simp: cli_step_frame_def cli_step_hash_def cli_step_join_def
        cli_step_verify_def cli_broken_def cli_count_chunk_def Let_def sh conn_view_def
        split: if_splits cli_task.splits sum.splits prod.splits option.splits\<close>)
qed

section \<open>The table of transfers\<close>

text \<open>Every name in the table, and every running connection, refers to a transfer with an existing file.\<close>

definition host_ok :: "cli_host \<Rightarrow> bool" where
  "host_ok h \<longleftrightarrow>
     (\<forall>i r. ch_active h i = Some r \<longrightarrow> r < length (ch_shared h) \<and> sh_session (ch_shared h ! r) = i)
     \<and> (\<forall>r < length (ch_shared h). ch_fs h (sh_path (ch_shared h ! r)) \<noteq> None)"

definition listen_inv :: "'z cli_listener \<Rightarrow> bool" where
  "listen_inv s \<longleftrightarrow> host_ok (ls_host s)
     \<and> (\<forall>x pp. LcPipe x pp \<in> set (ls_conns s) \<longrightarrow> cx_ref x < length (ch_shared (ls_host s)))"

lemma listen_invI:
  assumes "host_ok h" "length (ch_shared (ls_host s)) \<le> length (ch_shared h)" "listen_inv s"
    and "\<And>x pp. c = LcPipe x pp \<Longrightarrow> cx_ref x < length (ch_shared h)"
  shows "listen_inv (s\<lparr>ls_conns := (ls_conns s)[k := c], ls_host := h\<rparr>)"
proof -
  have "cx_ref x < length (ch_shared h)" if "LcPipe x pp \<in> set ((ls_conns s)[k := c])" for x pp
    using that assms(2-4) set_update_subset_insert [of "ls_conns s" k c]
    by (fastforce simp: listen_inv_def)
  with assms(1) show ?thesis by (simp add: listen_inv_def)
qed

lemma host_ok_step:
  assumes "cli_step L x ch (pp, h) = Some (pp', h')" "cx_ref x < length (ch_shared h)" "host_ok h"
  shows "host_ok h'"
proof -
  note T = cli_step_touches [OF assms(1,2)]
  have same: "sh_session (ch_shared h' ! r) = sh_session (ch_shared h ! r)"
      "sh_path (ch_shared h' ! r) = sh_path (ch_shared h ! r)" for r
    using T(2-4) by (cases "r = cx_ref x"; simp)+
  have "ch_fs h' q \<noteq> None" if "ch_fs h q \<noteq> None" for q
    using that T(5,6) by (cases "q = sh_path (shared_at x h)") auto
  moreover have "ch_active h' i = Some r \<Longrightarrow> ch_active h i = Some r" for i r
    using T(7) by (auto split: if_splits)
  ultimately show ?thesis using assms(3) unfolding host_ok_def same T(1) by blast
qed

lemma cli_accept_same: "cli_accept r c h = (a, c', h') \<Longrightarrow> h' = h \<and> (\<forall>r'. a = Inr r' \<longrightarrow> r' = r)"
  by (auto simp: cli_accept_def split: sum.splits prod.splits)

lemma cli_refuse_Inl: "cli_refuse m e c = (a, c') \<Longrightarrow> \<exists>e'. a = Inl e'"
  by (auto simp: cli_refuse_def split: prod.splits sum.splits)

lemma cli_join_same: "cli_join i c h = (a, c', h') \<Longrightarrow> h' = h \<and> (\<forall>r. a = Inr r \<longrightarrow> ch_active h i = Some r)"
  by (auto simp: cli_join_def dest!: cli_accept_same cli_refuse_Inl split: option.splits prod.splits)

text \<open>A connection that opens a transfer fails, leaving at most a file, or adds its transfer.\<close>

definition keeps_files :: "filesystem \<Rightarrow> filesystem \<Rightarrow> bool" where
  "keeps_files fs gs \<longleftrightarrow> (\<forall>q. fs q \<noteq> None \<longrightarrow> gs q \<noteq> None)"

lemma keeps_files_simps [simp]: "keeps_files fs fs" "keeps_files fs (fs(p \<mapsto> f))" "keeps_files fs (fs(p \<mapsto> f, p \<mapsto> g))"
  by (auto simp: keeps_files_def)

lemma cli_open_result:
  assumes "cli_open E out payload c h = (a, c', h')"
  obtains (fails) e db fs where "a = Inl e" "h' = h\<lparr>ch_db := db, ch_fs := fs\<rparr>" "keeps_files (ch_fs h) fs"
  | (opens) db fs sh where "keeps_files (ch_fs h) fs" "fs (sh_path sh) \<noteq> None" "\<forall>r. a = Inr r \<longrightarrow> r = length (ch_shared h)"
      "h' = h\<lparr>ch_db := db, ch_fs := fs, ch_shared := ch_shared h @ [sh],
        ch_active := (ch_active h)(sh_session sh \<mapsto> length (ch_shared h))\<rparr>"
proof (cases "mc_dec (ce_codec E) payload")
  case None
  with assms have "a = Inl ''Failed to parse TransferMetadata''" "h' = h\<lparr>ch_db := ch_db h, ch_fs := ch_fs h\<rparr>"
    by (simp_all add: cli_open_def)
  then show thesis using fails [where db = "ch_db h" and fs = "ch_fs h"] by simp
next
  case (Some md)
  define p where "p = path_join out (path_of (md_file_name md))"
  define f where "f = file_at p (ch_fs h)"
  define f' where "f' = set_len (unat (md_file_size md)) f"
  note op = assms [unfolded cli_open_def Some option.case Let_def, folded p_def, folded f_def]
  consider (early) e where "a = Inl e" "h' = h"
    | (large) e where "a = Inl e" "h' = h\<lparr>ch_fs := (ch_fs h)(p \<mapsto> f)\<rparr>"
    | (noid) e where "a = Inl e" "h' = h\<lparr>ch_fs := (ch_fs h)(p \<mapsto> f, p \<mapsto> f')\<rparr>"
    | (badsize) e db where "a = Inl e" "h' = h\<lparr>ch_fs := (ch_fs h)(p \<mapsto> f, p \<mapsto> f'), ch_db := db\<rparr>"
    | (made) db n where "cli_accept (length (ch_shared h)) c (h\<lparr>ch_fs := (ch_fs h)(p \<mapsto> f, p \<mapsto> f'), ch_db := db,
         ch_shared := ch_shared h @ [\<lparr>sh_path = p, sh_meta = md, sh_session = md_session_id md, sh_received = n\<rparr>],
         ch_active := (ch_active h)(md_session_id md \<mapsto> length (ch_shared h))\<rparr>) = (a, c', h')"
    using op by (fastforce simp: f'_def split: if_splits sum.splits prod.splits option.splits)
  then show thesis
  proof cases
    case early
    then show thesis using fails [where e = e and db = "ch_db h" and fs = "ch_fs h"] by simp
  next
    case large
    then show thesis using fails [where e = e and db = "ch_db h" and fs = "(ch_fs h)(p \<mapsto> f)"] by simp
  next
    case noid
    then show thesis using fails [where e = e and db = "ch_db h" and fs = "(ch_fs h)(p \<mapsto> f, p \<mapsto> f')"] by simp
  next
    case badsize
    then show thesis using fails [where e = e and db = db and fs = "(ch_fs h)(p \<mapsto> f, p \<mapsto> f')"] by simp
  next
    case made
    from cli_accept_same [OF this] show thesis
      using opens [where fs = "(ch_fs h)(p \<mapsto> f, p \<mapsto> f')" and sh = "\<lparr>sh_path = p, sh_meta = md, sh_session = md_session_id md, sh_received = n\<rparr>" and db = db]
      by simp
  qed
qed

lemma host_ok_files: "host_ok h \<Longrightarrow> keeps_files (ch_fs h) fs \<Longrightarrow> host_ok (h\<lparr>ch_db := db, ch_fs := fs\<rparr>)"
  by (simp add: host_ok_def keeps_files_def)

lemma host_ok_opens:
  assumes "host_ok h" "keeps_files (ch_fs h) fs" "fs (sh_path sh) \<noteq> None"
  shows "host_ok (h\<lparr>ch_db := db, ch_fs := fs, ch_shared := ch_shared h @ [sh],
    ch_active := (ch_active h)(sh_session sh \<mapsto> length (ch_shared h))\<rparr>)"
proof -
  have "fs (sh_path ((ch_shared h @ [sh]) ! r)) \<noteq> None" if "r < Suc (length (ch_shared h))" for r
    using assms that by (cases "r = length (ch_shared h)") (auto simp: host_ok_def keeps_files_def nth_append)
  moreover have "r < Suc (length (ch_shared h)) \<and> sh_session ((ch_shared h @ [sh]) ! r) = i"
    if "((ch_active h)(sh_session sh \<mapsto> length (ch_shared h))) i = Some r" for i r
    using assms(1) that by (cases "i = sh_session sh") (fastforce simp: host_ok_def nth_append)+
  ultimately show ?thesis by (simp add: host_ok_def)
qed

definition opened :: "cli_host \<Rightarrow> (string + 'b) \<Rightarrow> ('b \<Rightarrow> nat option) \<Rightarrow> cli_host \<Rightarrow> bool" where
  "opened h a f h' \<longleftrightarrow> host_ok h' \<and> length (ch_shared h) \<le> length (ch_shared h')
     \<and> (\<forall>b r. a = Inr b \<longrightarrow> f b = Some r \<longrightarrow> r < length (ch_shared h'))"

lemma cli_open_host:
  assumes "cli_open E out payload c h = (a, c', h')" "host_ok h"
  shows "opened h a Some h'"
  using assms(1)
proof (cases rule: cli_open_result)
  case fails
  then show ?thesis using host_ok_files [OF assms(2)] by (simp add: opened_def)
next
  case opens
  then show ?thesis using host_ok_opens [OF assms(2)] by (simp add: opened_def)
qed

lemma cli_join_host:
  assumes "cli_join i c h = (a, c', h')" "host_ok h"
  shows "opened h a Some h'"
  using cli_join_same [OF assms(1)] assms(2) by (auto simp: opened_def host_ok_def)

lemma cli_recv_begin_host:
  assumes "cli_recv_begin E out c h = (a, c', h')" "host_ok h"
  shows "opened h a (map_option snd) h'"
proof -
  have same: "opened g a (map_option snd) g" if "host_ok g" "\<forall>b. a = Inr b \<longrightarrow> b = None"
    for g and a :: "string + (byte list \<times> nat) option"
    using that by (auto simp: opened_def)
  have bind: "opened h (res_bind r (\<lambda>i. Inr (Some (key, i)))) (map_option snd) h'" if "opened h r Some h'"
    for r and key :: "byte list" and h'
    using that by (cases r) (auto simp: opened_def)
  show ?thesis
    using assms unfolding cli_recv_begin_def
    by (auto simp: Let_def dest!: cli_refuse_Inl intro!: same intro: bind cli_open_host cli_join_host
        split: sum.splits prod.splits if_splits)
qed

lemma listen_inv_step: "listen_inv s \<Longrightarrow> listen_inv (listen_step L out ch s)"
proof -
  assume inv: "listen_inv s"
  have starts: "listen_inv (listen_begin out k s)" for k
  proof (cases "ls_conns s ! k")
    case (LcAccepted E c)
    obtain a c' h' where r: "cli_recv_begin E out c (ls_host s) = (a, c', h')" by (metis prod_cases3)
    from cli_recv_begin_host [OF this] inv have h: "host_ok h'" "length (ch_shared (ls_host s)) \<le> length (ch_shared h')"
        "\<forall>key r. a = Inr (Some (key, r)) \<longrightarrow> r < length (ch_shared h')"
      by (fastforce simp: listen_inv_def opened_def)+
    show ?thesis
      unfolding listen_begin_def LcAccepted listen_conn.case r prod.case
      using h by (auto split: sum.splits option.splits intro!: listen_invI [OF _ _ inv])
  qed (simp_all add: listen_begin_def inv)
  have pipe: "listen_inv (listen_pipe L k c s)" if k: "k < length (ls_conns s)" for k c
  proof (cases "ls_conns s ! k")
    case (LcPipe x pp)
    then have x: "cx_ref x < length (ch_shared (ls_host s))" "host_ok (ls_host s)"
      using inv k nth_mem [OF k] by (auto simp: listen_inv_def)
    show ?thesis
    proof (cases "cli_step L x c (pp, ls_host s)")
      case None
      with LcPipe inv show ?thesis by (simp add: listen_pipe_def)
    next
      case (Some a)
      then obtain pp' h' where st: "cli_step L x c (pp, ls_host s) = Some (pp', h')" by (cases a) auto
      with host_ok_step [OF st x] cli_step_touches(1) [OF st x(1)] x(1) LcPipe
      show ?thesis by (auto simp: listen_pipe_def intro!: listen_invI [OF _ _ inv])
    qed
  qed (simp_all add: listen_pipe_def inv)
  show ?thesis
    using inv starts pipe by (cases ch) (auto simp: listen_inv_def)
qed

lemma listen_inv_run: "listen_inv s \<Longrightarrow> listen_inv (cmd_listen L out chs s)"
  by (induction chs arbitrary: s) (auto simp del: listen_step.simps intro: listen_inv_step)

lemma listen_inv_start: "listen_inv (listen_start db fs)"
  by (simp add: listen_inv_def listen_start_def host_ok_def)

text \<open>
  Whatever connects to the listener and however the tasks of its connections interleave,
  failing ones included: every session in the table of active transfers names a transfer with
  this session id, every running connection refers to a transfer, and the file of every
  transfer exists. So no look-up of the pipeline can miss.
\<close>

theorem listen_table_valid:
  assumes "cmd_listen L out chs (listen_start db fs) = s"
  shows "(\<forall>i r. ch_active (ls_host s) i = Some r \<longrightarrow>
        r < length (ch_shared (ls_host s)) \<and> sh_session (ch_shared (ls_host s) ! r) = i)
    \<and> (\<forall>x pp. LcPipe x pp \<in> set (ls_conns s) \<longrightarrow> cx_ref x < length (ch_shared (ls_host s)))
    \<and> (\<forall>r < length (ch_shared (ls_host s)). ch_fs (ls_host s) (sh_path (ch_shared (ls_host s) ! r)) \<noteq> None)"
proof -
  have "listen_inv s" using listen_inv_run [OF listen_inv_start] assms by blast
  then show ?thesis unfolding listen_inv_def host_ok_def by blast
qed

end
