(* ===== verification/Cli_Concurrent.thy ===== *)
theory Cli_Concurrent
  imports Cli_Listen Cli_Faults
begin

text \<open>
  Transfers that run at the same time in the listener of the command line tool: those with
  different targets do not influence one another, however their steps interleave; those with
  the same target overwrite one another and are both reported complete.
\<close>

section \<open>One connection among others\<close>

text \<open>The choices an interleaving makes for connection \<open>k\<close>.\<close>

fun choices_of :: "nat \<Rightarrow> 'z listen_choice list \<Rightarrow> cli_choice list" where
  "choices_of k [] = []"
| "choices_of k (LnPipe j c # chs) = (if j = k then c # choices_of k chs else choices_of k chs)"
| "choices_of k (_ # chs) = choices_of k chs"

fun pipe_choice :: "'z listen_choice \<Rightarrow> bool" where
  "pipe_choice (LnPipe k c) = True"
| "pipe_choice _ = False"

text \<open>The steps connection \<open>k\<close> makes: its choices that are possible when they are taken.\<close>

definition listen_can :: "'h hash_lib \<Rightarrow> nat \<Rightarrow> cli_choice \<Rightarrow> 'z cli_listener \<Rightarrow> bool" where
  "listen_can L k c s \<longleftrightarrow> ls_ended s = None \<and> k < length (ls_conns s)
     \<and> (case ls_conns s ! k of LcPipe x pp \<Rightarrow> cli_step L x c (pp, ls_host s) \<noteq> None | _ \<Rightarrow> False)"

fun listen_moves :: "'h hash_lib \<Rightarrow> path \<Rightarrow> nat \<Rightarrow> 'z listen_choice list \<Rightarrow> 'z cli_listener \<Rightarrow> nat" where
  "listen_moves L out k [] s = 0"
| "listen_moves L out k (ch # chs) s =
     (case ch of LnPipe j c \<Rightarrow> of_bool (j = k \<and> listen_can L k c s) | _ \<Rightarrow> 0)
     + listen_moves L out k chs (listen_step L out ch s)"

text \<open>No other connection works on the transfer, or on the file, of \<open>x\<close>.\<close>

definition alone :: "nat \<Rightarrow> 'z cli_ctx \<Rightarrow> 'z cli_listener \<Rightarrow> bool" where
  "alone k x s \<longleftrightarrow> (\<forall>j y pp. j < length (ls_conns s) \<and> j \<noteq> k \<and> ls_conns s ! j = LcPipe y pp \<longrightarrow>
     cx_ref y \<noteq> cx_ref x \<and> sh_path (shared_at y (ls_host s)) \<noteq> sh_path (shared_at x (ls_host s)))"

lemma listen_pipe_eq:
  assumes "ls_conns s ! j = LcPipe y pp"
  shows "listen_pipe L j c s = (case cli_step L y c (pp, ls_host s) of None \<Rightarrow> s
    | Some (pp, h) \<Rightarrow> s\<lparr>ls_conns := (ls_conns s)[j := LcPipe y pp], ls_host := h\<rparr>)"
  by (simp add: listen_pipe_def assms split: option.splits prod.splits)

lemma listen_pipe_other:
  assumes "listen_inv s" "j < length (ls_conns s)" "j \<noteq> k" "alone k x s"
    and "k < length (ls_conns s)" "cx_ref x < length (ch_shared (ls_host s))"
  shows "ls_conns (listen_pipe L j c s) ! k = ls_conns s ! k"
    and "conn_view x (ls_host (listen_pipe L j c s)) = conn_view x (ls_host s)"
    and "length (ch_shared (ls_host (listen_pipe L j c s))) = length (ch_shared (ls_host s))"
proof -
  have "ls_conns (listen_pipe L j c s) ! k = ls_conns s ! k
    \<and> conn_view x (ls_host (listen_pipe L j c s)) = conn_view x (ls_host s)
    \<and> length (ch_shared (ls_host (listen_pipe L j c s))) = length (ch_shared (ls_host s))"
  proof (cases "\<exists>y pp. ls_conns s ! j = LcPipe y pp")
    case True
    then obtain y pp where y: "ls_conns s ! j = LcPipe y pp" by blast
    with assms(1,2) nth_mem [OF assms(2)] have ref: "cx_ref y < length (ch_shared (ls_host s))"
      by (auto simp: listen_inv_def)
    have sep: "cx_ref y \<noteq> cx_ref x" "sh_path (shared_at y (ls_host s)) \<noteq> sh_path (shared_at x (ls_host s))"
      using assms(2-4) y by (auto simp: alone_def)
    show ?thesis
    proof (cases "cli_step L y c (pp, ls_host s)")
      case None
      then show ?thesis by (simp add: listen_pipe_eq [OF y])
    next
      case (Some a)
      then obtain pp' h' where st: "cli_step L y c (pp, ls_host s) = Some (pp', h')" by (cases a) auto
      note T = cli_step_touches [OF st ref]
      have sh: "shared_at x h' = shared_at x (ls_host s)" using T(2) sep(1) by metis
      then have "conn_view x h' = conn_view x (ls_host s)"
        using T(5) sep(2) by (simp add: conn_view_def)
      with T(1) show ?thesis using assms(3) by (simp add: listen_pipe_eq [OF y] st)
    qed
  qed (auto simp: listen_pipe_def split: listen_conn.splits)
  then show "ls_conns (listen_pipe L j c s) ! k = ls_conns s ! k"
    "conn_view x (ls_host (listen_pipe L j c s)) = conn_view x (ls_host s)"
    "length (ch_shared (ls_host (listen_pipe L j c s))) = length (ch_shared (ls_host s))" by blast+
qed

text \<open>A step changes neither the transfers the connections refer to nor their files' names.\<close>

lemma listen_pipe_paths:
  assumes "listen_inv s" "j < length (ls_conns s)"
  shows "length (ls_conns (listen_pipe L j c s)) = length (ls_conns s)"
    and "ls_conns (listen_pipe L j c s) ! i = LcPipe y pp' \<Longrightarrow> \<exists>pp. ls_conns s ! i = LcPipe y pp"
    and "sh_path (ch_shared (ls_host (listen_pipe L j c s)) ! r) = sh_path (ch_shared (ls_host s) ! r)"
    and "ls_ended (listen_pipe L j c s) = ls_ended s"
proof -
  have "length (ls_conns (listen_pipe L j c s)) = length (ls_conns s)
    \<and> (\<forall>i y pp'. ls_conns (listen_pipe L j c s) ! i = LcPipe y pp' \<longrightarrow> (\<exists>pp. ls_conns s ! i = LcPipe y pp))
    \<and> (\<forall>r. sh_path (ch_shared (ls_host (listen_pipe L j c s)) ! r) = sh_path (ch_shared (ls_host s) ! r))
    \<and> ls_ended (listen_pipe L j c s) = ls_ended s"
  proof (cases "\<exists>y pp. ls_conns s ! j = LcPipe y pp")
    case True
    then obtain y pp where y: "ls_conns s ! j = LcPipe y pp" by blast
    with assms nth_mem [OF assms(2)] have ref: "cx_ref y < length (ch_shared (ls_host s))"
      by (auto simp: listen_inv_def)
    show ?thesis
    proof (cases "cli_step L y c (pp, ls_host s)")
      case None
      then show ?thesis by (simp add: listen_pipe_eq [OF y])
    next
      case (Some a)
      then obtain pp' h' where st: "cli_step L y c (pp, ls_host s) = Some (pp', h')" by (cases a) auto
      have "sh_path (ch_shared h' ! r) = sh_path (ch_shared (ls_host s) ! r)" for r
        using cli_step_touches(2,3) [OF st ref] by (cases "r = cx_ref y") auto
      moreover have "\<exists>pp. ls_conns s ! i = LcPipe z pp"
        if "(ls_conns s)[j := LcPipe y pp'] ! i = LcPipe z pp''" for i z pp''
        using that y assms(2) by (cases "i = j") auto
      ultimately show ?thesis by (simp add: listen_pipe_eq [OF y] st)
    qed
  qed (auto simp: listen_pipe_def split: listen_conn.splits)
  then show "length (ls_conns (listen_pipe L j c s)) = length (ls_conns s)"
    "ls_conns (listen_pipe L j c s) ! i = LcPipe y pp' \<Longrightarrow> \<exists>pp. ls_conns s ! i = LcPipe y pp"
    "sh_path (ch_shared (ls_host (listen_pipe L j c s)) ! r) = sh_path (ch_shared (ls_host s) ! r)"
    "ls_ended (listen_pipe L j c s) = ls_ended s" by blast+
qed

lemma alone_step:
  assumes "listen_inv s" "j < length (ls_conns s)" "alone k x s"
  shows "alone k x (listen_pipe L j c s)"
  using assms(3) listen_pipe_paths [OF assms(1,2), where L = L and c = c]
  unfolding alone_def by metis

lemma listen_step_pipe:
  "ls_ended s = None \<Longrightarrow> listen_step L out (LnPipe j c) s = (if j < length (ls_conns s) then listen_pipe L j c s else s)"
  by simp

text \<open>The state a connection sees and leaves is that of its own run.\<close>

lemma listen_isolated_run:
  assumes "\<forall>ch \<in> set chs. pipe_choice ch" "ls_ended s = None" "listen_inv s"
    and "k < length (ls_conns s)" "ls_conns s ! k = LcPipe x pp" "alone k x s"
    and "conn_view x g = conn_view x (ls_host s)" "cx_ref x < length (ch_shared g)"
    and "cli_run L x (choices_of k chs) (pp, g) = (pp', g')"
  shows "ls_conns (cmd_listen L out chs s) ! k = LcPipe x pp'
    \<and> conn_view x (ls_host (cmd_listen L out chs s)) = conn_view x g'
    \<and> cx_ref x < length (ch_shared (ls_host (cmd_listen L out chs s))) \<and> cx_ref x < length (ch_shared g')
    \<and> listen_moves L out k chs s = cli_moves L x (choices_of k chs) (pp, g)"
  using assms
proof (induction chs arbitrary: s pp g)
  case Nil
  then have "cx_ref x < length (ch_shared (ls_host s))"
    using nth_mem [OF Nil.prems(4)] by (auto simp: listen_inv_def)
  with Nil show ?case by simp
next
  case (Cons ch chs)
  obtain j c where ch: "ch = LnPipe j c" using Cons.prems(1) by (cases ch) auto
  have ref: "cx_ref x < length (ch_shared (ls_host s))"
    using nth_mem [OF Cons.prems(4)] Cons.prems(3,5) by (auto simp: listen_inv_def)
  show ?case
  proof (cases "j < length (ls_conns s)")
    case False
    with Cons.prems(4) have "j \<noteq> k" by auto
    with False Cons.IH [of s pp g] Cons.prems ch show ?thesis by (simp add: listen_can_def)
  next
    case True
    let ?s = "listen_pipe L j c s"
    have inv: "listen_inv ?s"
      using listen_inv_step [OF Cons.prems(3), of L out ch] True Cons.prems(2) ch by simp
    note P = listen_pipe_paths [OF Cons.prems(3) True, where L = L and c = c]
    have al: "alone k x ?s" using alone_step [OF Cons.prems(3) True Cons.prems(6)] .
    have run: "cmd_listen L out (ch # chs) s = cmd_listen L out chs ?s"
      "listen_moves L out k (ch # chs) s = of_bool (j = k \<and> listen_can L k c s) + listen_moves L out k chs ?s"
      using True Cons.prems(2) ch by simp_all
    have can: "listen_can L k c s \<longleftrightarrow> cli_step L x c (pp, ls_host s) \<noteq> None"
      using Cons.prems(2,4,5) by (simp add: listen_can_def)
    have k: "k < length (ls_conns ?s)" using Cons.prems(4) P(1) by simp
    have ended: "ls_ended ?s = None" using P(4) Cons.prems(2) by simp
    have rest: "\<forall>ch \<in> set chs. pipe_choice ch" using Cons.prems(1) by simp
    show ?thesis
    proof (cases "j = k")
      case False
      note O = listen_pipe_other [OF Cons.prems(3) True False Cons.prems(6,4) ref, where L = L and c = c]
      have "ls_conns ?s ! k = LcPipe x pp" "conn_view x g = conn_view x (ls_host ?s)"
        using O(1,2) Cons.prems(5,7) by simp_all
      from Cons.IH [OF rest ended inv k this(1) al this(2) Cons.prems(8)] Cons.prems(9) ch False
      show ?thesis unfolding run by simp
    next
      case same: True
      show ?thesis
      proof (cases "cli_step L x c (pp, g)")
        case None
        have "cli_step L x c (pp, ls_host s) = None"
        proof (rule ccontr)
          assume "cli_step L x c (pp, ls_host s) \<noteq> None"
          then obtain a b where "cli_step L x c (pp, ls_host s) = Some (a, b)" by auto
          from cli_step_local [OF this Cons.prems(7) ref Cons.prems(8)] None show False by auto
        qed
        then have idle: "?s = s" using same Cons.prems(5) by (simp add: listen_pipe_def)
        have "\<not> listen_can L k c s" using can \<open>cli_step L x c (pp, ls_host s) = None\<close> by simp
        with Cons.IH [of s pp g] Cons.prems ch same None rest idle show ?thesis unfolding run by simp
      next
        case (Some a)
        then obtain pp1 g1 where g1: "cli_step L x c (pp, g) = Some (pp1, g1)" by (cases a) auto
        from cli_step_local [OF this Cons.prems(7) [symmetric] Cons.prems(8) ref]
        obtain h1 where h1: "cli_step L x c (pp, ls_host s) = Some (pp1, h1)" "conn_view x h1 = conn_view x g1" by blast
        have s: "ls_conns ?s ! k = LcPipe x pp1" "ls_host ?s = h1"
          using same Cons.prems(4,5) h1(1) by (simp_all add: listen_pipe_def)
        have "cx_ref x < length (ch_shared g1)" using cli_step_touches(1) [OF g1 Cons.prems(8)] Cons.prems(8) by simp
        from Cons.IH [OF rest ended inv k s(1) al _ this] h1(2) s(2) Cons.prems(9) ch same g1 can h1(1)
        show ?thesis unfolding run by simp
      qed
    qed
  qed
qed

section \<open>Simultaneous transfers\<close>

text \<open>
  C23. Isolation: while connections only run, a connection whose transfer and whose file no
  other connection works on does exactly what it would do alone. Whatever the others do in
  between, failing ones included, its pipeline, the counter of its transfer and its file are
  those of its own steps.
\<close>

theorem listen_isolates:
  assumes "listen_inv s" "ls_ended s = None"
    and "\<forall>ch \<in> set chs. pipe_choice ch" "cmd_listen L out chs s = s'"
    and "k < length (ls_conns s)" "ls_conns s ! k = LcPipe x pp" "alone k x s"
    and "cli_run L x (choices_of k chs) (pp, ls_host s) = (pp', h')"
  shows "ls_conns s' ! k = LcPipe x pp' \<and> shared_at x (ls_host s') = shared_at x h'
    \<and> ch_fs (ls_host s') (sh_path (shared_at x (ls_host s'))) = ch_fs h' (sh_path (shared_at x h'))"
proof -
  have "cx_ref x < length (ch_shared (ls_host s))"
    using nth_mem [OF assms(5)] assms(1,6) by (auto simp: listen_inv_def)
  from listen_isolated_run [where out = out, OF assms(3,2,1) assms(5-7) refl this assms(8)] assms(4)
  have "ls_conns s' ! k = LcPipe x pp'" "conn_view x (ls_host s') = conn_view x h'" by simp_all
  then show ?thesis unfolding conn_view_def prod.inject by blast
qed

text \<open>Several honest transfers, each to a file of its own.\<close>

definition fresh_transfer ::
  "'h hash_lib \<Rightarrow> 'z cli_ctx \<Rightarrow> cli_honest \<Rightarrow> cli_sys \<Rightarrow> bool" where
  "fresh_transfer L x H s \<longleftrightarrow> honest L x H \<and> cli_started x H s \<and> hn_first H = 0 \<and> hn_block H = unat (hn_cs H)"

lemma choices_of_append [simp]: "choices_of k (as @ bs) = choices_of k as @ choices_of k bs"
  by (induction k as rule: choices_of.induct) auto

lemma choices_of_map [simp]: "choices_of k (map (LnPipe j) cs) = (if j = k then cs else [])"
  by (induction cs) auto

lemma choices_of_all: "choices_of k (concat (map (\<lambda>j. map (LnPipe j) (cs j)) [0..<n])) = (if k < n then cs k else [])"
  by (induction n) (auto simp: less_Suc_eq)

lemma cli_run_append: "cli_run L x (as @ bs) s = cli_run L x bs (cli_run L x as s)"
  by (induction as arbitrary: s) auto

text \<open>What an interleaving leaves of one of the connections.\<close>

lemma listen_fresh_conn:
  assumes "listen_inv s" "ls_ended s = None" "k < length (ls_conns s)"
    and "ls_conns s ! k = LcPipe x pp0" "fresh_transfer L x H (pp0, ls_host s)" "alone k x s"
    and "\<forall>ch \<in> set chs. pipe_choice ch"
    and "\<forall>ch \<in> set (choices_of k chs). plain_choice ch" "length (filter is_frame (choices_of k chs)) \<le> hn_n H"
  obtains pp h js where "cli_run L x (choices_of k chs) (pp0, ls_host s) = (pp, h)"
    "ls_conns (cmd_listen L out chs s) ! k = LcPipe x pp" "conn_view x (ls_host (cmd_listen L out chs s)) = conn_view x h"
    "cx_ref x < length (ch_shared (ls_host (cmd_listen L out chs s)))" "cx_ref x < length (ch_shared h)"
    "cli_inv L x H js (pp, h)" "listen_moves L out k chs s \<le> 4 * hn_n H + 1"
proof -
  have H: "honest L x H" and st: "cli_started x H (pp0, ls_host s)" and first: "hn_first H = 0"
    using assms(5) by (simp_all add: fresh_transfer_def)
  have ref: "cx_ref x < length (ch_shared (ls_host s))" using st by (simp add: cli_started_def)
  obtain pp h where run: "cli_run L x (choices_of k chs) (pp0, ls_host s) = (pp, h)"
    by (cases "cli_run L x (choices_of k chs) (pp0, ls_host s)")
  from cli_run_inv [OF H cli_inv_start [OF H st] assms(8)] assms(9) st first run
  obtain js where inv: "cli_inv L x H js (pp, h)"
    and "cli_moves L x (choices_of k chs) (pp0, ls_host s) + cli_progress (pp0, ls_host s) = cli_progress (pp, h)"
    by (auto simp: cli_started_def)
  with cli_progress_bound [OF inv] first
  have "cli_moves L x (choices_of k chs) (pp0, ls_host s) \<le> 4 * hn_n H + 1" by simp
  with listen_isolated_run [where out = out, OF assms(7,2,1,3,4,6) refl ref run] run inv show thesis
    by (intro that [OF run]) simp_all
qed

text \<open>From what it leaves the connection can be brought to its end, and ends well.\<close>

lemma listen_fresh_end:
  assumes "fresh_transfer L x H (pp0, h0)" "cli_inv L x H js (pp, h)"
  obtains cs pp' h' where "\<forall>ch \<in> set cs. plain_choice ch"
    "length (cp_tasks pp) + length (filter is_frame cs) \<le> hn_n H"
    "cli_run L x cs (pp, h) = (pp', h')" "cp_phase pp' = PhEnded (Inr ())"
    "sh_path (shared_at x h') = hn_path H" "ch_fs h' (hn_path H) = Some (hn_src H)"
proof -
  have H: "honest L x H" and fresh: "hn_first H = 0" "hn_block H = unat (hn_cs H)"
    using assms(1) by (simp_all add: fresh_transfer_def)
  from cli_can_end [OF H assms(2)] fresh(1) obtain cs r where cs: "\<forall>ch \<in> set cs. plain_choice ch"
    "length (cp_tasks pp) + length (filter is_frame cs) \<le> hn_n H" "cp_phase (fst (cli_run L x cs (pp, h))) = PhEnded r"
    by auto
  obtain pp' h' where run: "cli_run L x cs (pp, h) = (pp', h')" by (cases "cli_run L x cs (pp, h)")
  from cli_run_inv [OF H assms(2) cs(1)] cs(2) fresh(1) run obtain js' where inv: "cli_inv L x H js' (pp', h')" by auto
  have "cp_phase pp' = PhEnded r" using cs(3) run by simp
  from cli_ended [OF H inv this] fresh stored_all [OF H] this
  have "cp_phase pp' = PhEnded (Inr ())" "ch_fs h' (hn_path H) = Some (hn_src H)" by auto
  with that [OF cs(1,2) run] inv show thesis by (simp add: cli_inv_def Let_def)
qed

lemma listen_fresh_now:
  assumes "listen_inv s" "ls_ended s = None" "k < length (ls_conns s)"
    and "ls_conns s ! k = LcPipe x pp0" "fresh_transfer L x H (pp0, ls_host s)" "alone k x s"
    and "\<forall>ch \<in> set chs. pipe_choice ch"
    and "\<forall>ch \<in> set (choices_of k chs). plain_choice ch" "length (filter is_frame (choices_of k chs)) \<le> hn_n H"
    and "cmd_listen L out chs s = s'"
  shows "\<exists>pp. ls_conns s' ! k = LcPipe x pp
      \<and> (\<forall>r. cp_phase pp = PhEnded r \<longrightarrow> r = Inr () \<and> ch_fs (ls_host s') (hn_path H) = Some (hn_src H)
          \<and> (\<exists>js. mset js = mset [0..<hn_n H] \<and> cn_out (cp_conn pp)
              = hn_out H @ cli_acks js @ send_tagged (TAG_COMPLETE, md_checksum (hn_md H))))
      \<and> ((\<forall>r. cp_phase pp \<noteq> PhEnded r) \<longrightarrow> (\<exists>ch. plain_choice ch
          \<and> (is_frame ch \<longrightarrow> length (cp_tasks pp) < hn_n H) \<and> cli_step L x ch (pp, ls_host s') \<noteq> None))
      \<and> listen_moves L out k chs s \<le> 4 * hn_n H + 1"
proof -
  have H: "honest L x H" and st: "cli_started x H (pp0, ls_host s)"
    and fresh: "hn_first H = 0" "hn_block H = unat (hn_cs H)" using assms(5) by (simp_all add: fresh_transfer_def)
  obtain pp h js where run: "cli_run L x (choices_of k chs) (pp0, ls_host s) = (pp, h)"
    and iso: "ls_conns s' ! k = LcPipe x pp" "conn_view x (ls_host s') = conn_view x h"
      "cx_ref x < length (ch_shared (ls_host s'))" "cx_ref x < length (ch_shared h)"
    and inv: "cli_inv L x H js (pp, h)" and moves: "listen_moves L out k chs s \<le> 4 * hn_n H + 1"
    by (rule listen_fresh_conn [OF assms(1-9), where out = out]) (simp add: assms(10))
  have "sh_path (shared_at x h) = hn_path H" using inv by (simp add: cli_inv_def Let_def)
  then have stored: "ch_fs (ls_host s') (hn_path H) = ch_fs h (hn_path H)"
    using iso(2) unfolding conn_view_def by (metis prod.inject)
  have "\<exists>ch. plain_choice ch \<and> (is_frame ch \<longrightarrow> length (cp_tasks pp) < hn_n H)
      \<and> cli_step L x ch (pp, ls_host s') \<noteq> None" if running: "\<forall>r. cp_phase pp \<noteq> PhEnded r"
  proof -
    obtain ch a b where ch: "plain_choice ch" "is_frame ch \<longrightarrow> length (cp_tasks pp) < hn_n H"
        "cli_step L x ch (pp, h) = Some (a, b)"
      using cli_not_stuck [OF inv H running] fresh(1) by auto
    from cli_step_local [OF ch(3) iso(2,4,3)] ch(1,2) show ?thesis by blast
  qed
  moreover have "r = Inr () \<and> ch_fs h (hn_path H) = Some (hn_src H) \<and> (\<exists>js. mset js = mset [0..<hn_n H]
      \<and> cn_out (cp_conn pp) = hn_out H @ cli_acks js @ send_tagged (TAG_COMPLETE, md_checksum (hn_md H)))"
    if "cp_phase pp = PhEnded r" for r
    using cli_recv_ended [OF H st fresh assms(8,9) run that] .
  ultimately show ?thesis using iso(1) moves unfolding stored by blast
qed

text \<open>What a connection still needs is a list of its own choices, whatever the others do meanwhile.\<close>

lemma listen_fresh_later:
  assumes "listen_inv s" "ls_ended s = None" "k < length (ls_conns s)"
    and "ls_conns s ! k = LcPipe x pp0" "fresh_transfer L x H (pp0, ls_host s)" "alone k x s"
    and "\<forall>ch \<in> set chs. pipe_choice ch"
    and "\<forall>ch \<in> set (choices_of k chs). plain_choice ch" "length (filter is_frame (choices_of k chs)) \<le> hn_n H"
    and "cmd_listen L out chs s = s'"
  shows "\<exists>cs pp. (\<forall>ch \<in> set cs. plain_choice ch) \<and> ls_conns s' ! k = LcPipe x pp
    \<and> length (cp_tasks pp) + length (filter is_frame cs) \<le> hn_n H
    \<and> (\<forall>more. (\<forall>ch \<in> set more. pipe_choice ch) \<and> choices_of k more = cs \<longrightarrow>
        (\<exists>pp'. ls_conns (cmd_listen L out more s') ! k = LcPipe x pp' \<and> cp_phase pp' = PhEnded (Inr ())
          \<and> ch_fs (ls_host (cmd_listen L out more s')) (hn_path H) = Some (hn_src H)))"
proof -
  have st: "cx_ref x < length (ch_shared (ls_host s))"
    using assms(5) by (simp add: fresh_transfer_def cli_started_def)
  obtain pp h js where run: "cli_run L x (choices_of k chs) (pp0, ls_host s) = (pp, h)"
    and pp: "ls_conns s' ! k = LcPipe x pp" and inv: "cli_inv L x H js (pp, h)"
    by (rule listen_fresh_conn [OF assms(1-9), where out = out]) (simp add: assms(10))
  obtain cs pp' h' where cs: "\<forall>ch \<in> set cs. plain_choice ch"
    "length (cp_tasks pp) + length (filter is_frame cs) \<le> hn_n H"
    and run': "cli_run L x cs (pp, h) = (pp', h')" "cp_phase pp' = PhEnded (Inr ())"
    and ended: "sh_path (shared_at x h') = hn_path H" "ch_fs h' (hn_path H) = Some (hn_src H)"
    by (rule listen_fresh_end [OF assms(5) inv])
  have "\<exists>pp'. ls_conns (cmd_listen L out more s') ! k = LcPipe x pp' \<and> cp_phase pp' = PhEnded (Inr ())
      \<and> ch_fs (ls_host (cmd_listen L out more s')) (hn_path H) = Some (hn_src H)"
    if more: "\<forall>ch \<in> set more. pipe_choice ch" "choices_of k more = cs" for more
  proof -
    have all: "\<forall>ch \<in> set (chs @ more). pipe_choice ch" using assms(7) more(1) by auto
    have "cli_run L x (choices_of k (chs @ more)) (pp0, ls_host s) = (pp', h')"
      using run run'(1) more(2) by (simp add: cli_run_append)
    from listen_isolated_run [where out = out, OF all assms(2,1,3,4,6) refl st this]
    have "ls_conns (cmd_listen L out more s') ! k = LcPipe x pp'"
      "conn_view x (ls_host (cmd_listen L out more s')) = conn_view x h'"
      using assms(10) by (simp_all add: cmd_listen_append)
    with run'(2) ended show ?thesis unfolding conn_view_def by (metis prod.inject)
  qed
  with cs pp show ?thesis by blast
qed

text \<open>
  C22. Any number of fresh transfers to different files, received at the same time, all
  succeed, however their steps interleave. Each connection that has ended has ended well: it
  has stored the file of its sender, acknowledged each chunk once and answered COMPLETE. Each
  that has not ended can make a step, and not only by a read past the last frame of its
  sender. No connection makes more than \<open>4 n + 1\<close> steps, so an interleaving that goes on with
  the connections that have not ended brings all of them to their end. And from whatever the
  interleaving has left there is a continuation, without a read past the last frame, after
  which every connection has ended well and has stored its file.
\<close>

theorem listen_concurrent_delivers:
  assumes "listen_inv (s :: 'z cli_listener)" "ls_ended s = None"
    and "\<forall>k < length (ls_conns s). \<exists>pp. ls_conns s ! k = LcPipe (x k) pp
          \<and> fresh_transfer L (x k) (H k) (pp, ls_host s) \<and> alone k (x k) s"
    and "\<forall>ch \<in> set chs. pipe_choice ch"
    and "\<forall>k. (\<forall>ch \<in> set (choices_of k chs). plain_choice ch) \<and> length (filter is_frame (choices_of k chs)) \<le> hn_n (H k)"
    and "cmd_listen L out chs s = s'"
  shows "(\<forall>k < length (ls_conns s). \<exists>pp. ls_conns s' ! k = LcPipe (x k) pp
      \<and> (\<forall>r. cp_phase pp = PhEnded r \<longrightarrow> r = Inr () \<and> ch_fs (ls_host s') (hn_path (H k)) = Some (hn_src (H k))
          \<and> (\<exists>js. mset js = mset [0..<hn_n (H k)] \<and> cn_out (cp_conn pp)
              = hn_out (H k) @ cli_acks js @ send_tagged (TAG_COMPLETE, md_checksum (hn_md (H k)))))
      \<and> ((\<forall>r. cp_phase pp \<noteq> PhEnded r) \<longrightarrow> (\<exists>ch. plain_choice ch
          \<and> (is_frame ch \<longrightarrow> length (cp_tasks pp) < hn_n (H k)) \<and> cli_step L (x k) ch (pp, ls_host s') \<noteq> None))
      \<and> listen_moves L out k chs s \<le> 4 * hn_n (H k) + 1)
    \<and> (\<exists>more. (\<forall>ch \<in> set more. pipe_choice ch)
      \<and> (\<forall>k < length (ls_conns s). (\<forall>ch \<in> set (choices_of k more). plain_choice ch)
          \<and> (\<exists>pp pp'. ls_conns s' ! k = LcPipe (x k) pp
              \<and> length (cp_tasks pp) + length (filter is_frame (choices_of k more)) \<le> hn_n (H k)
              \<and> ls_conns (cmd_listen L out more s') ! k = LcPipe (x k) pp' \<and> cp_phase pp' = PhEnded (Inr ())
              \<and> ch_fs (ls_host (cmd_listen L out more s')) (hn_path (H k)) = Some (hn_src (H k)))))"
proof -
  let ?n = "length (ls_conns s)"
  have conn: "\<exists>pp0. ls_conns s ! k = LcPipe (x k) pp0 \<and> fresh_transfer L (x k) (H k) (pp0, ls_host s) \<and> alone k (x k) s"
    if "k < ?n" for k using assms(3) that by blast
  have plain: "\<forall>ch \<in> set (choices_of k chs). plain_choice ch" "length (filter is_frame (choices_of k chs)) \<le> hn_n (H k)"
    for k using assms(5) by blast+
  have "\<exists>cs pp. (\<forall>ch \<in> set cs. plain_choice ch) \<and> ls_conns s' ! k = LcPipe (x k) pp
    \<and> length (cp_tasks pp) + length (filter is_frame cs) \<le> hn_n (H k)
    \<and> (\<forall>more. (\<forall>ch \<in> set more. pipe_choice ch) \<and> choices_of k more = cs \<longrightarrow>
        (\<exists>pp'. ls_conns (cmd_listen L out more s') ! k = LcPipe (x k) pp' \<and> cp_phase pp' = PhEnded (Inr ())
          \<and> ch_fs (ls_host (cmd_listen L out more s')) (hn_path (H k)) = Some (hn_src (H k))))" if k: "k < ?n" for k
    using conn [OF k] listen_fresh_later [OF assms(1,2) k _ _ _ assms(4) plain assms(6)] by blast
  then obtain cs where cs: "\<exists>pp. (\<forall>ch \<in> set (cs k). plain_choice ch) \<and> ls_conns s' ! k = LcPipe (x k) pp
    \<and> length (cp_tasks pp) + length (filter is_frame (cs k)) \<le> hn_n (H k)
    \<and> (\<forall>more. (\<forall>ch \<in> set more. pipe_choice ch) \<and> choices_of k more = cs k \<longrightarrow>
        (\<exists>pp'. ls_conns (cmd_listen L out more s') ! k = LcPipe (x k) pp' \<and> cp_phase pp' = PhEnded (Inr ())
          \<and> ch_fs (ls_host (cmd_listen L out more s')) (hn_path (H k)) = Some (hn_src (H k))))" if "k < ?n" for k
    by metis
  define more :: "'z listen_choice list" where "more = concat (map (\<lambda>k. map (LnPipe k) (cs k)) [0..<?n])"
  have pipes: "\<forall>ch \<in> set more. pipe_choice ch" by (auto simp: more_def)
  have mine: "choices_of k more = cs k" if "k < ?n" for k using that by (simp add: more_def choices_of_all)
  have later: "(\<forall>ch \<in> set (choices_of k more). plain_choice ch)
          \<and> (\<exists>pp pp'. ls_conns s' ! k = LcPipe (x k) pp
              \<and> length (cp_tasks pp) + length (filter is_frame (choices_of k more)) \<le> hn_n (H k)
              \<and> ls_conns (cmd_listen L out more s') ! k = LcPipe (x k) pp' \<and> cp_phase pp' = PhEnded (Inr ())
              \<and> ch_fs (ls_host (cmd_listen L out more s')) (hn_path (H k)) = Some (hn_src (H k)))" if "k < ?n" for k
    unfolding mine [OF that] using cs [OF that] pipes mine [OF that] by blast
  show ?thesis
  proof (rule conjI)
    show "\<exists>more. (\<forall>ch \<in> set more. pipe_choice ch)
      \<and> (\<forall>k < ?n. (\<forall>ch \<in> set (choices_of k more). plain_choice ch)
          \<and> (\<exists>pp pp'. ls_conns s' ! k = LcPipe (x k) pp
              \<and> length (cp_tasks pp) + length (filter is_frame (choices_of k more)) \<le> hn_n (H k)
              \<and> ls_conns (cmd_listen L out more s') ! k = LcPipe (x k) pp' \<and> cp_phase pp' = PhEnded (Inr ())
              \<and> ch_fs (ls_host (cmd_listen L out more s')) (hn_path (H k)) = Some (hn_src (H k))))"
      using pipes later by blast
  qed (intro allI impI, frule conn, elim exE conjE, rule listen_fresh_now [OF assms(1,2) _ _ _ _ assms(4) plain assms(6)])
qed

section \<open>The same target twice\<close>

lemma listen_only:
  assumes "ls_ended s = None" "k < length (ls_conns s)" "ls_conns s ! k = LcPipe x pp"
    and "cli_run L x cs (pp, ls_host s) = (pp', h')"
  shows "cmd_listen L out (map (LnPipe k) cs) s = s\<lparr>ls_conns := (ls_conns s)[k := LcPipe x pp'], ls_host := h'\<rparr>"
  using assms
proof (induction cs arbitrary: s pp)
  case Nil
  then have "(ls_conns s)[k := LcPipe x pp] = ls_conns s" by (metis list_update_id)
  with Nil show ?case by simp
next
  case (Cons c cs)
  show ?case
  proof (cases "cli_step L x c (pp, ls_host s)")
    case None
    with Cons show ?thesis by (simp add: listen_pipe_eq [OF Cons.prems(3)])
  next
    case (Some a)
    then obtain pp1 h1 where st: "cli_step L x c (pp, ls_host s) = Some (pp1, h1)" by (cases a) auto
    let ?s = "s\<lparr>ls_conns := (ls_conns s)[k := LcPipe x pp1], ls_host := h1\<rparr>"
    have "cmd_listen L out (map (LnPipe k) cs) ?s = ?s\<lparr>ls_conns := (ls_conns ?s)[k := LcPipe x pp'], ls_host := h'\<rparr>"
      by (rule Cons.IH [where pp = pp1]) (use Cons.prems st in simp_all)
    with Cons.prems st show ?thesis by (simp add: listen_pipe_eq [OF Cons.prems(3)])
  qed
qed

lemma cli_run_others:
  assumes "cli_run L x cs (pp, h) = (pp', h')" "cx_ref x < length (ch_shared h)" "r \<noteq> cx_ref x"
  shows "length (ch_shared h') = length (ch_shared h) \<and> ch_shared h' ! r = ch_shared h ! r"
  using assms
proof (induction cs arbitrary: pp h)
  case (Cons c cs)
  show ?case
  proof (cases "cli_step L x c (pp, h)")
    case (Some a)
    then obtain pp1 h1 where st: "cli_step L x c (pp, h) = Some (pp1, h1)" by (cases a) auto
    from cli_step_touches(1,2) [OF st Cons.prems(2)] Cons.IH [of pp1 h1] Cons.prems st show ?thesis by simp
  qed (use Cons in simp)
qed simp

text \<open>
  C24. Two senders that send files of the same name are both told that their file is stored,
  and one of them is not: the listener opens the same path for both, and when one connection
  runs after the other the file of the first is overwritten by that of the second, after the
  COMPLETE with its digest has been sent.
\<close>

theorem listen_same_target_overwrites:
  assumes "ls_ended s = None" "k < length (ls_conns s)" "j < length (ls_conns s)" "j \<noteq> k"
    and "ls_conns s ! k = LcPipe x pp" "fresh_transfer L x H (pp, ls_host s)"
    and "ls_conns s ! j = LcPipe y qq" "fresh_transfer L y G (qq, ls_host s)"
    and "cx_ref y \<noteq> cx_ref x" "hn_path G = hn_path H" "length (hn_src H) \<le> length (hn_src G)"
    and "\<forall>ch \<in> set cs. plain_choice ch" "length (filter is_frame cs) \<le> hn_n H"
    and "cli_run L x cs (pp, ls_host s) = (pp1, h1)" "cp_phase pp1 = PhEnded r"
    and "\<forall>ch \<in> set ds. plain_choice ch" "length (filter is_frame ds) \<le> hn_n G"
    and "cli_run L y ds (qq, h1) = (qq1, h2)" "cp_phase qq1 = PhEnded q"
    and "cmd_listen L out (map (LnPipe k) cs @ map (LnPipe j) ds) s = s'"
  shows "ls_conns s' ! k = LcPipe x pp1 \<and> ls_conns s' ! j = LcPipe y qq1
    \<and> (\<exists>js. mset js = mset [0..<hn_n H] \<and> cn_out (cp_conn pp1)
          = hn_out H @ cli_acks js @ send_tagged (TAG_COMPLETE, md_checksum (hn_md H)))
    \<and> (\<exists>js. mset js = mset [0..<hn_n G] \<and> cn_out (cp_conn qq1)
          = hn_out G @ cli_acks js @ send_tagged (TAG_COMPLETE, md_checksum (hn_md G)))
    \<and> ch_fs (ls_host s') (hn_path H) = Some (hn_src G)"
proof -
  have H: "honest L x H" "cli_started x H (pp, ls_host s)" "hn_first H = 0" "hn_block H = unat (hn_cs H)"
    and G: "honest L y G" "cli_started y G (qq, ls_host s)" "hn_first G = 0" "hn_block G = unat (hn_cs G)"
    using assms(6,8) by (simp_all add: fresh_transfer_def)
  note one = cli_recv_ended [OF H assms(12-15)]
  have "cx_ref x < length (ch_shared (ls_host s))" using H(2) by (simp add: cli_started_def)
  from cli_run_others [OF assms(14) this assms(9)] one G(2) assms(10,11) have "cli_started y G (qq, h1)"
    by (auto simp: cli_started_def file_at_def opt_default_def)
  note two = cli_recv_ended [OF G(1) this G(3,4) assms(16-19)]
  let ?s1 = "s\<lparr>ls_conns := (ls_conns s)[k := LcPipe x pp1], ls_host := h1\<rparr>"
  have "s' = cmd_listen L out (map (LnPipe j) ds) ?s1"
    using listen_only [OF assms(1,2,5,14), of out] assms(20) by (simp add: cmd_listen_append)
  also have "\<dots> = ?s1\<lparr>ls_conns := (ls_conns ?s1)[j := LcPipe y qq1], ls_host := h2\<rparr>"
    by (rule listen_only) (use assms(1,3,4,7,18) in simp_all)
  finally have "ls_conns s' ! k = LcPipe x pp1 \<and> ls_conns s' ! j = LcPipe y qq1 \<and> ls_host s' = h2"
    using assms(2-4) by simp
  with one two assms(10) show ?thesis by simp
qed

section \<open>Concrete listeners\<close>

text \<open>Two connections, each with a fresh transfer; \<open>q\<close> is the target of the second.\<close>

definition demo_two_H :: "string \<Rightarrow> nat \<Rightarrow> cli_honest" where
  "demo_two_H q k = (if k = 0 then demo_cli 0 2 2 2 [1, 2, 3] else (demo_cli 0 2 2 2 [4, 5, 6])\<lparr>hn_path := path_of q\<rparr>)"

definition demo_two_x :: "nat \<Rightarrow> int cli_ctx" where
  "demo_two_x k = demo_cli_ctx\<lparr>cx_ref := k\<rparr>"

definition demo_two_pp :: "string \<Rightarrow> nat \<Rightarrow> cli_pipe" where
  "demo_two_pp q k = \<lparr>cp_conn = conn_open (cli_frames (demo_two_H q k) 0), cp_tasks = [], cp_hash = [], cp_phase = PhRunning\<rparr>"

definition demo_two :: "string \<Rightarrow> int cli_listener" where
  "demo_two q = \<lparr>ls_conns = [LcPipe (demo_two_x 0) (demo_two_pp q 0), LcPipe (demo_two_x 1) (demo_two_pp q 1)],
     ls_host = \<lparr>ch_shared = [\<lparr>sh_path = path_of ''/f'', sh_meta = hn_md (demo_two_H q 0), sh_session = ''s'', sh_received = 0\<rparr>,
         \<lparr>sh_path = path_of q, sh_meta = hn_md (demo_two_H q 1), sh_session = ''t'', sh_received = 0\<rparr>],
       ch_active = [''s'' \<mapsto> 0, ''t'' \<mapsto> 1], ch_db = demo_db, ch_fs = [path_of ''/f'' \<mapsto> [], path_of q \<mapsto> []]\<rparr>,
     ls_ended = None\<rparr>"

lemma demo_two_inv: "listen_inv (demo_two q)"
  by (auto simp: listen_inv_def host_ok_def demo_two_def demo_two_x_def less_Suc_eq)

lemma honest_ctx: "honest L (x\<lparr>cx_ref := n\<rparr>) (H\<lparr>hn_path := p\<rparr>) = honest L x H"
  "honest L (x\<lparr>cx_ref := n\<rparr>) H = honest L x H" "honest L x (H\<lparr>hn_path := p\<rparr>) = honest L x H"
  by (simp_all add: honest_def hn_data_def)

lemma demo_two_fresh:
  assumes "k < 2"
  shows "fresh_transfer demo_hash (demo_two_x k) (demo_two_H q k) (demo_two_pp q k, ls_host (demo_two q))"
proof -
  have h: "honest demo_hash demo_cli_ctx (demo_cli 0 2 2 2 [a, b, c])" for a b c
    by (rule demo_cli_honest) simp_all
  from assms consider "k = 0" | "k = 1" by linarith
  then show ?thesis
    by cases (simp_all add: fresh_transfer_def demo_two_x_def demo_two_H_def honest_ctx h cli_started_def demo_two_pp_def
        demo_two_def conn_open_def file_at_def opt_default_def demo_cli_md_def)
qed

lemma demo_two_alone: "path_of q \<noteq> path_of ''/f'' \<Longrightarrow> k < 2 \<Longrightarrow> alone k (demo_two_x k) (demo_two q)"
  by (auto simp: alone_def demo_two_def demo_two_x_def less_Suc_eq numeral_2_eq_2)

lemma demo_two_ends:
  assumes "k < 2" "fresh_transfer demo_hash (demo_two_x k) H (pp0, h0)"
  obtains cs pp h where "\<forall>ch \<in> set cs. plain_choice ch" "length (filter is_frame cs) \<le> hn_n H"
    "cli_run demo_hash (demo_two_x k) cs (pp0, h0) = (pp, h)" "cp_phase pp = PhEnded (Inr ())"
proof -
  have H: "honest demo_hash (demo_two_x k) H" and st: "cli_started (demo_two_x k) H (pp0, h0)" and "hn_first H = 0"
    using assms(2) by (simp_all add: fresh_transfer_def)
  have t: "length (cp_tasks pp0) = 0" using st by (simp add: cli_started_def)
  from cli_can_end [OF H cli_inv_start [OF H st]] t obtain cs r where
    cs: "\<forall>ch \<in> set cs. plain_choice ch" "length (filter is_frame cs) \<le> hn_n H - hn_first H"
      "cp_phase (fst (cli_run demo_hash (demo_two_x k) cs (pp0, h0))) = PhEnded r" by auto
  obtain pp h where run: "cli_run demo_hash (demo_two_x k) cs (pp0, h0) = (pp, h)"
    by (cases "cli_run demo_hash (demo_two_x k) cs (pp0, h0)")
  from cli_run_inv [OF H cli_inv_start [OF H st] cs(1)] cs(2) t run obtain js where
    "cli_inv demo_hash (demo_two_x k) H js (pp, h)" by auto
  from cli_invD(10) [OF this] cs(3) run have "cp_phase pp = PhEnded (Inr ())" by (simp add: phase_ok_def Let_def)
  with that cs run \<open>hn_first H = 0\<close> show thesis by simp
qed

lemma listen_isolates_witness:
  "\<exists>pp' h'. cli_run demo_hash (demo_two_x 0) [ChFrame 0, ChWrite 0 None] (demo_two_pp ''/g'' 0, ls_host (demo_two ''/g'')) = (pp', h')
    \<and> ls_conns (cmd_listen demo_hash (path_of ''/f'') [LnPipe 0 (ChFrame 0), LnPipe 1 (ChFrame 0), LnPipe 1 (ChWrite 0 (Some (1, ''e''))),
         LnPipe 0 (ChWrite 0 None)] (demo_two ''/g'')) ! 0 = LcPipe (demo_two_x 0) pp'"
proof -
  obtain pp' h' where run: "cli_run demo_hash (demo_two_x 0) [ChFrame 0, ChWrite 0 None]
      (demo_two_pp ''/g'' 0, ls_host (demo_two ''/g'')) = (pp', h')" by fastforce
  have "path_of ''/g'' \<noteq> path_of ''/f''" by code_simp
  from demo_two_alone [OF this, of 0] have al: "alone 0 (demo_two_x 0) (demo_two ''/g'')" by simp
  let ?chs = "[LnPipe 0 (ChFrame 0), LnPipe 1 (ChFrame 0), LnPipe 1 (ChWrite 0 (Some (1, ''e''))), LnPipe 0 (ChWrite 0 None)]"
  have c: "choices_of 0 ?chs = [ChFrame 0, ChWrite 0 None]" by simp
  have d: "ls_ended (demo_two ''/g'') = None" "\<forall>ch \<in> set ?chs. pipe_choice ch" "0 < length (ls_conns (demo_two ''/g''))"
    "ls_conns (demo_two ''/g'') ! 0 = LcPipe (demo_two_x 0) (demo_two_pp ''/g'' 0)" by (simp_all add: demo_two_def)
  from listen_isolates [OF demo_two_inv d(1,2) refl d(3,4) al, of demo_hash pp' h' "path_of ''/f''", unfolded c, OF run] run show ?thesis by blast
qed

lemma listen_concurrent_delivers_witness:
  "\<exists>more pp pp'. ls_conns (cmd_listen demo_hash (path_of ''/f'')
        ([LnPipe 0 (ChFrame 0), LnPipe 1 (ChFrame 0), LnPipe 1 (ChWrite 0 None)] @ more) (demo_two ''/g'')) ! 0
      = LcPipe (demo_two_x 0) pp
    \<and> ls_conns (cmd_listen demo_hash (path_of ''/f'')
        ([LnPipe 0 (ChFrame 0), LnPipe 1 (ChFrame 0), LnPipe 1 (ChWrite 0 None)] @ more) (demo_two ''/g'')) ! 1
      = LcPipe (demo_two_x 1) pp'
    \<and> cp_phase pp = PhEnded (Inr ()) \<and> cp_phase pp' = PhEnded (Inr ())
    \<and> ch_fs (ls_host (cmd_listen demo_hash (path_of ''/f'')
        ([LnPipe 0 (ChFrame 0), LnPipe 1 (ChFrame 0), LnPipe 1 (ChWrite 0 None)] @ more) (demo_two ''/g''))) (path_of ''/g'')
      = Some [4, 5, 6]"
proof -
  let ?chs = "[LnPipe 0 (ChFrame 0), LnPipe 1 (ChFrame 0), LnPipe 1 (ChWrite 0 None)]"
  have ne: "path_of ''/g'' \<noteq> path_of ''/f''" by code_simp
  have two: "length (ls_conns (demo_two ''/g'')) = 2" by (simp add: demo_two_def)
  have pipes: "ls_conns (demo_two ''/g'') ! k = LcPipe (demo_two_x k) (demo_two_pp ''/g'' k)" if "k < 2" for k
    using that by (auto simp: demo_two_def less_Suc_eq numeral_2_eq_2)
  have all: "\<forall>k < length (ls_conns (demo_two ''/g'')). \<exists>pp. ls_conns (demo_two ''/g'') ! k = LcPipe (demo_two_x k) pp
      \<and> fresh_transfer demo_hash (demo_two_x k) (demo_two_H ''/g'' k) (pp, ls_host (demo_two ''/g''))
      \<and> alone k (demo_two_x k) (demo_two ''/g'')"
    unfolding two using pipes demo_two_fresh demo_two_alone [OF ne] by blast
  have plain: "\<forall>k. (\<forall>ch \<in> set (choices_of k ?chs). plain_choice ch)
      \<and> length (filter is_frame (choices_of k ?chs)) \<le> hn_n (demo_two_H ''/g'' k)" by (simp add: demo_two_H_def)
  have e: "ls_ended (demo_two ''/g'') = None" by (simp add: demo_two_def)
  have p: "\<forall>ch \<in> set ?chs. pipe_choice ch" by simp
  have H: "hn_path (demo_two_H ''/g'' 1) = path_of ''/g''" "hn_src (demo_two_H ''/g'' 1) = [4, 5, 6]"
    by (simp_all add: demo_two_H_def)
  from listen_concurrent_delivers [OF demo_two_inv e all p plain refl, of "path_of ''/f''", unfolded two]
  obtain more where more: "\<forall>k < 2. \<exists>pp'. ls_conns (cmd_listen demo_hash (path_of ''/f'') more
        (cmd_listen demo_hash (path_of ''/f'') ?chs (demo_two ''/g''))) ! k = LcPipe (demo_two_x k) pp'
      \<and> cp_phase pp' = PhEnded (Inr ())
      \<and> ch_fs (ls_host (cmd_listen demo_hash (path_of ''/f'') more
          (cmd_listen demo_hash (path_of ''/f'') ?chs (demo_two ''/g'')))) (hn_path (demo_two_H ''/g'' k))
        = Some (hn_src (demo_two_H ''/g'' k))" by blast
  have "(0 :: nat) < 2" "(1 :: nat) < 2" by simp_all
  with more [rule_format, of 0] more [rule_format, of 1] show ?thesis
    unfolding cmd_listen_append H by blast
qed

lemma listen_same_target_overwrites_witness:
  "\<exists>chs pp qq. ls_conns (cmd_listen demo_hash (path_of ''/f'') chs (demo_two ''/f'')) ! 0 = LcPipe (demo_two_x 0) pp
    \<and> ls_conns (cmd_listen demo_hash (path_of ''/f'') chs (demo_two ''/f'')) ! 1 = LcPipe (demo_two_x 1) qq
    \<and> cp_phase pp = PhEnded (Inr ()) \<and> cp_phase qq = PhEnded (Inr ())
    \<and> ch_fs (ls_host (cmd_listen demo_hash (path_of ''/f'') chs (demo_two ''/f''))) (path_of ''/f'') = Some [4, 5, 6]"
proof -
  let ?s = "demo_two ''/f''"
  have k: "(0 :: nat) < 2" "(1 :: nat) < 2" by simp_all
  note fr = demo_two_fresh [where q = "''/f''", OF k(1)] demo_two_fresh [where q = "''/f''", OF k(2)]
  obtain cs pp1 h1 where c: "\<forall>ch \<in> set cs. plain_choice ch" "length (filter is_frame cs) \<le> hn_n (demo_two_H ''/f'' 0)"
    "cli_run demo_hash (demo_two_x 0) cs (demo_two_pp ''/f'' 0, ls_host ?s) = (pp1, h1)" "cp_phase pp1 = PhEnded (Inr ())"
    by (rule demo_two_ends [OF _ fr(1)]) simp
  have ref: "cx_ref (demo_two_x 0) < length (ch_shared (ls_host ?s))" "cx_ref (demo_two_x 1) \<noteq> cx_ref (demo_two_x 0)"
    by (simp_all add: demo_two_x_def demo_two_def)
  have p: "hn_path (demo_two_H ''/f'' 1) = hn_path (demo_two_H ''/f'' 0)"
      "length (hn_src (demo_two_H ''/f'' 0)) \<le> length (hn_src (demo_two_H ''/f'' 1))"
      "hn_path (demo_two_H ''/f'' 0) = path_of ''/f''" "hn_src (demo_two_H ''/f'' 1) = [4, 5, 6]"
    by (simp_all add: demo_two_H_def)
  have H: "honest demo_hash (demo_two_x 0) (demo_two_H ''/f'' 0)" "cli_started (demo_two_x 0) (demo_two_H ''/f'' 0) (demo_two_pp ''/f'' 0, ls_host ?s)"
    "hn_first (demo_two_H ''/f'' 0) = 0" "hn_block (demo_two_H ''/f'' 0) = unat (hn_cs (demo_two_H ''/f'' 0))"
    using fr(1) by (simp_all add: fresh_transfer_def)
  have two: "fresh_transfer demo_hash (demo_two_x 1) (demo_two_H ''/f'' 1) (demo_two_pp ''/f'' 1, h1)"
    using fr(2) cli_run_others [OF c(3) ref] cli_recv_ended [OF H c] p
    by (auto simp: fresh_transfer_def cli_started_def file_at_def opt_default_def)
  obtain ds qq1 h2 where d: "\<forall>ch \<in> set ds. plain_choice ch" "length (filter is_frame ds) \<le> hn_n (demo_two_H ''/f'' 1)"
    "cli_run demo_hash (demo_two_x 1) ds (demo_two_pp ''/f'' 1, h1) = (qq1, h2)" "cp_phase qq1 = PhEnded (Inr ())"
    by (rule demo_two_ends [OF _ two]) simp
  have s: "ls_ended ?s = None" "0 < length (ls_conns ?s)" "1 < length (ls_conns ?s)" "(1 :: nat) \<noteq> 0"
    "ls_conns ?s ! 0 = LcPipe (demo_two_x 0) (demo_two_pp ''/f'' 0)" "ls_conns ?s ! 1 = LcPipe (demo_two_x 1) (demo_two_pp ''/f'' 1)"
    by (simp_all add: demo_two_def)
  from listen_same_target_overwrites [OF s(1-5) fr(1) s(6) fr(2) ref(2) p(1,2) c d refl, of "path_of ''/f''"] c(4) d(4) p(3,4)
  show ?thesis by metis
qed

end
