(* ===== verification/Gui_Listen.thy ===== *)
theory Gui_Listen
  imports Gui_App
begin

text \<open>
  The listeners of the desktop application: the task that \<open>main\<close> starts and the commands
  \<open>start_listening\<close> and \<open>stop_listening\<close> (\<open>p2ptransfer-gui/src-tauri/src/main.rs\<close>), all on TCP
  port 9877, which one socket holds at a time. Commands and tasks are steps that interleave;
  handling an accepted connection is \<open>Gui_Recv\<close>. The debug log is left out.
\<close>

section \<open>The port and the tasks\<close>

datatype port_holder = HeldByMain | HeldByTask nat | HeldByOther

datatype main_listener = MainUnbound | MainServing | MainGaveUp

datatype listen_task = TaskRunning string | TaskAborted | TaskStopped

record gui_net =
  gn_port :: "port_holder option"
  gn_main :: main_listener
  gn_tasks :: "listen_task list"
  gn_handle :: "nat option"
  gn_shutdown :: bool
  gn_discovery :: "discovery option"
  gn_output_dir :: string
  gn_accepted :: "string list"

definition gui_net_start :: "port_holder option \<Rightarrow> string \<Rightarrow> gui_net" where
  "gui_net_start port output_dir = \<lparr>gn_port = port, gn_main = MainUnbound, gn_tasks = [], gn_handle = None,
     gn_shutdown = False, gn_discovery = None, gn_output_dir = output_dir, gn_accepted = []\<rparr>"

text \<open>The task of \<open>main\<close> tries once to bind the port, and never gives it back.\<close>

definition main_bind :: "gui_net \<Rightarrow> gui_net" where
  "main_bind n =
     (if gn_main n \<noteq> MainUnbound then n
      else if gn_port n = None then n\<lparr>gn_port := Some HeldByMain, gn_main := MainServing\<rparr>
      else n\<lparr>gn_main := MainGaveUp\<rparr>)"

definition main_discovery :: "bool \<Rightarrow> string \<Rightarrow> string \<Rightarrow> string \<Rightarrow> gui_net \<Rightarrow> gui_net" where
  "main_discovery binds version device_name device_id n =
     (if binds then n\<lparr>gn_discovery :=
        Some (disc_start version (disc_new_with_node_id device_name 9877 9876 (Some device_id)))\<rparr>
      else n)"

text \<open>
  The command binds the port first; when the discovery fails after it the socket is closed
  again. The new discovery service replaces the running one and announces no identifier.
\<close>

definition start_listening ::
  "bool \<Rightarrow> string \<Rightarrow> string \<Rightarrow> string \<Rightarrow> gui_net \<Rightarrow> (string + string) \<times> gui_net" where
  "start_listening binds version device_name output_dir n =
     (let n = n\<lparr>gn_shutdown := False\<rparr> in
      if gn_port n \<noteq> None then (Inl ''Address already in use'', n)
      else if \<not> binds then (Inl ''Failed to bind discovery socket'', n)
      else let i = length (gn_tasks n) in
        (Inr ''Listening on port 9877'',
         n\<lparr>gn_port := Some (HeldByTask i), gn_tasks := gn_tasks n @ [TaskRunning output_dir], gn_handle := Some i,
           gn_discovery := Some (disc_start version (disc_new device_name 9877 9876))\<rparr>))"

definition stop_listening :: "gui_net \<Rightarrow> (string + unit) \<times> gui_net" where
  "stop_listening n =
     (let n = n\<lparr>gn_shutdown := True\<rparr> in
      case gn_handle n of
        None \<Rightarrow> (Inr (), n)
      | Some i \<Rightarrow>
          (Inr (), n\<lparr>gn_handle := None,
             gn_tasks := (case gn_tasks n ! i of TaskRunning d \<Rightarrow> (gn_tasks n)[i := TaskAborted] | _ \<Rightarrow> gn_tasks n)\<rparr>))"

text \<open>A task that is scheduled ends when it has been aborted or sees the flag, and closes its socket.\<close>

definition task_poll :: "nat \<Rightarrow> gui_net \<Rightarrow> gui_net" where
  "task_poll i n =
     (if i < length (gn_tasks n) \<and>
         (gn_tasks n ! i = TaskAborted \<or> (\<exists>d. gn_tasks n ! i = TaskRunning d) \<and> gn_shutdown n)
      then n\<lparr>gn_tasks := (gn_tasks n)[i := TaskStopped], gn_port := None\<rparr> else n)"

text \<open>A connection: accepted by the holder of the port, with the directory it stores files in.\<close>

definition gui_accept :: "gui_net \<Rightarrow> gui_net" where
  "gui_accept n =
     (case gn_port n of
        Some HeldByMain \<Rightarrow> n\<lparr>gn_accepted := gn_accepted n @ [gn_output_dir n]\<rparr>
      | Some (HeldByTask i) \<Rightarrow>
          (case gn_tasks n ! i of
             TaskRunning d \<Rightarrow> n\<lparr>gn_accepted := gn_accepted n @ [d]\<rparr>
           | _ \<Rightarrow> n)
      | _ \<Rightarrow> n)"

datatype net_event =
    NetMainBind
  | NetMainDiscovery bool string string string
  | NetStart bool string string string
  | NetStop
  | NetPoll nat
  | NetConnection
  | NetSetDir string
  | NetOtherCloses

fun net_step :: "net_event \<Rightarrow> gui_net \<Rightarrow> gui_net" where
  "net_step NetMainBind n = main_bind n"
| "net_step (NetMainDiscovery b v d i) n = main_discovery b v d i n"
| "net_step (NetStart b v d out) n = snd (start_listening b v d out n)"
| "net_step NetStop n = snd (stop_listening n)"
| "net_step (NetPoll i) n = task_poll i n"
| "net_step NetConnection n = gui_accept n"
| "net_step (NetSetDir d) n = n\<lparr>gn_output_dir := d\<rparr>"
| "net_step NetOtherCloses n = (if gn_port n = Some HeldByOther then n\<lparr>gn_port := None\<rparr> else n)"

definition net_run :: "net_event list \<Rightarrow> gui_net \<Rightarrow> gui_net" where
  "net_run evs n = fold net_step evs n"

lemma net_run_simps [simp]: "net_run [] n = n" "net_run (ev # evs) n = net_run evs (net_step ev n)"
  by (simp_all add: net_run_def)

section \<open>One listener at a time\<close>

text \<open>A listening task that has not stopped holds the port, and the stored handle is of a running task.\<close>

definition net_inv :: "gui_net \<Rightarrow> bool" where
  "net_inv n \<longleftrightarrow>
     (\<forall>i < length (gn_tasks n). gn_tasks n ! i \<noteq> TaskStopped \<longleftrightarrow> gn_port n = Some (HeldByTask i))
     \<and> (\<forall>i. gn_port n = Some (HeldByTask i) \<longrightarrow> i < length (gn_tasks n))
     \<and> (\<forall>i. gn_handle n = Some i \<longrightarrow> i < length (gn_tasks n))
     \<and> (gn_main n = MainServing \<longleftrightarrow> gn_port n = Some HeldByMain)"

lemma net_inv_start: "port \<noteq> Some HeldByMain \<Longrightarrow> \<forall>i. port \<noteq> Some (HeldByTask i) \<Longrightarrow> net_inv (gui_net_start port out)"
  by (simp add: net_inv_def gui_net_start_def)

lemma stop_listening_inv: "net_inv n \<Longrightarrow> net_inv (snd (stop_listening n))"
  by (auto simp: net_inv_def stop_listening_def Let_def nth_list_update split: option.splits listen_task.splits)

lemma start_listening_inv: "net_inv n \<Longrightarrow> net_inv (snd (start_listening b v d out n))"
  by (auto simp: net_inv_def start_listening_def Let_def nth_append less_Suc_eq)

lemma task_poll_inv: "net_inv n \<Longrightarrow> net_inv (task_poll i n)"
proof (cases "i < length (gn_tasks n) \<and> gn_tasks n ! i \<noteq> TaskStopped")
  case True
  moreover assume inv: "net_inv n"
  ultimately have port: "gn_port n = Some (HeldByTask i)" unfolding net_inv_def by blast
  then have "gn_tasks n ! j = TaskStopped" if "j < length (gn_tasks n)" "j \<noteq> i" for j
    using inv that port by (auto simp: net_inv_def)
  with inv port show ?thesis by (auto simp: net_inv_def task_poll_def nth_list_update)
qed (auto simp: task_poll_def)

lemma net_step_inv: "net_inv n \<Longrightarrow> net_inv (net_step ev n)"
proof (cases ev)
  case NetConnection
  then show "net_inv n \<Longrightarrow> ?thesis"
    by (auto simp: net_inv_def gui_accept_def split: option.splits port_holder.splits listen_task.splits)
next
  case NetMainBind
  then show "net_inv n \<Longrightarrow> ?thesis" by (auto simp: net_inv_def main_bind_def)
qed (auto simp: stop_listening_inv start_listening_inv task_poll_inv, auto simp: net_inv_def main_discovery_def)

lemma net_run_inv: "net_inv n \<Longrightarrow> net_inv (net_run evs n)"
  by (induction evs arbitrary: n) (auto intro: net_step_inv)

text \<open>
  The application never listens twice: whatever the order of the start of \<open>main\<close>, of the
  commands and of the scheduling of the tasks, at most one listening task is alive, a live one
  holds the port, and none is alive while the listener of \<open>main\<close> serves.
\<close>

theorem one_listener:
  assumes "net_run evs (gui_net_start port out) = n" "port = None \<or> port = Some HeldByOther"
    and "i < length (gn_tasks n)" "gn_tasks n ! i \<noteq> TaskStopped"
  shows "gn_port n = Some (HeldByTask i) \<and> gn_main n \<noteq> MainServing
    \<and> (\<forall>j < length (gn_tasks n). j \<noteq> i \<longrightarrow> gn_tasks n ! j = TaskStopped)"
proof -
  have "net_inv n" using net_run_inv [OF net_inv_start] assms(1,2) by blast
  then show ?thesis using assms(3,4) unfolding net_inv_def by (metis option.inject port_holder.distinct(1) port_holder.inject)
qed

section \<open>What the commands can do\<close>

lemma serving_step:
  assumes "gn_port n = Some HeldByMain" "gn_main n = MainServing" "\<forall>i < length (gn_tasks n). gn_tasks n ! i = TaskStopped"
    and "\<forall>i. gn_handle n = Some i \<longrightarrow> i < length (gn_tasks n)"
  shows "gn_port (net_step ev n) = Some HeldByMain \<and> gn_main (net_step ev n) = MainServing
    \<and> gn_tasks (net_step ev n) = gn_tasks n \<and> (\<forall>i. gn_handle (net_step ev n) = Some i \<longrightarrow> i < length (gn_tasks n))"
  using assms
  by (cases ev) (auto simp: main_bind_def main_discovery_def start_listening_def stop_listening_def task_poll_def
      gui_accept_def Let_def split: option.splits)

text \<open>
  C40. The commands do not control the listener: once the listener that the application starts
  by itself serves, every later \<open>start_listening\<close> fails with an address in use, no
  \<open>stop_listening\<close> stops the acceptance of connections, and files go to the output directory
  of the settings, never to the one given to the command.
\<close>

theorem listener_ignores_commands:
  assumes "net_run before (gui_net_start port out) = n" "port = None \<or> port = Some HeldByOther"
    and "gn_main n = MainServing" "net_run evs n = n'"
  shows "fst (start_listening b v d dir n') = Inl ''Address already in use''
    \<and> gn_accepted (net_step NetConnection n') = gn_accepted n' @ [gn_output_dir n']
    \<and> gn_tasks n' = gn_tasks n"
proof -
  have inv: "net_inv n" using net_run_inv [OF net_inv_start] assms(1,2) by blast
  then have serving: "gn_port n = Some HeldByMain" "\<forall>i < length (gn_tasks n). gn_tasks n ! i = TaskStopped"
      "\<forall>i. gn_handle n = Some i \<longrightarrow> i < length (gn_tasks n)"
    using assms(3) unfolding net_inv_def by (metis option.inject port_holder.distinct(1))+
  have "gn_port (net_run evs m) = Some HeldByMain \<and> gn_tasks (net_run evs m) = gn_tasks m"
    if "gn_port m = Some HeldByMain" "gn_main m = MainServing" "\<forall>i < length (gn_tasks m). gn_tasks m ! i = TaskStopped"
      "\<forall>i. gn_handle m = Some i \<longrightarrow> i < length (gn_tasks m)" for m
    using that
  proof (induction evs arbitrary: m)
    case (Cons ev evs)
    from serving_step [OF Cons.prems, of ev] Cons show ?case by simp
  qed simp
  from this [OF serving(1) assms(3) serving(2,3)] assms(4) show ?thesis
    by (simp add: start_listening_def gui_accept_def Let_def)
qed

text \<open>
  When another program held the port at the start, the commands do control a listener of their
  own; but a stop followed at once by a start fails, until the aborted task has been scheduled.
\<close>

theorem restart_needs_poll:
  assumes "gn_port n = Some (HeldByTask i)" "gn_handle n = Some i" "gn_tasks n ! i = TaskRunning d0" "i < length (gn_tasks n)"
  shows "fst (start_listening True v d out (snd (stop_listening n))) = Inl ''Address already in use''
    \<and> fst (start_listening True v d out (task_poll i (snd (stop_listening n)))) = Inr ''Listening on port 9877''"
  using assms by (simp add: start_listening_def stop_listening_def task_poll_def Let_def)

section \<open>Concrete runs\<close>

text \<open>The port is taken when the application starts, and free later.\<close>

definition demo_net :: gui_net where
  "demo_net = net_run [NetMainBind, NetOtherCloses, NetStart True ''1'' ''pc'' ''/in''] (gui_net_start (Some HeldByOther) ''/out'')"

lemma demo_net_state: "gn_port demo_net = Some (HeldByTask 0)" "gn_tasks demo_net = [TaskRunning ''/in'']" "gn_handle demo_net = Some 0"
  by (simp_all add: demo_net_def gui_net_start_def main_bind_def start_listening_def Let_def)

lemma one_listener_witness: "gn_port demo_net = Some (HeldByTask 0) \<and> gn_main demo_net \<noteq> MainServing"
  using one_listener [OF demo_net_def [symmetric], of 0] by (simp add: demo_net_state)

lemma listener_ignores_commands_witness:
  "fst (start_listening True ''1'' ''pc'' ''/in'' (net_run [NetStop, NetSetDir ''/new''] (net_run [NetMainBind] (gui_net_start None ''/out''))))
     = Inl ''Address already in use''
   \<and> gn_accepted (net_step NetConnection (net_run [NetStop, NetSetDir ''/new''] (net_run [NetMainBind] (gui_net_start None ''/out'')))) = [''/new'']"
proof -
  let ?n = "net_run [NetMainBind] (gui_net_start None ''/out'')"
  have m: "gn_main ?n = MainServing" by (simp add: gui_net_start_def main_bind_def)
  have "gn_accepted (net_run [NetStop, NetSetDir ''/new''] ?n) = []" "gn_output_dir (net_run [NetStop, NetSetDir ''/new''] ?n) = ''/new''"
    by (simp_all add: gui_net_start_def main_bind_def stop_listening_def Let_def)
  with listener_ignores_commands [OF refl _ m refl, where evs = "[NetStop, NetSetDir ''/new'']" and b = True and v = "''1''"
      and d = "''pc''" and dir = "''/in''"]
  show ?thesis by simp
qed

lemma restart_needs_poll_witness:
  "fst (start_listening True ''1'' ''pc'' ''/in'' (snd (stop_listening demo_net))) = Inl ''Address already in use''"
  by (rule conjunct1 [OF restart_needs_poll]) (simp_all add: demo_net_state)

end
