(* ===== verification/Gui_Window.thy ===== *)
theory Gui_Window
  imports Gui_App
begin

text \<open>
  The windows of the desktop application (\<open>open_send_overlay\<close>, \<open>open_receive_overlay\<close> and
  the handlers of \<open>main\<close> in \<open>p2ptransfer-gui/src-tauri/src/main.rs\<close>) and the forwarding of the
  events of the core to them (\<open>protocol.rs\<close>). Sizes and titles are left out, and so is the
  registration of the context menu of the file manager.
\<close>

section \<open>Windows\<close>

record window =
  wn_visible :: bool
  wn_on_top :: bool

text \<open>What the windows are told: the event's name, and the event, a path, or nothing.\<close>

datatype gui_payload = PlEvent transfer_event | PlPath string | PlUnit

record gui_ui =
  ui_state :: gui_state
  ui_windows :: "string \<rightharpoonup> window"
  ui_emitted :: "(string \<times> gui_payload) list"
  ui_exited :: bool

definition emit_all :: "string \<Rightarrow> gui_payload \<Rightarrow> gui_ui \<Rightarrow> gui_ui" where
  "emit_all name payload u = u\<lparr>ui_emitted := ui_emitted u @ [(name, payload)]\<rparr>"

definition show_window :: "string \<Rightarrow> gui_ui \<Rightarrow> gui_ui" where
  "show_window label u =
     (case ui_windows u label of
        None \<Rightarrow> u
      | Some win \<Rightarrow> u\<lparr>ui_windows := (ui_windows u)(label \<mapsto> win\<lparr>wn_visible := True\<rparr>)\<rparr>)"

definition hide_window :: "string \<Rightarrow> gui_ui \<Rightarrow> gui_ui" where
  "hide_window label u =
     (case ui_windows u label of
        None \<Rightarrow> u
      | Some win \<Rightarrow> u\<lparr>ui_windows := (ui_windows u)(label \<mapsto> win\<lparr>wn_visible := False\<rparr>)\<rparr>)"

text \<open>\<open>builds\<close>: whether a window can be made; a failure is logged only.\<close>

definition ui_send_overlay :: "bool \<Rightarrow> string \<Rightarrow> gui_ui \<Rightarrow> gui_ui" where
  "ui_send_overlay builds file_path u =
     (let u = u\<lparr>ui_state := open_send_overlay file_path (ui_state u)\<rparr> in
      if ui_windows u ''send-overlay'' \<noteq> None then
        show_window ''send-overlay'' (emit_all ''add-file-to-send'' (PlPath file_path) u)
      else if builds then
        u\<lparr>ui_windows := (ui_windows u)(''send-overlay'' \<mapsto> \<lparr>wn_visible = True, wn_on_top = False\<rparr>)\<rparr>
      else u)"

definition overlay_label :: "string \<Rightarrow> string" where
  "overlay_label request_id = ''recv-overlay-'' @ request_id"

definition open_receive_overlay :: "bool \<Rightarrow> string \<Rightarrow> gui_ui \<Rightarrow> gui_ui" where
  "open_receive_overlay builds request_id u =
     (let window_label = overlay_label request_id in
      if ui_windows u window_label \<noteq> None \<or> builds then
        u\<lparr>ui_windows := (ui_windows u)(window_label \<mapsto> \<lparr>wn_visible = True, wn_on_top = True\<rparr>)\<rparr>
      else u)"

section \<open>Events of the core\<close>

text \<open>Events of a transfer that is received over QUIC; a request opens its window.\<close>

fun forward_received :: "bool \<Rightarrow> transfer_event \<Rightarrow> gui_ui \<Rightarrow> gui_ui" where
  "forward_received builds (SendStatus i s) u = emit_all ''send-status'' (PlEvent (SendStatus i s)) u"
| "forward_received builds (Rejected i) u = emit_all ''transfer-rejected'' (PlEvent (Rejected i)) u"
| "forward_received builds (TransferError i e) u = emit_all ''transfer-error'' (PlEvent (TransferError i e)) u"
| "forward_received builds (Incoming i sd nd nm n) u =
     open_receive_overlay builds i (emit_all ''transfer-incoming'' (PlEvent (Incoming i sd nd nm n)) u)"
| "forward_received builds (Progress i n k v) u = emit_all ''transfer-progress'' (PlEvent (Progress i n k v)) u"
| "forward_received builds (Complete i p h t) u = emit_all ''transfer-complete'' (PlEvent (Complete i p h t)) u"
| "forward_received builds (Cancelled i) u = emit_all ''transfer-cancelled'' PlUnit u"

text \<open>Events of a transfer that is sent over QUIC.\<close>

fun forward_sent :: "transfer_event \<Rightarrow> gui_ui \<Rightarrow> gui_ui" where
  "forward_sent (SendStatus i s) u = emit_all ''send-status'' (PlEvent (SendStatus i s)) u"
| "forward_sent (Rejected i) u = emit_all ''transfer-rejected'' (PlEvent (Rejected i)) u"
| "forward_sent (TransferError i e) u = emit_all ''transfer-error'' (PlEvent (TransferError i e)) u"
| "forward_sent (Incoming i sd nd nm n) u = emit_all ''transfer-incoming'' (PlEvent (Incoming i sd nd nm n)) u"
| "forward_sent (Progress i n k v) u = emit_all ''send-progress'' (PlEvent (Progress i n k v)) u"
| "forward_sent (Complete i p h t) u = emit_all ''transfer-complete'' (PlEvent (Complete i p h t)) u"
| "forward_sent (Cancelled i) u = emit_all ''transfer-cancelled'' PlUnit u"

section \<open>Start, tray and window handlers\<close>

definition file_args :: "string list \<Rightarrow> string list" where
  "file_args argv = filter (\<lambda>a. \<not> starts_with a ''-'') (drop 1 argv)"

definition on_second_instance :: "bool \<Rightarrow> string list \<Rightarrow> gui_ui \<Rightarrow> gui_ui" where
  "on_second_instance builds argv u =
     (if file_args argv \<noteq> [] then fold (ui_send_overlay builds) (file_args argv) u
      else show_window ''main'' u)"

definition on_setup :: "bool \<Rightarrow> string list \<Rightarrow> gui_ui \<Rightarrow> gui_ui" where
  "on_setup builds argv u =
     (if file_args argv \<noteq> [] then fold (ui_send_overlay builds) (file_args argv) u
      else hide_window ''main'' u)"

definition on_system_tray_event :: "string \<Rightarrow> gui_ui \<Rightarrow> gui_ui" where
  "on_system_tray_event item u =
     (if item = ''quit'' then u\<lparr>ui_exited := True\<rparr>
      else if item = ''show'' then show_window ''main'' u
      else u)"

text \<open>Closing the main window hides it; every other window is destroyed.\<close>

definition on_close_requested :: "string \<Rightarrow> gui_ui \<Rightarrow> gui_ui" where
  "on_close_requested label u =
     (if label = ''main'' then hide_window ''main'' u
      else u\<lparr>ui_windows := (ui_windows u)(label := None)\<rparr>)"

text \<open>Everything that acts on the windows.\<close>

datatype ui_event =
    UiReceived bool transfer_event
  | UiSent transfer_event
  | UiIncoming bool string
  | UiSecondInstance bool "string list"
  | UiTray string
  | UiClose string

fun ui_step :: "ui_event \<Rightarrow> gui_ui \<Rightarrow> gui_ui" where
  "ui_step ev u =
     (if ui_exited u then u
      else case ev of
        UiReceived builds e \<Rightarrow> forward_received builds e u
      | UiSent e \<Rightarrow> forward_sent e u
      | UiIncoming builds i \<Rightarrow> open_receive_overlay builds i u
      | UiSecondInstance builds argv \<Rightarrow> on_second_instance builds argv u
      | UiTray item \<Rightarrow> on_system_tray_event item u
      | UiClose label \<Rightarrow> on_close_requested label u)"

definition ui_run :: "ui_event list \<Rightarrow> gui_ui \<Rightarrow> gui_ui" where
  "ui_run evs u = fold ui_step evs u"

text \<open>The main window is made hidden by the framework before the set-up runs.\<close>

definition ui_start :: "bool \<Rightarrow> string list \<Rightarrow> gui_state \<Rightarrow> gui_ui" where
  "ui_start builds argv g = on_setup builds argv
     \<lparr>ui_state = g, ui_windows = [''main'' \<mapsto> \<lparr>wn_visible = False, wn_on_top = False\<rparr>], ui_emitted = [], ui_exited = False\<rparr>"

section \<open>What the windows guarantee\<close>

lemma windows_simps [simp]:
  "ui_windows (emit_all n p u) = ui_windows u"
  "ui_windows (show_window l u) m = (case ui_windows u m of None \<Rightarrow> None | Some win \<Rightarrow> Some (if m = l then win\<lparr>wn_visible := True\<rparr> else win))"
  "ui_windows (hide_window l u) m = (case ui_windows u m of None \<Rightarrow> None | Some win \<Rightarrow> Some (if m = l then win\<lparr>wn_visible := False\<rparr> else win))"
  by (auto simp: emit_all_def show_window_def hide_window_def split: option.splits)

lemma overlay_label_simps [simp]:
  "overlay_label i \<noteq> ''main''" "overlay_label i \<noteq> ''send-overlay''" "overlay_label i = overlay_label j \<longleftrightarrow> i = j"
  by (auto simp: overlay_label_def)

lemma send_overlays_keep:
  "ui_windows u l \<noteq> None \<Longrightarrow> ui_windows (fold (ui_send_overlay b) ps u) l \<noteq> None"
proof (induction ps arbitrary: u)
  case (Cons p ps)
  have "ui_windows (ui_send_overlay b p u) l \<noteq> None"
    using Cons.prems by (auto simp: ui_send_overlay_def Let_def split: option.splits)
  with Cons.IH show ?case by simp
qed simp

lemma ui_step_keeps:
  "ev \<noteq> UiClose l \<or> l = ''main'' \<Longrightarrow> ui_windows u l \<noteq> None \<Longrightarrow> ui_windows (ui_step ev u) l \<noteq> None"
proof (cases ev)
  case (UiReceived b e)
  then show "ui_windows u l \<noteq> None \<Longrightarrow> ?thesis"
    by (cases e) (auto simp: open_receive_overlay_def Let_def)
next
  case (UiSent e)
  then show "ui_windows u l \<noteq> None \<Longrightarrow> ?thesis" by (cases e) auto
next
  case (UiSecondInstance b argv)
  then show "ui_windows u l \<noteq> None \<Longrightarrow> ?thesis"
    using send_overlays_keep [of u l b "file_args argv"] by (auto simp: on_second_instance_def split: option.splits)
qed (auto simp: open_receive_overlay_def on_system_tray_event_def on_close_requested_def Let_def split: option.splits)

lemma ui_run_keeps:
  "\<forall>ev \<in> set evs. ev \<noteq> UiClose l \<or> l = ''main'' \<Longrightarrow> ui_windows u l \<noteq> None \<Longrightarrow> ui_windows (ui_run evs u) l \<noteq> None"
proof (induction evs arbitrary: u)
  case (Cons ev evs)
  then have "ui_windows (ui_step ev u) l \<noteq> None" by (intro ui_step_keeps) auto
  with Cons show ?case by (simp add: ui_run_def del: ui_step.simps)
qed (simp add: ui_run_def)

lemma ui_start_main: "ui_windows (ui_start b argv g) ''main'' \<noteq> None"
  using send_overlays_keep [of _ "''main''" b "file_args argv"] by (auto simp: ui_start_def on_setup_def)

text \<open>
  The application stays reachable: whatever the transfers, further starts and the user do
  with the windows, the main window exists until the user quits, so that the tray can show
  it, and it is visible after the tray has been asked to; and a request that came in over QUIC
  has its window until the user closes it.
\<close>

theorem windows_stay:
  assumes "ui_run evs (ui_start builds argv g) = u" "\<not> ui_exited u"
  shows "(\<exists>win. ui_windows (ui_step (UiTray ''show'') u) ''main'' = Some win \<and> wn_visible win)
    \<and> (\<forall>evs'. UiClose (overlay_label i) \<notin> set evs' \<longrightarrow>
        ui_windows (ui_run (UiReceived True (Incoming i sd nd nm n) # evs') u) (overlay_label i) \<noteq> None)"
proof -
  have "ui_windows u ''main'' \<noteq> None"
    using ui_run_keeps [OF _ ui_start_main, of evs builds argv g] assms(1) by blast
  then have "\<exists>win. ui_windows (ui_step (UiTray ''show'') u) ''main'' = Some win \<and> wn_visible win"
    using assms(2) by (auto simp: on_system_tray_event_def)
  moreover have "ui_windows (ui_run (UiReceived True (Incoming i sd nd nm n) # evs') u) (overlay_label i) \<noteq> None"
    if "UiClose (overlay_label i) \<notin> set evs'" for evs'
  proof -
    let ?u = "ui_step (UiReceived True (Incoming i sd nd nm n)) u"
    have "ui_windows ?u (overlay_label i) \<noteq> None" using assms(2) by (simp add: open_receive_overlay_def Let_def)
    then have "ui_windows (ui_run evs' ?u) (overlay_label i) \<noteq> None"
      by (rule ui_run_keeps [rotated]) (use that in auto)
    then show ?thesis by (simp add: ui_run_def del: ui_step.simps)
  qed
  ultimately show ?thesis by blast
qed

definition demo_gui :: gui_state where
  "demo_gui = \<lparr>gs_world = world_new, gs_db = demo_db, gs_discovery = None, gs_device_id = ''ABC01234'',
     gs_device_name = ''me'', gs_output_dir = ''.'', gs_pending_files = []\<rparr>"

lemma windows_stay_witness:
  "\<exists>win. ui_windows (ui_step (UiTray ''show'') (ui_run [UiClose ''main'', UiTray ''x''] (ui_start True [] demo_gui))) ''main'' = Some win
     \<and> wn_visible win"
  by (rule conjunct1 [OF windows_stay [OF refl]])
     (simp add: ui_run_def ui_start_def on_setup_def file_args_def hide_window_def on_close_requested_def on_system_tray_event_def)

end
