(* ===== verification/Backpressure.thy ===== *)
theory Backpressure
  imports Prelude
begin

text \<open>
  The bounded in-memory pipe of \<open>p2ptransfer-core/src/network/backpressure.rs\<close>. A poll
  returns \<open>Ready\<close> or \<open>Pending\<close>; the wakers are the ids of the tasks that registered
  them, and each operation reports the tasks it wakes. The locale \<open>fifo\<close> is what the users
  of a byte channel rely on.
\<close>

section \<open>State and operations\<close>

record pipe_state =
  ps_buffer :: "byte list"
  ps_capacity :: nat
  ps_read_closed :: bool
  ps_write_closed :: bool
  ps_read_waker :: "nat option"
  ps_write_waker :: "nat option"

datatype 'a poll = Ready 'a | PollPending

definition new_pipe :: "nat \<Rightarrow> pipe_state" where
  "new_pipe capacity = \<lparr>ps_buffer = [], ps_capacity = capacity, ps_read_closed = False,
     ps_write_closed = False, ps_read_waker = None, ps_write_waker = None\<rparr>"

definition pipe_filled :: "pipe_state \<Rightarrow> nat" where
  "pipe_filled s = length (ps_buffer s)"

definition pipe_free :: "pipe_state \<Rightarrow> nat" where
  "pipe_free s = ps_capacity s - length (ps_buffer s)"

definition take_write_waker :: "pipe_state \<Rightarrow> nat set \<times> pipe_state" where
  "take_write_waker s = (set_option (ps_write_waker s), s\<lparr>ps_write_waker := None\<rparr>)"

definition take_read_waker :: "pipe_state \<Rightarrow> nat set \<times> pipe_state" where
  "take_read_waker s = (set_option (ps_read_waker s), s\<lparr>ps_read_waker := None\<rparr>)"

definition drop_reader :: "pipe_state \<Rightarrow> nat set \<times> pipe_state" where
  "drop_reader s = take_write_waker (s\<lparr>ps_read_closed := True\<rparr>)"

definition drop_writer :: "pipe_state \<Rightarrow> nat set \<times> pipe_state" where
  "drop_writer s = take_read_waker (s\<lparr>ps_write_closed := True\<rparr>)"

definition poll_shutdown :: "pipe_state \<Rightarrow> nat set \<times> pipe_state" where
  "poll_shutdown s = take_read_waker (s\<lparr>ps_write_closed := True\<rparr>)"

text \<open>\<open>remaining\<close> is the room in the caller's buffer.\<close>

definition poll_read :: "nat \<Rightarrow> nat \<Rightarrow> pipe_state \<Rightarrow> byte list poll \<times> nat set \<times> pipe_state" where
  "poll_read task remaining s =
     (if pipe_filled s = 0 then
        (if ps_write_closed s then (Ready [], {}, s)
         else (PollPending, {}, s\<lparr>ps_read_waker := Some task\<rparr>))
      else let avail = min (pipe_filled s) remaining;
               out = take avail (ps_buffer s);
               (woken, s) = take_write_waker (s\<lparr>ps_buffer := drop avail (ps_buffer s)\<rparr>)
           in (Ready out, woken, s))"

definition poll_write :: "nat \<Rightarrow> byte list \<Rightarrow> pipe_state
    \<Rightarrow> (string + nat) poll \<times> nat set \<times> pipe_state" where
  "poll_write task buf s =
     (if ps_write_closed s then (Ready (Inl ''pipe is closed''), {}, s)
      else if ps_read_closed s then (Ready (Inl ''reader has dropped the pipe''), {}, s)
      else if pipe_free s = 0 then (PollPending, {}, s\<lparr>ps_write_waker := Some task\<rparr>)
      else let to_write = min (pipe_free s) (length buf);
               (woken, s) = take_read_waker (s\<lparr>ps_buffer := ps_buffer s @ take to_write buf\<rparr>)
           in (Ready (Inr to_write), woken, s))"

section \<open>Runs\<close>

datatype pipe_action =
  PipeRead nat nat | PipeWrite nat "byte list" | PipeShutdown | PipeDropReader | PipeDropWriter

text \<open>The bytes an operation accepts from the writer and delivers to the reader.\<close>

definition op_accepted :: "pipe_action \<Rightarrow> pipe_state \<Rightarrow> byte list" where
  "op_accepted x s =
     (case x of PipeWrite t buf \<Rightarrow>
        (case poll_write t buf s of (Ready (Inr n), _) \<Rightarrow> take n buf | _ \<Rightarrow> [])
      | _ \<Rightarrow> [])"

definition op_delivered :: "pipe_action \<Rightarrow> pipe_state \<Rightarrow> byte list" where
  "op_delivered x s =
     (case x of PipeRead t n \<Rightarrow> (case poll_read t n s of (Ready bs, _) \<Rightarrow> bs | _ \<Rightarrow> []) | _ \<Rightarrow> [])"

fun pipe_op :: "pipe_action \<Rightarrow> pipe_state \<Rightarrow> nat set \<times> pipe_state" where
  "pipe_op (PipeRead t n) s = snd (poll_read t n s)"
| "pipe_op (PipeWrite t buf) s = snd (poll_write t buf s)"
| "pipe_op PipeShutdown s = poll_shutdown s"
| "pipe_op PipeDropReader s = drop_reader s"
| "pipe_op PipeDropWriter s = drop_writer s"

section \<open>The contract of a byte channel\<close>

locale fifo =
  fixes step :: "'op \<Rightarrow> 's \<Rightarrow> 's"
    and accepted :: "'op \<Rightarrow> 's \<Rightarrow> 'a list"
    and delivered :: "'op \<Rightarrow> 's \<Rightarrow> 'a list"
    and queue :: "'s \<Rightarrow> 'a list"
    and ok :: "'s \<Rightarrow> bool"
    and bound :: "'s \<Rightarrow> nat"
  assumes step_queue: "ok s \<Longrightarrow> delivered x s @ queue (step x s) = queue s @ accepted x s"
    and step_ok: "ok s \<Longrightarrow> ok (step x s)"
    and step_bound: "bound (step x s) = bound s"
    and ok_bound: "ok s \<Longrightarrow> length (queue s) \<le> bound s"
begin

fun run :: "'op list \<Rightarrow> 's \<Rightarrow> 'a list \<times> 'a list \<times> 's" where
  "run [] s = ([], [], s)"
| "run (x # xs) s =
     (case run xs (step x s) of (a, d, s') \<Rightarrow> (accepted x s @ a, delivered x s @ d, s'))"

text \<open>What has been delivered and what is still queued is what was accepted, in order.\<close>

lemma run_fifo:
  "ok s \<Longrightarrow> run xs s = (a, d, s') \<Longrightarrow>
   queue s @ a = d @ queue s' \<and> ok s' \<and> bound s' = bound s \<and> length (queue s') \<le> bound s"
proof (induction xs arbitrary: s a d)
  case Nil
  then show ?case by (simp add: ok_bound)
next
  case (Cons x xs)
  obtain a' d' where r: "run xs (step x s) = (a', d', s')"
    and ad: "a = accepted x s @ a'" "d = delivered x s @ d'"
    using Cons.prems(2) by (auto split: prod.splits)
  from Cons.IH [OF step_ok [OF Cons.prems(1)] r]
  have IH: "queue (step x s) @ a' = d' @ queue s' \<and> ok s' \<and> bound s' = bound s
      \<and> length (queue s') \<le> bound s"
    by (simp add: step_bound)
  have "queue s @ a = (delivered x s @ queue (step x s)) @ a'"
    by (simp add: ad step_queue [OF Cons.prems(1)])
  also have "\<dots> = delivered x s @ d' @ queue s'" using IH by simp
  finally show ?case using IH by (simp add: ad)
qed

end

text \<open>
  A registered waker means that its task cannot go on: the reader's when the buffer is
  empty and the writer is there, the writer's when the buffer is full and the reader is.
\<close>

definition pipe_inv :: "pipe_state \<Rightarrow> bool" where
  "pipe_inv s \<longleftrightarrow> length (ps_buffer s) \<le> ps_capacity s
     \<and> (ps_read_waker s \<noteq> None \<longrightarrow> ps_buffer s = [] \<and> \<not> ps_write_closed s)
     \<and> (ps_write_waker s \<noteq> None \<longrightarrow> pipe_free s = 0 \<and> \<not> ps_read_closed s)"

lemmas pipe_defs = poll_read_def poll_write_def poll_shutdown_def drop_reader_def drop_writer_def
  take_read_waker_def take_write_waker_def pipe_filled_def pipe_free_def Let_def

lemma pipe_op_inv: "pipe_inv s \<Longrightarrow> pipe_inv (snd (pipe_op x s))"
  by (cases x) (auto simp: pipe_inv_def pipe_defs)

lemma pipe_op_queue:
  "op_delivered x s @ ps_buffer (snd (pipe_op x s)) = ps_buffer s @ op_accepted x s"
  by (cases x) (auto simp: op_delivered_def op_accepted_def pipe_defs)

lemma pipe_op_capacity: "ps_capacity (snd (pipe_op x s)) = ps_capacity s"
  by (cases x) (auto simp: pipe_defs)

interpretation bp: fifo "\<lambda>x s. snd (pipe_op x s)" op_accepted op_delivered ps_buffer pipe_inv ps_capacity
  by unfold_locales
     (simp_all add: pipe_op_inv pipe_op_queue pipe_op_capacity, simp add: pipe_inv_def)

text \<open>
  C15. The pipe is a bounded queue: after any sequence of reads, writes, shutdowns and
  drops, the bytes delivered followed by the bytes in the buffer are exactly the bytes
  accepted, in order, and never more than \<open>capacity\<close> bytes are in flight.
\<close>

theorem pipe_is_bounded_fifo:
  assumes "bp.run xs (new_pipe capacity) = (accepted, delivered, s)"
  shows "accepted = delivered @ ps_buffer s \<and> length (ps_buffer s) \<le> capacity"
proof -
  have "pipe_inv (new_pipe capacity)" by (simp add: pipe_inv_def new_pipe_def)
  from bp.run_fifo [OF this assms] show ?thesis by (simp add: new_pipe_def)
qed

lemma pipe_is_bounded_fifo_witness:
  "bp.run [PipeWrite 1 [1, 2, 3], PipeRead 2 1] (new_pipe 2) =
      ([1, 2], [1], snd (snd (bp.run [PipeWrite 1 [1, 2, 3], PipeRead 2 1] (new_pipe 2))))
    \<and> length (ps_buffer (snd (snd (bp.run [PipeWrite 1 [1, 2, 3], PipeRead 2 1] (new_pipe 2))))) \<le> 2"
proof -
  have r: "bp.run [PipeWrite 1 [1, 2, 3], PipeRead 2 1] (new_pipe 2) =
      ([1, 2], [1], snd (snd (bp.run [PipeWrite 1 [1, 2, 3], PipeRead 2 1] (new_pipe 2))))"
    by (simp add: pipe_defs new_pipe_def op_accepted_def op_delivered_def)
  with pipe_is_bounded_fifo [OF r] show ?thesis by simp
qed

text \<open>
  C16. No sleeper is forgotten: in every reachable state a task is registered only while
  it cannot go on, and a registration disappears only when its task is woken by that
  operation or replaced by a new poll of the same side.
\<close>

theorem pipe_wakes_sleepers:
  assumes "pipe_inv s" "pipe_op x s = (woken, s')"
  shows "pipe_inv s'
    \<and> (\<forall>t. ps_read_waker s = Some t \<longrightarrow>
         ps_read_waker s' = Some t \<or> t \<in> woken \<or> (\<exists>u n. x = PipeRead u n))
    \<and> (\<forall>t. ps_write_waker s = Some t \<longrightarrow>
         ps_write_waker s' = Some t \<or> t \<in> woken \<or> (\<exists>u bs. x = PipeWrite u bs))"
  using assms pipe_op_inv [of s x] by (cases x) (auto simp: pipe_defs split: if_splits)

lemma pipe_wakes_sleepers_witness:
  "\<exists>woken s'. pipe_op (PipeWrite 1 [7]) ((new_pipe 4)\<lparr>ps_read_waker := Some 5\<rparr>) = (woken, s')
    \<and> 5 \<in> woken \<and> pipe_inv s'"
proof -
  let ?s = "(new_pipe 4)\<lparr>ps_read_waker := Some 5\<rparr>"
  obtain woken s' where p: "pipe_op (PipeWrite 1 [7]) ?s = (woken, s')" by fastforce
  then have "ps_read_waker s' = None" by (auto simp: pipe_defs new_pipe_def)
  moreover have "pipe_inv ?s" by (simp add: pipe_inv_def new_pipe_def)
  ultimately show ?thesis using p pipe_wakes_sleepers [OF _ p] by auto
qed

end
