(* ===== verification/Bandwidth.thy ===== *)
theory Bandwidth
  imports Prelude
begin

text \<open>
  \<open>p2ptransfer-core/src/network/bandwidth.rs\<close>: the monitor with its sliding window and the
  rate limiter. Instants are rational seconds, passed as the times the clock shows; the floats of
  the code are read as rationals, counters are \<open>u64\<close> and wrap as \<open>fetch_add\<close> does.
\<close>

section \<open>Monitor\<close>

record bandwidth_snapshot =
  bs_bytes_per_second :: rat
  bs_total_bytes :: u64
  bs_elapsed_secs :: rat

record bandwidth_monitor =
  bm_total_bytes :: u64
  bm_start_time :: rat
  bm_window_bytes :: u64
  bm_window_start :: rat
  bm_window_duration :: rat

definition monitor_new :: "rat \<Rightarrow> rat \<Rightarrow> bandwidth_monitor" where
  "monitor_new window_duration now =
     \<lparr>bm_total_bytes = 0, bm_start_time = now, bm_window_bytes = 0, bm_window_start = now,
      bm_window_duration = window_duration\<rparr>"

definition record_bytes :: "u64 \<Rightarrow> bandwidth_monitor \<Rightarrow> bandwidth_monitor" where
  "record_bytes n m =
     m\<lparr>bm_total_bytes := bm_total_bytes m + n, bm_window_bytes := bm_window_bytes m + n\<rparr>"

definition snapshot :: "rat \<Rightarrow> bandwidth_monitor \<Rightarrow> bandwidth_snapshot \<times> bandwidth_monitor" where
  "snapshot now m =
     (let window_elapsed = now - bm_window_start m;
          rate = of_nat (unat (bm_window_bytes m)) / window_elapsed;
          (bytes_per_second, m') =
            (if window_elapsed > 0 then
               (if window_elapsed \<ge> bm_window_duration m
                then (rate, m\<lparr>bm_window_bytes := 0, bm_window_start := now\<rparr>)
                else (rate, m))
             else (0, m))
      in (\<lparr>bs_bytes_per_second = bytes_per_second, bs_total_bytes = bm_total_bytes m,
           bs_elapsed_secs = now - bm_start_time m\<rparr>, m'))"

definition monitor_total_bytes :: "bandwidth_monitor \<Rightarrow> u64" where
  "monitor_total_bytes m = bm_total_bytes m"

definition monitor_reset :: "rat \<Rightarrow> bandwidth_monitor \<Rightarrow> bandwidth_monitor" where
  "monitor_reset now m = m\<lparr>bm_total_bytes := 0, bm_window_bytes := 0, bm_window_start := now\<rparr>"

datatype monitor_op = Record u64 | Snapshot rat

fun monitor_step :: "monitor_op \<Rightarrow> bandwidth_monitor \<Rightarrow> bandwidth_monitor" where
  "monitor_step (Record n) m = record_bytes n m"
| "monitor_step (Snapshot now) m = snd (snapshot now m)"

fun recorded :: "monitor_op list \<Rightarrow> nat" where
  "recorded [] = 0"
| "recorded (Record n # xs) = unat n + recorded xs"
| "recorded (Snapshot now # xs) = recorded xs"

text \<open>The total counts every byte; a window holds what was recorded since it began.\<close>

lemma monitor_total:
  "unat (bm_total_bytes m) + recorded xs < 2 ^ 64 \<Longrightarrow>
   unat (bm_total_bytes (fold monitor_step xs m)) = unat (bm_total_bytes m) + recorded xs"
proof (induction xs arbitrary: m)
  case Nil
  then show ?case by simp
next
  case (Cons x xs)
  show ?case
  proof (cases x)
    case (Record n)
    with Cons.prems have "unat (bm_total_bytes m + n) = unat (bm_total_bytes m) + unat n"
      by (intro unat_add_u64) simp
    with Cons Record show ?thesis by (simp add: record_bytes_def)
  next
    case (Snapshot now)
    have "bm_total_bytes (snd (snapshot now m)) = bm_total_bytes m"
      by (simp add: snapshot_def Let_def)
    with Cons Snapshot show ?thesis by simp
  qed
qed

section \<open>Rate limiter\<close>

record rate_limiter =
  rl_max_bytes_per_second :: u64
  rl_accumulated :: rat
  rl_last :: rat

definition limiter_new :: "u64 \<Rightarrow> rat \<Rightarrow> rate_limiter" where
  "limiter_new n now = \<lparr>rl_max_bytes_per_second = n, rl_accumulated = 0, rl_last = now\<rparr>"

abbreviation rl_rate :: "rate_limiter \<Rightarrow> rat" where
  "rl_rate r \<equiv> of_nat (unat (rl_max_bytes_per_second r))"

text \<open>
  The clock is read twice in a call, once for the time elapsed (\<open>now\<close>) and once for the new
  reference point (\<open>stored\<close>).
\<close>

definition allow :: "u64 \<Rightarrow> rat \<Rightarrow> rat \<Rightarrow> rate_limiter \<Rightarrow> bool \<times> rate_limiter" where
  "allow bytes now stored r =
     (let elapsed = now - rl_last r;
          level = max (rl_accumulated r - rl_rate r * elapsed) 0 + of_nat (unat bytes)
      in (level \<le> rl_rate r, r\<lparr>rl_accumulated := level, rl_last := stored\<rparr>))"

text \<open>A sequence of calls: the bytes that were allowed, each with the time of its call.\<close>

fun allow_all :: "(u64 \<times> rat \<times> rat) list \<Rightarrow> rate_limiter \<Rightarrow> (nat \<times> rat) list \<times> rate_limiter" where
  "allow_all [] r = ([], r)"
| "allow_all ((n, t, t') # cs) r =
     (let (ok, r') = allow n t t' r; (as, r'') = allow_all cs r'
      in ((if ok then [(unat n, t)] else []) @ as, r''))"

definition allowed_sum :: "(nat \<times> rat) list \<Rightarrow> nat" where
  "allowed_sum as = sum_list (map fst as)"

text \<open>What was allowed between two instants.\<close>

definition allowed_within :: "rat \<Rightarrow> rat \<Rightarrow> (nat \<times> rat) list \<Rightarrow> nat" where
  "allowed_within s e as = allowed_sum (filter (\<lambda>(n, t). s \<le> t \<and> t \<le> e) as)"

fun times_ok :: "rat \<Rightarrow> (u64 \<times> rat \<times> rat) list \<Rightarrow> bool" where
  "times_ok t0 [] = True"
| "times_ok t0 ((n, t, t') # cs) = (t0 \<le> t \<and> t \<le> t' \<and> times_ok t' cs)"

lemma allowed_sum_simps [simp]:
  "allowed_sum [] = 0" "allowed_sum ((n, t) # as) = n + allowed_sum as"
  by (simp_all add: allowed_sum_def)

lemma allow_fields [simp]:
  "rl_max_bytes_per_second (snd (allow n t t' r)) = rl_max_bytes_per_second r"
  "rl_last (snd (allow n t t' r)) = t'"
  by (simp_all add: allow_def Let_def)

lemma rat_unsigned_nonneg [simp]: "(0 :: rat) \<le> unsigned (w :: u64)"
  by (metis of_nat_0_le_iff of_nat_unat)

lemma allow_step:
  assumes "allow n t t' r = (ok, r1)"
  shows "rl_accumulated r1 = max (rl_accumulated r - rl_rate r * (t - rl_last r)) 0 + of_nat (unat n)"
    and "ok \<longleftrightarrow> rl_accumulated r1 \<le> rl_rate r" "rl_last r1 = t'" "rl_rate r1 = rl_rate r"
    and "0 \<le> rl_accumulated r1"
    and "rl_accumulated r + of_nat (unat n) \<le> rl_accumulated r1 + rl_rate r * (t - rl_last r)"
proof -
  show acc: "rl_accumulated r1 = max (rl_accumulated r - rl_rate r * (t - rl_last r)) 0 + of_nat (unat n)"
    and "ok \<longleftrightarrow> rl_accumulated r1 \<le> rl_rate r" "rl_last r1 = t'" "rl_rate r1 = rl_rate r"
    using assms by (auto simp: allow_def Let_def)
  show "0 \<le> rl_accumulated r1" using acc by (simp add: add_nonneg_nonneg)
  show "rl_accumulated r + of_nat (unat n) \<le> rl_accumulated r1 + rl_rate r * (t - rl_last r)"
    unfolding acc by linarith
qed

lemma allow_all_Cons:
  assumes "allow_all ((n, t, t') # cs) r = (as, r')"
  obtains ok r1 as1 where "allow n t t' r = (ok, r1)" "allow_all cs r1 = (as1, r')"
    "as = (if ok then [(unat n, t)] else []) @ as1"
  using assms by (auto split: prod.splits)

lemma allow_all_times:
  assumes "allow_all cs r = (as, r')" "times_ok u cs" "(k, t) \<in> set as"
  shows "u \<le> t"
  using assms
proof (induction cs arbitrary: r as u)
  case (Cons c cs)
  obtain n v v' where c: "c = (n, v, v')" by (cases c)
  obtain ok r1 as1 where step: "allow n v v' r = (ok, r1)" "allow_all cs r1 = (as1, r')"
      "as = (if ok then [(unat n, v)] else []) @ as1"
    using allow_all_Cons Cons.prems(1) c by blast
  have v: "u \<le> v" "v \<le> v'" "times_ok v' cs" using Cons.prems(2) c by simp_all
  show ?case using Cons.IH [OF step(2) v(3)] v Cons.prems(3) step(3) by (auto split: if_splits)
qed simp

text \<open>
  The level never falls below what was let through minus what has leaked since: what is
  allowed up to \<open>e\<close> fits into the rate since the last call and one second's worth of burst,
  less the present level.
\<close>

lemma allow_all_level:
  assumes "allow_all cs r = (as, r')" "times_ok (rl_last r) cs" "0 \<le> rl_accumulated r"
    and fe: "fe = filter (\<lambda>(n, t). t \<le> e) as"
  shows "fe = [] \<or> of_nat (allowed_sum fe) + rl_accumulated r \<le> rl_rate r * (e - rl_last r) + rl_rate r"
  using assms
proof (induction cs arbitrary: r as fe)
  case (Cons c cs)
  obtain n t t' where c: "c = (n, t, t')" by (cases c)
  obtain ok r1 as1 where step: "allow n t t' r = (ok, r1)" "allow_all cs r1 = (as1, r')"
      "as = (if ok then [(unat n, t)] else []) @ as1"
    using allow_all_Cons Cons.prems(1) c by blast
  note S = allow_step [OF step(1)]
  have t: "rl_last r \<le> t" "t \<le> rl_last r1" "times_ok (rl_last r1) cs" using Cons.prems(2) c S(3) by simp_all
  let ?f = "filter (\<lambda>(n, t). t \<le> e)"
  show ?case
  proof (cases "t \<le> e")
    case False
    have "\<not> u \<le> e" if "(k, u) \<in> set as1" for k u
      using allow_all_times [OF step(2) t(3) that] t(2) False by linarith
    then have "?f as1 = []" by (auto simp: filter_empty_conv)
    with Cons.prems(4) step(3) False show ?thesis by simp
  next
    case True
    have le: "rl_rate r * (t - rl_last r) \<le> rl_rate r * (e - rl_last r)"
      using True by (intro mult_left_mono) simp_all
    have leak: "rl_rate r * (e - rl_last r1) + rl_rate r * (t - rl_last r) \<le> rl_rate r * (e - rl_last r)"
      using t(2) mult_left_mono [of t "rl_last r1" "rl_rate r"] by (simp add: algebra_simps)
    show ?thesis
    proof (cases "?f as1 = []")
      case none: True
      show ?thesis
      proof (cases ok)
        case True
        with none \<open>t \<le> e\<close> step(3) Cons.prems(4) have "fe = [(unat n, t)]" by simp
        moreover have "rl_accumulated r1 \<le> rl_rate r" using S(2) True by simp
        ultimately show ?thesis using S(6) le by simp
      qed (use none step(3) Cons.prems(4) in simp)
    next
      case False
      then have IH: "of_nat (allowed_sum (?f as1)) + rl_accumulated r1 \<le> rl_rate r * (e - rl_last r1) + rl_rate r"
        using Cons.IH [OF step(2) t(3) S(5) refl] S(4) by auto
      have "(of_nat (allowed_sum fe) :: rat) \<le> of_nat (unat n) + of_nat (allowed_sum (?f as1))"
        using step(3) Cons.prems(4) True by simp
      with IH S(6) leak have "of_nat (allowed_sum fe) + rl_accumulated r \<le> rl_rate r * (e - rl_last r) + rl_rate r"
        by linarith
      then show ?thesis ..
    qed
  qed
qed simp

text \<open>From the first call of an interval on, the past is only its level, which is not negative.\<close>

lemma allow_all_within:
  assumes "allow_all cs r = (as, r')" "times_ok (rl_last r) cs" "0 \<le> rl_accumulated r" "s \<le> e"
  shows "of_nat (allowed_within s e as) \<le> rl_rate r * (e - s) + rl_rate r"
  using assms(1-3)
proof (induction cs arbitrary: r as)
  case Nil
  with assms(4) show ?case by (simp add: allowed_within_def)
next
  case (Cons c cs)
  obtain n t t' where c: "c = (n, t, t')" by (cases c)
  obtain ok r1 as1 where step: "allow n t t' r = (ok, r1)" "allow_all cs r1 = (as1, r')"
      "as = (if ok then [(unat n, t)] else []) @ as1"
    using allow_all_Cons Cons.prems(1) c by blast
  note S = allow_step [OF step(1)]
  have t: "rl_last r \<le> t" "t \<le> rl_last r1" "times_ok (rl_last r1) cs" using Cons.prems(2) c S(3) by simp_all
  show ?case
  proof (cases "t < s")
    case True
    then have "allowed_within s e as = allowed_within s e as1" using step(3) by (simp add: allowed_within_def)
    with Cons.IH [OF step(2) t(3) S(5)] S(4) show ?thesis by simp
  next
    case False
    let ?fe = "filter (\<lambda>(n, t). t \<le> e) as"
    define r0 where "r0 = r\<lparr>rl_accumulated := max (rl_accumulated r - rl_rate r * (t - rl_last r)) 0, rl_last := t\<rparr>"
    have "allow n t t' r0 = allow n t t' r" by (simp add: allow_def r0_def Let_def)
    then have run: "allow_all ((n, t, t') # cs) r0 = (as, r')" using Cons.prems(1) c by simp
    have ok0: "times_ok (rl_last r0) ((n, t, t') # cs)" "0 \<le> rl_accumulated r0"
      using Cons.prems(2) c by (simp_all add: r0_def)
    have "s \<le> u" if "(k, u) \<in> set as" for k u
      using allow_all_times [OF run ok0(1) that] False by (simp add: r0_def)
    then have within: "allowed_within s e as = allowed_sum ?fe"
      unfolding allowed_within_def by (intro arg_cong [where f = allowed_sum] filter_cong) auto
    have e: "rl_rate r * (e - t) \<le> rl_rate r * (e - s)" using False by (intro mult_left_mono) simp_all
    have "0 \<le> rl_rate r * (e - s)" using assms(4) by simp
    moreover have "?fe = [] \<or> of_nat (allowed_sum ?fe) \<le> rl_rate r * (e - t) + rl_rate r"
      using allow_all_level [OF run ok0 refl, of e] ok0(2) by (auto simp: r0_def)
    ultimately show ?thesis using e within by (auto simp: add_nonneg_nonneg)
  qed
qed

text \<open>
  C17. The limiter keeps its rate over every interval: over calls at non-decreasing times,
  the bytes allowed between two instants \<open>s\<close> and \<open>e\<close> are at most the rate times the length of
  the interval plus one second's worth of burst. Time spent idle before the interval gives no
  credit.
\<close>

theorem rate_limiter_bound:
  assumes "allow_all cs (limiter_new rate t0) = (as, r)" "times_ok t0 cs" "s \<le> e"
  shows "of_nat (allowed_within s e as) \<le> (of_nat (unat rate) :: rat) * (e - s + 1)"
  using allow_all_within [OF assms(1) _ _ assms(3)] assms(2) by (simp add: limiter_new_def algebra_simps)

lemma rate_limiter_bound_witness:
  "(of_nat (allowed_within 100 101 [(60, 0), (100, 100), (10, 101)]) :: rat) \<le> of_nat (unat (100 :: u64)) * (101 - 100 + 1)
   \<and> fst (allow_all [(60, 0, 1), (100, 100, 100), (90, 100, 100), (10, 101, 102)] (limiter_new 100 0))
     = [(60, 0), (100, 100), (10, 101)]"
proof -
  let ?cs = "[(60, 0, 1), (100, 100, 100), (90, 100, 100), (10, 101, 102)]"
  have as: "fst (allow_all ?cs (limiter_new 100 0)) = [(60, 0), (100, 100), (10, 101)]"
    by (simp add: allow_def limiter_new_def Let_def)
  then obtain r where "allow_all ?cs (limiter_new 100 0) = ([(60, 0), (100, 100), (10, 101)], r)"
    by (metis prod.collapse)
  from rate_limiter_bound [OF this, of 100 101] as show ?thesis by simp
qed

text \<open>
  A denied call is charged like an allowed one: one request of more than the rate
  blocks every later request, however small, until the excess has leaked away.
\<close>

theorem rate_limiter_denied_blocks:
  assumes "rl_accumulated r = 0" "rl_last r \<le> t" "t \<le> t'"
    and "rl_max_bytes_per_second r < n"
    and "rl_rate r * (t' - t) < of_nat (unat n) - rl_rate r"
  shows "\<not> fst (allow n t t r) \<and> \<not> fst (allow m t' t'' (snd (allow n t t r)))"
proof -
  have "unat (rl_max_bytes_per_second r) < unat n" using assms(4) by (simp add: word_less_nat_alt)
  then have "rl_rate r < of_nat (unat n)" by (simp only: of_nat_less_iff)
  moreover have "0 \<le> rl_rate r * (t - rl_last r)" using assms(2) by simp
  ultimately have l: "rl_accumulated (snd (allow n t t r)) = of_nat (unat n)" "\<not> fst (allow n t t r)"
    using assms(1) by (simp_all add: allow_def Let_def)
  have "rl_rate r < of_nat (unat n) - rl_rate r * (t' - t) + of_nat (unat m)"
    using assms(5) by linarith
  with l show ?thesis by (simp add: allow_def [of m] Let_def)
qed

lemma rate_limiter_denied_blocks_witness:
  "\<not> fst (allow 1000 0 0 (limiter_new 100 0)) \<and> \<not> fst (allow 1 5 5 (snd (allow 1000 0 0 (limiter_new 100 0))))"
  by (rule rate_limiter_denied_blocks) (simp_all add: limiter_new_def word_less_nat_alt)

end
