(* ===== verification/Spec2Isabelle.thy ===== *)
theory Spec2Isabelle
  imports Tcp_Session Alpn_Session Cancel Cli_Slow Gui_Delivers Mobile_Session Ffi Cli_Concurrent Gui_Listen Gui_Window Resume Compression Backpressure Bandwidth
begin

text \<open>
  A verification development for \<open>p2ptransfer\<close>, a peer-to-peer file transfer program in Rust:
  a core library and four programs on top of it. Paths below are relative to \<open>src/\<close>.


  THE PROGRAM

  The core library (\<open>p2ptransfer-core/src/\<close>) has: the chunker, the hashes and the transfer
  engine; the SQLite database of transfers and contacts; compression; the key exchange and
  the sealing of blocks; the framed TCP server; the LAN discovery; the iteration over files;
  and two protocols that move one file each, an encrypted one over TCP
  (\<open>network/tcp_compat.rs\<close>) and one over QUIC streams (\<open>network/alpn.rs\<close>). Both protocols
  share tables of the process: the requests that wait for the user, the pause flag and the
  active transfer of each request, and a stream of events for the user interface.

  The programs are the command line tool (\<open>desktop/p2ptransfer-cli\<close>), which has a pipelined
  protocol of its own over TCP; the desktop application (\<open>desktop/p2ptransfer-gui/src-tauri\<close>),
  which has copies of the TCP receiver and sender and a queue that tries TCP, then QUIC, until
  a contact is reached; the mobile application's bridge (\<open>mobile/p2ptransfer-flutter/rust\<close>),
  which uses the two protocols of the core; and a small C interface
  (\<open>mobile/p2ptransfer-ffi\<close>).


  CONVENTIONS

  Integers are words of their width (\<open>u64\<close> is \<open>64 word\<close>), so additions, multiplications and
  subtractions wrap as in a release build; \<open>f64\<close> is rational. Strings are lists of
  characters, on the wire lists of bytes. A \<open>Result\<close> is a sum with the error text on the left.
  A struct is a record with a prefix, an enum a datatype.

  A file system is a partial map from paths to contents (\<open>filesystem\<close>); which operations the
  disk refuses is an \<open>io_env\<close>. A connection is the input that has arrived and the output that
  has been written (\<open>conn\<close>, \<open>quic_conn\<close>). The shared tables are one record \<open>world\<close>, which
  the phases of a handler thread through. A handler is one definition per phase of the code
  and one that composes them, with every early return a branch.

  What comes from outside a handler is an argument: the user's commands between two waits, the
  outcomes of disk writes, drawn secrets and identifiers, the clock. A loop takes a list with
  one element per turn; the list is the fuel of the loop, so the loop is total and \<open>None\<close>
  says that the list has ended before the loop did. Theorems about a result that is reached
  carry this as \<open>Some\<close>; the delivery theorems prove that the result is \<open>Some\<close> for every list
  that is long enough (two turns more than the file has blocks over TCP; over QUIC one
  more than the sender has blocks and, as a read returns what has arrived, one more than the
  receiver has bytes; conditions of \<open>tcp_setting\<close> and \<open>alpn_setting\<close>). Tasks that run concurrently are steps of one state, and a
  list of choices is a schedule; a theorem over all lists is one over all interleavings, and
  steps that are not enabled change nothing. For the pipelines of the command line tool every
  schedule is shown to make a bounded number of steps and not to be stuck before the end.

  Code that is not in the repository is a parameter: the hash functions (\<open>hash_lib\<close>,
  \<open>xx_lib\<close>), X25519, HKDF and AES-GCM (\<open>crypto_lib\<close>), zstd and lz4, the JSON and TOML codecs
  of each message (what is printed is parsed back), the random generator and tar. Laws about
  them are named hypotheses of the theorems that need them, and each such theorem has a
  witness on concrete functions.


  THE CORE LIBRARY

  \<open>Prelude\<close>: bytes, decimal texts, operations on file contents and generic lemmas, and the
  collections \<open>word_nat\<close>, \<open>wire\<close>, \<open>file_ops\<close> and \<open>handler_defs\<close>. \<open>Paths\<close>: \<open>std::path\<close>, with the
  order of the standard library as \<open>linorder\<close>. \<open>Net_Addr\<close>: textual IPv4 socket addresses.

  \<open>Chunker\<close> (\<open>transfer/chunker.rs\<close>), \<open>Hashing\<close> (\<open>transfer/hasher.rs\<close>), \<open>Engine\<close>
  (\<open>transfer/engine.rs\<close>): chunks tile the file, a streamed hash is the hash of the whole, and
  the engine copies a file whatever the order and repetition of its chunks
  (\<open>engine_copy_any_order\<close>), up to the chunk size where its two clamps differ. The locale
  \<open>chunk_sink\<close> is what it means to store chunks by index; the engine and the receiver of the
  command line tool are interpretations.

  \<open>Resume\<close> (\<open>transfer/resume.rs\<close>): every statement on the two tables. The locale \<open>record_log\<close>
  refines the table to one optional record per identifier (\<open>resume_runs\<close>); the cleanup removes
  exactly the expired records, up to retentions that overflow. \<open>Compression\<close> (\<open>compress/\<close>),
  \<open>Crypto\<close> (\<open>crypto/ecdh.rs\<close>, \<open>aead.rs\<close>): both ends of an exchange derive one key; sealed
  blocks open. \<open>Short_Id\<close> (\<open>crypto/identity.rs\<close>): identifiers of devices and keys from them.

  \<open>Framing\<close> (\<open>network/tcp.rs\<close> and the JSON helpers of \<open>alpn.rs\<close>): the two length-prefixed
  framings are interpretations of the locale \<open>message_transport\<close>, which gives round trips for
  sequences of messages; also the server object with its loops. \<open>Backpressure\<close>
  (\<open>network/backpressure.rs\<close>): the pipe as an interpretation of \<open>fifo\<close>, bounded, in order, and
  without sleepers that nobody wakes. \<open>Bandwidth\<close> (\<open>network/bandwidth.rs\<close>): the rate limiter
  keeps its bound over every interval. \<open>Discovery\<close> (\<open>p2p/\<close>): the table of peers, the three tasks of the service as
  step machines, how long a peer lives. \<open>File_Iter\<close> (\<open>storage/file_iter.rs\<close>): the iterator
  ends and is complete.

  \<open>Pause_Flag\<close> (\<open>alpn.rs\<close>): the two watch channels of a flag and its waiters as an inductive
  step relation; no wake-up is lost in any reachable state. \<open>Registry\<close>: the tables of the
  process and the commands on them, with their invariant \<open>world_wf\<close>; flags and answers are
  shared by reference, and the tables refine plain maps of values under every sequence of
  operations (\<open>registry_view\<close>, \<open>spec_op\<close>).

  \<open>Tcp_Wire\<close>, \<open>Tcp_Recv\<close>, \<open>Tcp_Send\<close>, \<open>Tcp_Session\<close> (\<open>network/tcp_compat.rs\<close>):
  \<open>tcp_handle_incoming\<close> and \<open>tcp_send_file\<close>, and the two run against each other by feeding each
  the output of the other (\<open>tcp_session\<close>). A fresh transfer delivers, a resume at a block
  boundary completes, any other resume fails and deletes the file; only verified files are kept;
  the tables are left clean.

  \<open>Quic_Wire\<close>, \<open>Alpn_Recv\<close>, \<open>Alpn_Send\<close>, \<open>Alpn_Session\<close> (\<open>network/alpn.rs\<close>): the same for
  \<open>alpn_handle_incoming\<close> and \<open>alpn_send_file\<close>; here a resume off the block boundary gives a
  corrupt file that both ends report as complete. \<open>Cancel\<close> compares what a cancel between two
  turns does to the two receivers. A QUIC loop looks its flag up in every turn, and waits in a
  pause on the flag it has found; a loop that is paused keeps this flag as an argument from
  turn to turn.


  THE COMMAND LINE TOOL (\<open>desktop/p2ptransfer-cli/src/main.rs\<close>)

  \<open>Cli_Wire\<close>: tagged messages (again a \<open>message_transport\<close>), chunk frames, the key exchange.
  \<open>Cli_Recv\<close>: \<open>ReceiverHandler::run\<close> as an opening (\<open>cli_open\<close>) and a pipeline (\<open>cli_step\<close>: reader,
  chunk tasks, hasher, joins, verification). \<open>Cli_Pipeline\<close> and \<open>Cli_Faults\<close>: what holds under
  every schedule, and what a resumed transfer, oversized chunks and a second connection break.
  \<open>Cli_Send\<close>, \<open>Cli_Order\<close>: \<open>cmd_send\<close> and its pipeline (\<open>tx_step\<close>), frames leave in order.
  \<open>Cli_Session\<close>: sender and receiver joined. \<open>Cli_Slow\<close>: the sequential receiver, equal to the
  pipelined one on honest transfers. \<open>Cli_Listen\<close>, \<open>Cli_Concurrent\<close>: \<open>cmd_listen\<close>, whose
  connections interleave over the shared table, database and files; connections to different
  files do not influence one another and all come to their end, and those to one file overwrite
  one another.
  \<open>Cli_Config\<close>, \<open>Cli_Commands\<close>: configuration, choice of the command, listings and contacts.


  THE DESKTOP APPLICATION (\<open>desktop/p2ptransfer-gui/src-tauri/src/\<close>)

  \<open>Gui_App\<close>: the commands on the shared state, contacts, configuration, and the identity of the
  device (\<open>identity.rs\<close>), which is permanent once it exists. \<open>Gui_Recv\<close>: \<open>handle_incoming\<close>, equal
  to the receiver of the core for all inputs once a requested restart is forgotten. \<open>Gui_Send\<close>:
  \<open>send_file_direct_tcp\<close> and the command \<open>send_file\<close>. \<open>Gui_Queue\<close>: \<open>send_to_contact\<close>, a list of
  rounds, each with its TCP attempt, its QUIC attempt and its pause. \<open>Gui_Session\<close>: \<open>send_file\<close>
  against the receivers of the repository, and the queue's witnesses. \<open>Gui_Delivers\<close>: the queue
  joined to the receiver of another desktop. \<open>Gui_Listen\<close>: the listener of \<open>main\<close> and the commands
  that start and stop another, as steps on one port. \<open>Gui_Window\<close>: windows, tray, launch
  arguments and the forwarding of events (\<open>protocol.rs\<close>).


  THE MOBILE APPLICATION AND THE C INTERFACE

  \<open>Mobile\<close>, \<open>Mobile_Session\<close> (\<open>rust/src/api.rs\<close>): commands, look-up of peers, mapping of events
  and the sender that falls back from TCP to QUIC, whose bytes the receiver of the core reads.
  \<open>Ffi\<close> (\<open>p2ptransfer-ffi/src/lib.rs\<close>): hash,
  compression, discovery and the device name.


  NOT MODELLED

  \<open>p2ptransfer-cli/src/iroh_transport.rs\<close>: no module tree names it, so it is not compiled. The
  generated bridge \<open>frb_generated.rs\<close>. The programs at the root of \<open>src/\<close> that rewrite source
  files, the benchmarks and the tests.

  Left out of modelled files: setting up endpoints and sockets and their options (whether it
  succeeds is an input); progress bars, logs, help texts, titles and sizes of windows and the
  entry in the context menu of the file manager; failures of SQLite other than a violated key;
  poisoned mutexes; IPv6 addresses, symbolic links and characters of more than one byte.

  Simplifications: the opening of a connection of the command line listener is one step, and so
  is a write under the lock of a file; a write takes effect at once, so errors that the
  operating system reports later, and the flush after COMPLETE, do not appear. The channel of events is unbounded, so that emitting
  never waits. The reader and writer tasks of a transfer run beside the loop through bounded
  channels; where the loop can see how far they are (a failed write), this is an input. The
  speed of a transfer is an input. The files a sender reads do not change while it runs. The event
  of a cancelled transfer carries the identifier in both copies of the TCP receiver; the desktop
  application emits it without one, which only \<open>Gui_Window\<close> shows.
\<close>

end
